(* ===== verification/Wscd_Prelude.thy ===== *)
theory Wscd_Prelude
  imports Main "HOL-Library.Word" "HOL-Library.AList" "HOL-Library.List_Lexorder" "HOL-Library.Char_ord"
    "HOL-Library.Product_Lexorder"
begin

unbundle bit_operations_syntax

section \<open>Prelude: results, effects, hash maps and the formatting of numbers\<close>

text \<open>
  The vocabulary every component of the model shares.

  \<^item> \<open>rbind\<close>, \<open>ok_or\<close>, \<open>map_err\<close>: Rust's \<open>Result\<close> with \<open>?\<close>, as the sum \<open>'e + 'a\<close>.
  \<^item> \<open>eff\<close>: a computation over a state \<open>'s\<close> that may fail. The state is returned on
    failure too, because a Rust function that returns \<open>Err\<close> keeps every effect it made before.
  \<^item> \<open>hashmap\<close>: \<open>HashMap<K, V>\<close> as an association list. The order of the list stands for the
    iteration order Rust leaves unspecified, so no theorem of the development may depend on it;
    \<open>hm_wf\<close> (no key twice) is kept by every operation.
  \<^item> \<open>show_nat\<close>, \<open>show_int\<close>, \<open>hex2\<close>: the parts of \<open>std::fmt\<close> the messages use.
\<close>

named_theorems eff_elims \<open>elimination facts for the outcome of an effectful step\<close>
named_theorems hm_simps \<open>look-up facts of the hash map operations\<close>

type_synonym byte = "8 word"
type_synonym bytes = "8 word list"

text \<open>A byte from a number below 256, kept opaque so that arithmetic stays in \<open>nat\<close>.\<close>

definition byte_of :: "nat \<Rightarrow> byte" where
  "byte_of n = of_nat n"

lemma unat_byte_of [simp]: "n < 256 \<Longrightarrow> unat (byte_of n) = n"
  by (simp add: byte_of_def unat_of_nat)

lemma byte_of_unat [simp]: "byte_of (unat b) = b"
  by (simp add: byte_of_def)

lemma unat_byte_less: "unat (b :: byte) < 256"
  using unsigned_less [of b] by simp

subsection \<open>Results\<close>

definition rbind :: "'e + 'a \<Rightarrow> ('a \<Rightarrow> 'e + 'b) \<Rightarrow> 'e + 'b" where
  "rbind m f = (case m of Inl e \<Rightarrow> Inl e | Inr x \<Rightarrow> f x)"

definition ok_or :: "'e \<Rightarrow> 'a option \<Rightarrow> 'e + 'a" where
  "ok_or e m = (case m of None \<Rightarrow> Inl e | Some x \<Rightarrow> Inr x)"

definition map_err :: "('e \<Rightarrow> 'f) \<Rightarrow> 'e + 'a \<Rightarrow> 'f + 'a" where
  "map_err f m = (case m of Inl e \<Rightarrow> Inl (f e) | Inr x \<Rightarrow> Inr x)"

definition res_ok :: "'e + 'a \<Rightarrow> 'a option" where
  "res_ok m = (case m of Inl _ \<Rightarrow> None | Inr x \<Rightarrow> Some x)"

definition or_else :: "'a option \<Rightarrow> 'a option \<Rightarrow> 'a option" where
  "or_else a b = (case a of None \<Rightarrow> b | Some x \<Rightarrow> Some x)"

definition is_ok :: "'e + 'a \<Rightarrow> bool" where
  "is_ok m = (case m of Inl _ \<Rightarrow> False | Inr _ \<Rightarrow> True)"

lemma rbind_simps [simp]:
  "rbind (Inl e) f = Inl e"
  "rbind (Inr x) f = f x"
  by (simp_all add: rbind_def)

lemma rbind_eq_Inr: "rbind m f = Inr y \<longleftrightarrow> (\<exists>x. m = Inr x \<and> f x = Inr y)"
  by (cases m) simp_all

lemma rbind_eq_Inl: "rbind m f = Inl e \<longleftrightarrow> m = Inl e \<or> (\<exists>x. m = Inr x \<and> f x = Inl e)"
  by (cases m) simp_all

lemma ok_or_simps [simp]:
  "ok_or e None = Inl e"
  "ok_or e (Some x) = Inr x"
  by (simp_all add: ok_or_def)

lemma ok_or_eq_Inr [simp]: "ok_or e m = Inr x \<longleftrightarrow> m = Some x"
  by (cases m) simp_all

lemma ok_or_eq_Inl [simp]: "ok_or e m = Inl e' \<longleftrightarrow> m = None \<and> e' = e"
  by (cases m) auto

lemma map_err_simps [simp]:
  "map_err f (Inl e) = Inl (f e)"
  "map_err f (Inr x) = Inr x"
  by (simp_all add: map_err_def)

lemma map_err_eq_Inr [simp]: "map_err f m = Inr x \<longleftrightarrow> m = Inr x"
  by (cases m) simp_all

lemma map_err_eq_Inl: "map_err f m = Inl e \<longleftrightarrow> (\<exists>e'. m = Inl e' \<and> e = f e')"
  by (cases m) auto

lemma res_ok_simps [simp]:
  "res_ok (Inl e) = None"
  "res_ok (Inr x) = Some x"
  by (simp_all add: res_ok_def)

lemma res_ok_eq_Some [simp]: "res_ok m = Some x \<longleftrightarrow> m = Inr x"
  by (cases m) simp_all

lemma or_else_simps [simp]:
  "or_else None b = b"
  "or_else (Some x) b = Some x"
  by (simp_all add: or_else_def)

lemma is_ok_simps [simp]:
  "is_ok (Inl e) = False"
  "is_ok (Inr x) = True"
  by (simp_all add: is_ok_def)

subsection \<open>Effects\<close>

type_synonym ('s, 'e, 'a) eff = "'s \<Rightarrow> ('e + 'a) \<times> 's"

definition ereturn :: "'a \<Rightarrow> ('s, 'e, 'a) eff" where
  "ereturn x s = (Inr x, s)"

definition ethrow :: "'e \<Rightarrow> ('s, 'e, 'a) eff" where
  "ethrow e s = (Inl e, s)"

definition elift :: "'e + 'a \<Rightarrow> ('s, 'e, 'a) eff" where
  "elift m s = (m, s)"

definition ebind :: "('s, 'e, 'a) eff \<Rightarrow> ('a \<Rightarrow> ('s, 'e, 'b) eff) \<Rightarrow> ('s, 'e, 'b) eff" where
  "ebind m f s = (case m s of (Inl e, t) \<Rightarrow> (Inl e, t) | (Inr x, t) \<Rightarrow> f x t)"

text \<open>\<open>ecatch m h\<close> is a \<open>match\<close> on the result of \<open>m\<close> whose \<open>Err\<close> arm is \<open>h\<close>.\<close>

definition ecatch :: "('s, 'e, 'a) eff \<Rightarrow> ('e \<Rightarrow> ('s, 'f, 'a) eff) \<Rightarrow> ('s, 'f, 'a) eff" where
  "ecatch m h s = (case m s of (Inl e, t) \<Rightarrow> h e t | (Inr x, t) \<Rightarrow> (Inr x, t))"

definition emap_err :: "('e \<Rightarrow> 'f) \<Rightarrow> ('s, 'e, 'a) eff \<Rightarrow> ('s, 'f, 'a) eff" where
  "emap_err f m s = (case m s of (r, t) \<Rightarrow> (map_err f r, t))"

definition emap :: "('a \<Rightarrow> 'b) \<Rightarrow> ('s, 'e, 'a) eff \<Rightarrow> ('s, 'e, 'b) eff" where
  "emap f m = ebind m (\<lambda>x. ereturn (f x))"

text \<open>\<open>emodify\<close> and \<open>easks\<close> write and read the state; neither can fail.\<close>

definition emodify :: "('s \<Rightarrow> 's) \<Rightarrow> ('s, 'e, unit) eff" where
  "emodify f s = (Inr (), f s)"

definition easks :: "('s \<Rightarrow> 'a) \<Rightarrow> ('s, 'e, 'a) eff" where
  "easks f s = (Inr (f s), s)"

text \<open>
  A plugin operation runs on the pair of the plugin's own state and the outside world;
  \<open>on_snd\<close> lifts a step of the world (a callback) to that pair.
\<close>

definition on_snd :: "('w, 'e, 'a) eff \<Rightarrow> ('p \<times> 'w, 'e, 'a) eff" where
  "on_snd m s = (case m (snd s) of (r, w) \<Rightarrow> (r, (fst s, w)))"

text \<open>A step that cannot fail, such as reading the clock.\<close>

definition etotal :: "('s \<Rightarrow> 'a \<times> 's) \<Rightarrow> ('s, 'e, 'a) eff" where
  "etotal m s = (case m s of (x, t) \<Rightarrow> (Inr x, t))"

lemma emap_err_apply: "emap_err f m s = (map_err f (fst (m s)), snd (m s))"
  by (simp add: emap_err_def split: prod.splits)

lemma emap_err_eq [eff_elims]:
  "emap_err f m s = (r, t) \<longleftrightarrow> (\<exists>q. m s = (q, t) \<and> r = map_err f q)"
  by (auto simp: emap_err_def split: prod.splits)

lemma ereturn_apply [simp]: "ereturn x s = (Inr x, s)"
  by (simp add: ereturn_def)

lemma ethrow_apply [simp]: "ethrow e s = (Inl e, s)"
  by (simp add: ethrow_def)

lemma elift_apply [simp]: "elift m s = (m, s)"
  by (simp add: elift_def)

lemma emodify_apply [simp]: "emodify f s = (Inr (), f s)"
  by (simp add: emodify_def)

lemma easks_apply [simp]: "easks f s = (Inr (f s), s)"
  by (simp add: easks_def)

lemma etotal_apply: "etotal m s = (Inr (fst (m s)), snd (m s))"
  by (simp add: etotal_def split: prod.splits)

lemma on_snd_apply: "on_snd m (p, w) = (fst (m w), (p, snd (m w)))"
  by (simp add: on_snd_def split: prod.splits)

lemma ebind_Inr: "m s = (Inr x, t) \<Longrightarrow> ebind m f s = f x t"
  by (simp add: ebind_def)

lemma ebind_Inl: "m s = (Inl e, t) \<Longrightarrow> ebind m f s = (Inl e, t)"
  by (simp add: ebind_def)

lemma ebind_eq_Inr [eff_elims]:
  "ebind m f s = (Inr y, u) \<longleftrightarrow> (\<exists>x t. m s = (Inr x, t) \<and> f x t = (Inr y, u))"
  by (auto simp: ebind_def split: prod.splits sum.splits)

lemma ebind_eq_Inl [eff_elims]:
  "ebind m f s = (Inl e, u) \<longleftrightarrow>
     m s = (Inl e, u) \<or> (\<exists>x t. m s = (Inr x, t) \<and> f x t = (Inl e, u))"
  by (auto simp: ebind_def split: prod.splits sum.splits)

lemma ebind_apply:
  "ebind m f s = (case fst (m s) of Inl e \<Rightarrow> (Inl e, snd (m s)) | Inr x \<Rightarrow> f x (snd (m s)))"
  by (simp add: ebind_def split: prod.splits sum.splits)

lemma ebind_steps [simp]:
  "ebind (ereturn x) f = f x"
  "ebind (ethrow e) f = ethrow e"
  "ebind (elift (Inr x)) f = f x"
  "ebind (elift (Inl e)) f = ethrow e"
  "ebind (emodify g) f s = f () (g s)"
  "ebind (easks h) f s = f (h s) s"
  by (auto simp: ebind_def fun_eq_iff)

lemma ebind_steps_applied [simp]:
  "ebind (ereturn x) f s = f x s"
  "ebind (ethrow e) g s = (Inl e, s)"
  "ebind (elift (Inr x)) f s = f x s"
  "ebind (elift (Inl e)) g s = (Inl e, s)"
  by (simp_all add: ebind_def)

lemma on_snd_eq [eff_elims]:
  "on_snd m s = (r, t) \<longleftrightarrow> m (snd s) = (r, snd t) \<and> fst t = fst s"
  by (cases t) (auto simp: on_snd_def split: prod.splits)

lemma etotal_eq [eff_elims]:
  "etotal m s = (r, t) \<longleftrightarrow> (\<exists>x. m s = (x, t) \<and> r = Inr x)"
  by (auto simp: etotal_def split: prod.splits)

lemma ecatch_eq_Inr [eff_elims]:
  "ecatch m h s = (Inr y, u) \<longleftrightarrow>
     m s = (Inr y, u) \<or> (\<exists>e t. m s = (Inl e, t) \<and> h e t = (Inr y, u))"
  by (auto simp: ecatch_def split: prod.splits sum.splits)

lemma ecatch_eq_Inl [eff_elims]:
  "ecatch m h s = (Inl f, u) \<longleftrightarrow> (\<exists>e t. m s = (Inl e, t) \<and> h e t = (Inl f, u))"
  by (auto simp: ecatch_def split: prod.splits sum.splits)

subsection \<open>What a computation does to its state\<close>

text \<open>
  \<open>moves R m\<close>: however \<open>m\<close> ends, it leads from a state to one \<open>R\<close> relates it to. For a preorder \<open>R\<close>, such
  as \<open>keeps an invariant\<close> or \<open>leaves this part alone\<close>, the composite of such steps is such a step.
\<close>

definition moves :: "('s \<Rightarrow> 's \<Rightarrow> bool) \<Rightarrow> ('s, 'e, 'a) eff \<Rightarrow> bool" where
  "moves R m \<longleftrightarrow> (\<forall>s. R s (snd (m s)))"

lemma movesI: "(\<And>s r t. m s = (r, t) \<Longrightarrow> R s t) \<Longrightarrow> moves R m"
  unfolding moves_def by (metis prod.collapse)

lemma movesD: "moves R m \<Longrightarrow> m s = (r, t) \<Longrightarrow> R s t"
  by (auto simp: moves_def dest: spec [of _ s])

locale frame =
  fixes R :: "'s \<Rightarrow> 's \<Rightarrow> bool"
  assumes stay: "R s s"
    and trans: "\<lbrakk>R s t; R t u\<rbrakk> \<Longrightarrow> R s u"
begin

lemma moves_still: "moves R (ereturn x)" "moves R (ethrow e)" "moves R (elift r)"
  by (simp_all add: moves_def stay)

lemma moves_ebind: "\<lbrakk>moves R m; \<And>x. moves R (f x)\<rbrakk> \<Longrightarrow> moves R (ebind m f)"
  by (auto simp: moves_def ebind_apply split: sum.split intro: trans)

lemma moves_emap: "moves R m \<Longrightarrow> moves R (emap f m)"
  unfolding emap_def by (rule moves_ebind) (simp_all add: moves_still)

lemma moves_emap_err: "moves R m \<Longrightarrow> moves R (emap_err f m)"
  by (simp add: moves_def emap_err_apply)

text \<open>A step that is only taken where \<open>Q\<close> holds, which the step before it established.\<close>

lemma moves_ebind_after:
  assumes "moves R m" and "\<And>s x t. m s = (Inr x, t) \<Longrightarrow> Q x t" and "\<And>x t. Q x t \<Longrightarrow> R t (snd (f x t))"
  shows "moves R (ebind m f)"
proof (rule movesI)
  fix s r u assume run: "ebind m f s = (r, u)"
  obtain q t where m: "m s = (q, t)" by fastforce
  have st: "R s t" using assms(1) m by (rule movesD)
  show "R s u"
  proof (cases q)
    case (Inl e)
    then show ?thesis using run m st by (simp add: ebind_Inl)
  next
    case (Inr x)
    then have "f x t = (r, u)" "Q x t" using run m assms(2) by (simp_all add: ebind_Inr)
    then show ?thesis using assms(3) [of x t] st trans by (metis snd_conv)
  qed
qed

end

subsection \<open>Hash maps\<close>

type_synonym ('k, 'v) hashmap = "('k \<times> 'v) list"

definition hm_get :: "('k, 'v) hashmap \<Rightarrow> 'k \<Rightarrow> 'v option" where
  "hm_get m k = map_of m k"

definition hm_insert :: "'k \<Rightarrow> 'v \<Rightarrow> ('k, 'v) hashmap \<Rightarrow> ('k, 'v) hashmap" where
  "hm_insert k v m = AList.update k v m"

definition hm_remove :: "'k \<Rightarrow> ('k, 'v) hashmap \<Rightarrow> ('k, 'v) hashmap" where
  "hm_remove k m = AList.delete k m"

definition hm_keys :: "('k, 'v) hashmap \<Rightarrow> 'k list" where
  "hm_keys m = map fst m"

definition hm_values :: "('k, 'v) hashmap \<Rightarrow> 'v list" where
  "hm_values m = map snd m"

definition hm_contains :: "('k, 'v) hashmap \<Rightarrow> 'k \<Rightarrow> bool" where
  "hm_contains m k = (hm_get m k \<noteq> None)"

text \<open>\<open>entry(k).or_insert(v)\<close>: the first value filed under a key stays.\<close>

definition hm_or_insert :: "'k \<Rightarrow> 'v \<Rightarrow> ('k, 'v) hashmap \<Rightarrow> ('k, 'v) hashmap" where
  "hm_or_insert k v m = (if hm_contains m k then m else hm_insert k v m)"

definition hm_wf :: "('k, 'v) hashmap \<Rightarrow> bool" where
  "hm_wf m = distinct (map fst m)"

lemma hm_get_empty [simp, hm_simps]: "hm_get [] k = None"
  by (simp add: hm_get_def)

lemma hm_get_insert [simp, hm_simps]:
  "hm_get (hm_insert k v m) j = (if j = k then Some v else hm_get m j)"
  by (simp add: hm_get_def hm_insert_def update_conv)

lemma hm_get_remove [simp, hm_simps]:
  "hm_get (hm_remove k m) j = (if j = k then None else hm_get m j)"
  by (simp add: hm_get_def hm_remove_def delete_conv)

lemma hm_get_or_insert [hm_simps]:
  "hm_get (hm_or_insert k v m) j =
     (if j = k \<and> hm_get m k = None then Some v else hm_get m j)"
  by (simp add: hm_or_insert_def hm_contains_def)

lemma hm_wf_empty [simp]: "hm_wf []"
  by (simp add: hm_wf_def)

lemma hm_wf_insert [simp, intro]: "hm_wf m \<Longrightarrow> hm_wf (hm_insert k v m)"
  by (simp add: hm_wf_def hm_insert_def distinct_update)

lemma hm_wf_remove [simp, intro]: "hm_wf m \<Longrightarrow> hm_wf (hm_remove k m)"
  by (simp add: hm_wf_def hm_remove_def distinct_delete)

lemma hm_wf_or_insert [simp, intro]: "hm_wf m \<Longrightarrow> hm_wf (hm_or_insert k v m)"
  by (simp add: hm_or_insert_def)

lemma set_hm_keys: "set (hm_keys m) = {k. hm_get m k \<noteq> None}"
  by (auto simp: hm_keys_def hm_get_def map_of_eq_None_iff)

lemma hm_get_in_set: "hm_get m k = Some v \<Longrightarrow> (k, v) \<in> set m"
  by (simp add: hm_get_def map_of_SomeD)

lemma hm_get_values: "hm_get m k = Some v \<Longrightarrow> v \<in> set (hm_values m)"
  by (force simp: hm_values_def dest: hm_get_in_set)

lemma hm_set_get: "hm_wf m \<Longrightarrow> (k, v) \<in> set m \<longleftrightarrow> hm_get m k = Some v"
  by (simp add: hm_wf_def hm_get_def)

text \<open>Removing a whole list of keys, as the teardown loops do.\<close>

definition hm_remove_all :: "'k list \<Rightarrow> ('k, 'v) hashmap \<Rightarrow> ('k, 'v) hashmap" where
  "hm_remove_all ks m = fold hm_remove ks m"

lemma hm_get_remove_all [simp, hm_simps]:
  "hm_get (hm_remove_all ks m) j = (if j \<in> set ks then None else hm_get m j)"
  unfolding hm_remove_all_def by (induction ks arbitrary: m) auto

lemma hm_wf_remove_all [simp, intro]: "hm_wf m \<Longrightarrow> hm_wf (hm_remove_all ks m)"
  unfolding hm_remove_all_def by (induction ks arbitrary: m) auto

text \<open>Building a map by inserting a list of records in order: the last record under a key wins.\<close>

definition hm_of_records :: "('v \<Rightarrow> 'k) \<Rightarrow> 'v list \<Rightarrow> ('k, 'v) hashmap" where
  "hm_of_records key vs = fold (\<lambda>v m. hm_insert (key v) v m) vs []"

definition hm_first_of_records :: "('v \<Rightarrow> 'k) \<Rightarrow> 'v list \<Rightarrow> ('k, 'v) hashmap" where
  "hm_first_of_records key vs = fold (\<lambda>v m. hm_or_insert (key v) v m) vs []"

lemma find_snoc: "find P (xs @ [x]) = (case find P xs of Some y \<Rightarrow> Some y | None \<Rightarrow> if P x then Some x else None)"
  by (induction xs) auto

lemma fold_hm_insert_get:
  "hm_get (fold (\<lambda>v m. hm_insert (key v) v m) vs m0) k =
     (case find (\<lambda>v. key v = k) (rev vs) of Some v \<Rightarrow> Some v | None \<Rightarrow> hm_get m0 k)"
  by (induction vs arbitrary: m0) (auto simp: find_snoc split: option.splits)

lemma hm_of_records_get:
  "hm_get (hm_of_records key vs) k = find (\<lambda>v. key v = k) (rev vs)"
  unfolding hm_of_records_def by (simp add: fold_hm_insert_get split: option.splits)

lemma fold_hm_or_insert_get:
  "hm_get (fold (\<lambda>v m. hm_or_insert (key v) v m) vs m0) k =
     (case hm_get m0 k of Some v \<Rightarrow> Some v | None \<Rightarrow> find (\<lambda>v. key v = k) vs)"
  by (induction vs arbitrary: m0) (auto simp: hm_simps split: option.splits)

lemma hm_first_of_records_get:
  "hm_get (hm_first_of_records key vs) k = find (\<lambda>v. key v = k) vs"
  unfolding hm_first_of_records_def by (simp add: fold_hm_or_insert_get)

lemma hm_wf_of_records [simp, intro]: "hm_wf (hm_of_records key vs)"
proof -
  have "hm_wf m \<Longrightarrow> hm_wf (fold (\<lambda>v m. hm_insert (key v) v m) vs m)" for m
    by (induction vs arbitrary: m) auto
  then show ?thesis by (simp add: hm_of_records_def)
qed

lemma hm_wf_first_of_records [simp, intro]: "hm_wf (hm_first_of_records key vs)"
proof -
  have "hm_wf m \<Longrightarrow> hm_wf (fold (\<lambda>v m. hm_or_insert (key v) v m) vs m)" for m
    by (induction vs arbitrary: m) auto
  then show ?thesis by (simp add: hm_first_of_records_def)
qed

text \<open>Records filed under their own key: the values list and the keys list run in parallel.\<close>

definition hm_filed :: "('v \<Rightarrow> 'k) \<Rightarrow> ('k, 'v) hashmap \<Rightarrow> bool" where
  "hm_filed f m \<longleftrightarrow> hm_wf m \<and> (\<forall>k v. hm_get m k = Some v \<longrightarrow> f v = k)"

lemma hm_filed_empty [simp]: "hm_filed f []"
  by (simp add: hm_filed_def)

lemma hm_filed_insert [simp]: "hm_filed f m \<Longrightarrow> f v = k \<Longrightarrow> hm_filed f (hm_insert k v m)"
  by (auto simp: hm_filed_def)

lemma hm_filed_remove [simp]: "hm_filed f m \<Longrightarrow> hm_filed f (hm_remove k m)"
  by (auto simp: hm_filed_def)

lemma hm_filed_remove_all [simp]: "hm_filed f m \<Longrightarrow> hm_filed f (hm_remove_all ks m)"
  by (auto simp: hm_filed_def)

lemma hm_filed_values: "hm_filed f m \<Longrightarrow> map f (hm_values m) = hm_keys m"
  unfolding hm_filed_def hm_values_def hm_keys_def
  by (auto simp: hm_set_get [symmetric] intro!: map_cong [OF refl, THEN trans])

lemma distinct_hm_keys: "hm_wf m \<Longrightarrow> distinct (hm_keys m)"
  by (simp add: hm_wf_def hm_keys_def)

lemma hm_filed_find:
  assumes "hm_filed f m"
  shows "find (\<lambda>v. f v = k) (rev (hm_values m)) = hm_get m k"
    and "find (\<lambda>v. f v = k) (hm_values m) = hm_get m k"
proof -
  have val: "v \<in> set (hm_values m) \<and> f v = k \<longleftrightarrow> hm_get m k = Some v" for v
    using assms by (auto simp: hm_filed_def hm_values_def hm_set_get [symmetric] image_iff Bex_def)
  have gen: "find (\<lambda>v. f v = k) xs = hm_get m k" if "set xs = set (hm_values m)" for xs
  proof (cases "find (\<lambda>v. f v = k) xs")
    case None
    then have "\<nexists>v. v \<in> set xs \<and> f v = k" by (simp add: find_None_iff)
    then have "hm_get m k = None" using val that by (metis option.exhaust)
    then show ?thesis using None by simp
  next
    case (Some v)
    then have "v \<in> set xs \<and> f v = k" by (auto simp: find_Some_iff)
    then show ?thesis using Some val that by simp
  qed
  show "find (\<lambda>v. f v = k) (rev (hm_values m)) = hm_get m k" by (rule gen) simp
  show "find (\<lambda>v. f v = k) (hm_values m) = hm_get m k" by (rule gen) simp
qed

text \<open>Rebuilding a map from its records gives the same look-ups, whichever record wins.\<close>

lemma hm_rebuild:
  assumes "hm_filed f m"
  shows "hm_get (hm_of_records f (hm_values m)) k = hm_get m k"
    and "hm_get (hm_first_of_records f (hm_values m)) k = hm_get m k"
  by (simp_all add: hm_of_records_get hm_first_of_records_get hm_filed_find [OF assms])

lemma hm_filed_of_records: "hm_filed f (hm_of_records f vs)" "hm_filed f (hm_first_of_records f vs)"
  by (auto simp: hm_filed_def hm_of_records_get hm_first_of_records_get find_Some_iff)


subsection \<open>Lists\<close>

text \<open>\<open>slice\<close> with both bounds checked: \<open>None\<close> is where Rust's indexing panics.\<close>

definition slice_from :: "nat \<Rightarrow> 'a list \<Rightarrow> 'a list option" where
  "slice_from i xs = (if i \<le> length xs then Some (drop i xs) else None)"

definition slice_range :: "nat \<Rightarrow> nat \<Rightarrow> 'a list \<Rightarrow> 'a list option" where
  "slice_range i j xs = (if i \<le> j \<and> j \<le> length xs then Some (take (j - i) (drop i xs)) else None)"

definition list_at :: "nat \<Rightarrow> 'a list \<Rightarrow> 'a option" where
  "list_at i xs = (if i < length xs then Some (xs ! i) else None)"

definition list_head :: "'a list \<Rightarrow> 'a option" where
  "list_head xs = (case xs of [] \<Rightarrow> None | x # _ \<Rightarrow> Some x)"

definition list_last :: "'a list \<Rightarrow> 'a option" where
  "list_last xs = (if xs = [] then None else Some (last xs))"

fun find_map :: "('a \<Rightarrow> 'b option) \<Rightarrow> 'a list \<Rightarrow> 'b option" where
  "find_map f [] = None"
| "find_map f (x # xs) = (case f x of None \<Rightarrow> find_map f xs | Some y \<Rightarrow> Some y)"

fun filter_map :: "('a \<Rightarrow> 'b option) \<Rightarrow> 'a list \<Rightarrow> 'b list" where
  "filter_map f [] = []"
| "filter_map f (x # xs) =
     (case f x of None \<Rightarrow> filter_map f xs | Some y \<Rightarrow> y # filter_map f xs)"

text \<open>\<open>iter().map(f).collect::<Option<Vec<_>>>()\<close>: stops at the first \<open>None\<close>.\<close>

fun map_all :: "('a \<Rightarrow> 'b option) \<Rightarrow> 'a list \<Rightarrow> 'b list option" where
  "map_all f [] = Some []"
| "map_all f (x # xs) =
     (case f x of None \<Rightarrow> None | Some y \<Rightarrow>
        (case map_all f xs of None \<Rightarrow> None | Some ys \<Rightarrow> Some (y # ys)))"

lemma slice_from_append [simp]: "slice_from (length xs) (xs @ ys) = Some ys"
  by (simp add: slice_from_def)

lemma list_at_append_left: "i < length xs \<Longrightarrow> list_at i (xs @ ys) = Some (xs ! i)"
  by (simp add: list_at_def nth_append)

lemma filter_map_map_Some: "(\<And>x. x \<in> set xs \<Longrightarrow> f (g x) = Some x) \<Longrightarrow> filter_map f (map g xs) = xs"
  by (induction xs) auto

lemma find_map_append: "find_map f (xs @ ys) = or_else (find_map f xs) (find_map f ys)"
  by (induction xs) (auto simp: or_else_def split: option.splits)

lemma length_map_all: "map_all f xs = Some ys \<Longrightarrow> length ys = length xs"
  by (induction xs arbitrary: ys) (auto split: option.splits)

subsection \<open>Numbers and bytes in messages\<close>

definition digit_char :: "nat \<Rightarrow> char" where
  "digit_char d = char_of (48 + d)"

fun show_nat :: "nat \<Rightarrow> string" where
  "show_nat n = (if n < 10 then [digit_char n] else show_nat (n div 10) @ [digit_char (n mod 10)])"

declare show_nat.simps [simp del]

definition show_int :: "int \<Rightarrow> string" where
  "show_int i = (if i < 0 then ''-'' @ show_nat (nat (- i)) else show_nat (nat i))"

definition hex_digit :: "nat \<Rightarrow> char" where
  "hex_digit d = (if d < 10 then char_of (48 + d) else char_of (87 + d))"

text \<open>\<open>{b:02x}\<close> of a byte.\<close>

definition hex2 :: "byte \<Rightarrow> string" where
  "hex2 b = [hex_digit (unat b div 16), hex_digit (unat b mod 16)]"

text \<open>\<open>{:?}\<close> of an \<open>Option<i64>\<close>.\<close>

definition debug_opt_int :: "int option \<Rightarrow> string" where
  "debug_opt_int x = (case x of None \<Rightarrow> ''None'' | Some i \<Rightarrow> ''Some('' @ show_int i @ '')'')"

text \<open>
  A Rust \<open>String\<close> is its UTF-8 bytes; an Isabelle \<open>string\<close> is a list of 8-bit characters, so
  \<open>as_bytes\<close> is the character-by-character conversion and has an inverse.
\<close>

definition as_bytes :: "string \<Rightarrow> bytes" where
  "as_bytes s = map (\<lambda>c. of_nat (of_char c)) s"

definition of_bytes :: "bytes \<Rightarrow> string" where
  "of_bytes bs = map (\<lambda>b. char_of (unat b)) bs"

lemma of_bytes_as_bytes [simp]: "of_bytes (as_bytes s) = s"
proof -
  have "char_of (unat (of_nat (of_char c) :: byte)) = c" for c :: char
  proof -
    have "(of_char c :: nat) < 256" using nat_of_char_less_256 by blast
    then show ?thesis by (simp add: unat_of_nat)
  qed
  then show ?thesis by (simp add: of_bytes_def as_bytes_def o_def)
qed

lemma as_bytes_of_bytes [simp]: "as_bytes (of_bytes bs) = bs"
proof -
  have "(of_nat (of_char (char_of (unat b) :: char)) :: byte) = b" for b :: byte
  proof -
    have "unat b < 256" using unsigned_less [of b] by simp
    then have "(of_char (char_of (unat b) :: char) :: nat) = unat b" by simp
    then show ?thesis by simp
  qed
  then show ?thesis by (simp add: of_bytes_def as_bytes_def o_def)
qed

lemma length_as_bytes [simp]: "length (as_bytes s) = length s"
  by (simp add: as_bytes_def)

lemma as_bytes_inject [simp]: "as_bytes s = as_bytes t \<longleftrightarrow> s = t"
  by (metis of_bytes_as_bytes)

subsection \<open>Big-endian numbers\<close>

fun be :: "nat \<Rightarrow> nat \<Rightarrow> bytes" where
  "be 0 n = []"
| "be (Suc k) n = be k (n div 256) @ [byte_of (n mod 256)]"

definition unbe :: "bytes \<Rightarrow> nat" where
  "unbe bs = fold (\<lambda>b a. a * 256 + unat b) bs 0"

lemma length_be [simp]: "length (be k n) = k"
  by (induction k arbitrary: n) simp_all

lemma unbe_be: "n < 256 ^ k \<Longrightarrow> unbe (be k n) = n"
proof (induction k arbitrary: n)
  case 0
  then show ?case by (simp add: unbe_def)
next
  case (Suc k)
  have "n div 256 < 256 ^ k" using Suc.prems by (simp add: less_mult_imp_div_less)
  then show ?case using Suc.IH [of "n div 256"] by (simp add: unbe_def)
qed

lemma be_inject: "n < 256 ^ k \<Longrightarrow> m < 256 ^ k \<Longrightarrow> be k n = be k m \<Longrightarrow> n = m"
  by (metis unbe_be)

lemma map_all_elems: "map_all f xs = Some ys \<Longrightarrow> y \<in> set ys \<Longrightarrow> \<exists>x \<in> set xs. f x = Some y"
  by (induction xs arbitrary: ys) (auto split: option.splits)

lemma unbe_snoc: "unbe (xs @ [b]) = unbe xs * 256 + unat b"
  by (simp add: unbe_def)

lemma unbe_append: "unbe (xs @ ys) = unbe xs * 256 ^ length ys + unbe ys"
proof (induction ys rule: rev_induct)
  case (snoc b ys)
  have "unbe ((xs @ ys) @ [b]) = unbe (xs @ ys) * 256 + unat b" by (rule unbe_snoc)
  then show ?case using snoc by (simp add: unbe_snoc algebra_simps)
qed (simp add: unbe_def)

lemma unbe_less: "unbe bs < 256 ^ length bs"
proof (induction bs rule: rev_induct)
  case (snoc b bs)
  have "unat b < 256" by (rule unat_byte_less)
  then show ?case using snoc by (simp add: unbe_snoc)
qed (simp add: unbe_def)

lemma unbe_be_mod: "unbe (be k n) = n mod 256 ^ k"
proof (induction k arbitrary: n)
  case (Suc k)
  have "n mod 256 ^ Suc k = 256 * (n div 256 mod 256 ^ k) + n mod 256"
    by (simp add: mod_mult2_eq)
  then show ?case using Suc by (simp add: unbe_snoc)
qed (simp add: unbe_def)

end
