(* ===== verification/Wscd_Types.thy ===== *)
theory Wscd_Types
  imports Wscd_Prelude
begin

section \<open>Domain types: src/types.rs, src/error.rs, src/config.rs\<close>

text \<open>
  The data the manager and the plugins exchange, with the source's constructors, and the
  \<open>Display\<close> texts of the errors (they are composed into other errors' messages, so they are
  part of the behaviour). \<open>KeyId\<close> is a newtype of \<open>String\<close> and is a type synonym here; \<open>i64\<close>
  time stamps are \<open>int\<close>, because the code only stores and compares them. \<open>RustPanic\<close> is the one
  error the source does not have: it marks the places where the Rust code would panic (an index
  out of range, a failed \<open>expect\<close>), so that absence of panics can be stated and proved.
\<close>

type_synonym key_id = string

datatype json =
    JNull
  | JBool bool
  | JNumber int
  | JString string
  | JArray "json list"
  | JObject "(string \<times> json) list"

text \<open>\<open>serde_json::Value::get(name)\<close> on an object, and \<open>as_str\<close>.\<close>

definition json_get :: "json \<Rightarrow> string \<Rightarrow> json option" where
  "json_get j name = (case j of JObject ms \<Rightarrow> map_of ms name | _ \<Rightarrow> None)"

definition json_as_str :: "json \<Rightarrow> string option" where
  "json_as_str j = (case j of JString s \<Rightarrow> Some s | _ \<Rightarrow> None)"

subsection \<open>Errors\<close>

datatype pin_failure =
    TooShort nat
  | TooLong
  | InvalidEncoding
  | PolicyViolation
  | PinInvalid
  | PinBlocked
  | AuthBlocked
  | NotSet

datatype wscd_error =
    NoPlugin string
  | NoDefault string
  | Unsupported string string
  | KeyNotFound string
  | AuthRequired
  | AuthCancelled
  | ReEnrollmentRequiredError string
  | Plugin string
  | Callback string
  | Serialization string
  | Crypto string
  | Pin pin_failure
  | StrongBoxUnavailable
  | UnconfirmedCleanup string string
  | RustPanic string

type_synonym 'a wres = "wscd_error + 'a"
type_synonym ('s, 'a) weff = "('s, wscd_error, 'a) eff"

fun show_pin_failure :: "pin_failure \<Rightarrow> string" where
  "show_pin_failure (TooShort m) =
     ''PIN is shorter than the authenticator's minimum of '' @ show_nat m @ '' characters''"
| "show_pin_failure TooLong = ''PIN is longer than 63 bytes''"
| "show_pin_failure InvalidEncoding = ''PIN is not valid UTF-8''"
| "show_pin_failure PolicyViolation = ''PIN violates the authenticator's PIN policy''"
| "show_pin_failure PinInvalid = ''PIN is incorrect''"
| "show_pin_failure PinBlocked = ''PIN is blocked''"
| "show_pin_failure AuthBlocked =
     ''PIN entry is temporarily blocked; reconnect the authenticator''"
| "show_pin_failure NotSet = ''the authenticator has no PIN set''"

fun show_error :: "wscd_error \<Rightarrow> string" where
  "show_error (NoPlugin kid) = ''no plugin found for key '' @ kid"
| "show_error (NoDefault op) = ''no default plugin configured for operation '' @ op"
| "show_error (Unsupported plugin op) =
     ''plugin '' @ plugin @ '' does not support operation '' @ op"
| "show_error (KeyNotFound kid) = ''key '' @ kid @ '' not found''"
| "show_error AuthRequired = ''authentication required''"
| "show_error AuthCancelled = ''authentication cancelled by user''"
| "show_error (ReEnrollmentRequiredError kid) = ''key migration requires re-enrollment''"
| "show_error (Plugin s) = ''plugin error: '' @ s"
| "show_error (Callback s) = ''callback error: '' @ s"
| "show_error (Serialization s) = ''serialization error: '' @ s"
| "show_error (Crypto s) = ''crypto error: '' @ s"
| "show_error (Pin f) = ''PIN error: '' @ show_pin_failure f"
| "show_error StrongBoxUnavailable = ''StrongBox is unavailable on this device''"
| "show_error (UnconfirmedCleanup plugin reason) = plugin @ '': '' @ reason"
| "show_error (RustPanic s) = s"

definition is_panic :: "wscd_error \<Rightarrow> bool" where
  "is_panic e = (case e of RustPanic _ \<Rightarrow> True | _ \<Rightarrow> False)"

lemma is_panic_simps [simp]:
  "\<not> is_panic (NoPlugin a)" "\<not> is_panic (NoDefault a)" "\<not> is_panic (Unsupported a b)"
  "\<not> is_panic (KeyNotFound a)" "\<not> is_panic AuthRequired" "\<not> is_panic AuthCancelled"
  "\<not> is_panic (ReEnrollmentRequiredError a)" "\<not> is_panic (Plugin a)" "\<not> is_panic (Callback a)"
  "\<not> is_panic (Serialization a)" "\<not> is_panic (Crypto a)" "\<not> is_panic (Pin f)"
  "\<not> is_panic StrongBoxUnavailable" "\<not> is_panic (UnconfirmedCleanup a b)"
  "is_panic (RustPanic a)"
  by (simp_all add: is_panic_def)

text \<open>A result that is not a panic.\<close>

definition no_panic :: "'a wres \<Rightarrow> bool" where
  "no_panic r = (case r of Inl e \<Rightarrow> \<not> is_panic e | Inr _ \<Rightarrow> True)"

lemma no_panic_simps [simp]:
  "no_panic (Inr x)"
  "no_panic (Inl e) = (\<not> is_panic e)"
  by (simp_all add: no_panic_def)

lemma no_panic_rbind [intro]:
  "no_panic m \<Longrightarrow> (\<And>x. m = Inr x \<Longrightarrow> no_panic (f x)) \<Longrightarrow> no_panic (rbind m f)"
  by (cases m) auto

lemma no_panic_ok_or [intro, simp]: "\<not> is_panic e \<Longrightarrow> no_panic (ok_or e m)"
  by (cases m) auto

lemma no_panic_map_err [intro, simp]: "(\<And>x. \<not> is_panic (f x)) \<Longrightarrow> no_panic (map_err f m)"
  by (cases m) auto

text \<open>The same for a computation: whatever state it starts in, it does not end in a panic.\<close>

definition never_panics :: "('s, 'a) weff \<Rightarrow> bool" where
  "never_panics m \<longleftrightarrow> (\<forall>s. no_panic (fst (m s)))"

lemma never_panicsD: "never_panics m \<Longrightarrow> m s = (Inl e, t) \<Longrightarrow> \<not> is_panic e"
  unfolding never_panics_def by (metis fst_conv no_panic_simps(2))

lemma never_panicsI: "(\<And>s e t. m s = (Inl e, t) \<Longrightarrow> \<not> is_panic e) \<Longrightarrow> never_panics m"
  by (auto simp: never_panics_def no_panic_def split: sum.splits) (metis prod.collapse)

lemma never_panics_ebind [intro]:
  "never_panics m \<Longrightarrow> (\<And>x. never_panics (f x)) \<Longrightarrow> never_panics (ebind m f)"
  by (rule never_panicsI) (auto simp: ebind_eq_Inl dest: never_panicsD)

text \<open>The continuation only has to be safe on values the first step can return.\<close>

lemma never_panics_ebind_strong:
  "never_panics m \<Longrightarrow> (\<And>x s t. m s = (Inr x, t) \<Longrightarrow> never_panics (f x)) \<Longrightarrow> never_panics (ebind m f)"
proof (rule never_panicsI)
  fix s e t
  assume m: "never_panics m" and f: "\<And>x s t. m s = (Inr x, t) \<Longrightarrow> never_panics (f x)"
    and "ebind m f s = (Inl e, t)"
  then consider "m s = (Inl e, t)" | x u where "m s = (Inr x, u)" "f x u = (Inl e, t)"
    by (auto simp: ebind_eq_Inl)
  then show "\<not> is_panic e"
  proof cases
    case 1
    then show ?thesis by (rule never_panicsD [OF m])
  next
    case 2
    then show ?thesis using never_panicsD [OF f] by blast
  qed
qed

lemma never_panics_basic [intro, simp]:
  "never_panics (ereturn x)"
  "never_panics (emodify g)"
  "never_panics (easks h)"
  "never_panics (etotal u)"
  "never_panics (elift r) = no_panic r"
  "never_panics (ethrow e) = (\<not> is_panic e)"
  by (auto simp: never_panics_def etotal_apply)

lemma never_panics_ecatch [intro]:
  "(\<And>e. \<not> is_panic e \<Longrightarrow> never_panics (h e)) \<Longrightarrow> never_panics m \<Longrightarrow> never_panics (ecatch m h)"
  by (rule never_panicsI) (auto simp: ecatch_eq_Inl dest: never_panicsD)

lemma never_panics_on_snd [intro, simp]: "never_panics m \<Longrightarrow> never_panics (on_snd m)"
  by (auto simp: never_panics_def on_snd_def split: prod.splits) (metis fst_conv)

subsection \<open>Algorithms and keys\<close>

datatype algorithm = ES256 | EdDSA | Bls12381G1Schnorr

fun algorithm_as_str :: "algorithm \<Rightarrow> string" where
  "algorithm_as_str ES256 = ''ES256''"
| "algorithm_as_str EdDSA = ''EdDSA''"
| "algorithm_as_str Bls12381G1Schnorr = ''EcsdsaBls12381Bp1Sha256Sec1''"

definition signs_prehashed_input :: "algorithm \<Rightarrow> bool" where
  "signs_prehashed_input a = (case a of Bls12381G1Schnorr \<Rightarrow> True | _ \<Rightarrow> False)"

record key_info =
  ki_kid :: key_id
  ki_algorithm :: algorithm
  ki_plugin_id :: string
  ki_created_at :: int

record generated_key =
  gk_kid :: key_id
  gk_public_key_jwk :: json

datatype attestation_format = X509Chain | Opaque

record attestation_chain =
  ac_format :: attestation_format
  ac_certificates :: "bytes list"
  ac_client_data_hash :: bytes
  ac_opaque_attestation :: bytes

datatype auth_method = AuthNone | AuthOpaque | AuthWebAuthn

datatype operation_progress =
    Started string
  | NetworkRoundTrip nat nat
  | WaitingForUser
  | Complete

datatype migration_result = Migrated key_id | ReEnrollmentRequired key_id

subsection \<open>Lifecycle\<close>

datatype factor_kind = FkOpaque | FkWebAuthn | FkRawSign

datatype lifecycle_state = Uninitialized | Registered | Active | Suspended | Destroyed

datatype destroy_mode = LocalOnly | RemoteRevokeIfSupported | Strict

record lifecycle_status =
  ls_context_id :: string
  ls_plugin_id :: string
  ls_factor_kind :: factor_kind
  ls_state :: lifecycle_state
  ls_updated_at :: int

record register_request =
  rr_plugin_id :: string
  rr_context_id :: string
  rr_factor_kind :: factor_kind

text \<open>\<open>ActivateLifecycleRequest\<close> and \<open>RotateLifecycleRequest\<close> have the same two fields.\<close>

record context_request =
  cr_plugin_id :: string
  cr_context_id :: string

record destroy_request =
  dr_plugin_id :: string
  dr_context_id :: string
  dr_mode :: destroy_mode
  dr_reason :: "string option"

text \<open>\<open>RegistrationOutcome\<close>, \<open>ActivationOutcome\<close> and \<open>RotationOutcome\<close> have the same two fields.\<close>

record lifecycle_outcome =
  lo_context_id :: string
  lo_state :: lifecycle_state

record destruction_outcome =
  do_context_id :: string
  do_state :: lifecycle_state
  do_remote_performed :: bool

text \<open>The \<open>{:?}\<close> texts of the two enums that appear in messages.\<close>

fun debug_factor_kind :: "factor_kind \<Rightarrow> string" where
  "debug_factor_kind FkOpaque = ''Opaque''"
| "debug_factor_kind FkWebAuthn = ''WebAuthn''"
| "debug_factor_kind FkRawSign = ''RawSign''"

subsection \<open>Security properties\<close>

datatype key_storage_type = Software | Hardware | RemoteHsm | TrustedExecution

fun key_storage_as_str :: "key_storage_type \<Rightarrow> string" where
  "key_storage_as_str Software = ''software''"
| "key_storage_as_str Hardware = ''hardware''"
| "key_storage_as_str RemoteHsm = ''remote_hsm''"
| "key_storage_as_str TrustedExecution = ''trusted_execution''"

datatype certification_level =
    Unattested
  | AttestedSharedEnvironment
  | AttestedDedicatedHardware

fun certification_as_str :: "certification_level \<Rightarrow> string" where
  "certification_as_str Unattested = ''unattested''"
| "certification_as_str AttestedSharedEnvironment = ''attested_shared_environment''"
| "certification_as_str AttestedDedicatedHardware = ''attested_dedicated_hardware''"

fun debug_certification :: "certification_level \<Rightarrow> string" where
  "debug_certification Unattested = ''Unattested''"
| "debug_certification AttestedSharedEnvironment = ''AttestedSharedEnvironment''"
| "debug_certification AttestedDedicatedHardware = ''AttestedDedicatedHardware''"

datatype android_level = LvStrongBox | LvTrustedExecution | LvSoftware | LvUnknown

fun as_key_storage_type :: "android_level \<Rightarrow> key_storage_type" where
  "as_key_storage_type LvStrongBox = Hardware"
| "as_key_storage_type LvTrustedExecution = TrustedExecution"
| "as_key_storage_type LvSoftware = Software"
| "as_key_storage_type LvUnknown = Software"

fun as_certification_level :: "android_level \<Rightarrow> certification_level" where
  "as_certification_level LvStrongBox = AttestedDedicatedHardware"
| "as_certification_level LvTrustedExecution = AttestedSharedEnvironment"
| "as_certification_level LvSoftware = Unattested"
| "as_certification_level LvUnknown = Unattested"

record security_properties =
  sp_key_storage :: key_storage_type
  sp_user_authentication :: "string list"
  sp_certification :: certification_level
  sp_amr :: "string list"

text \<open>The ordinal the manager compares levels by (src/manager.rs).\<close>

fun certification_rank :: "certification_level \<Rightarrow> nat" where
  "certification_rank Unattested = 0"
| "certification_rank AttestedSharedEnvironment = 1"
| "certification_rank AttestedDedicatedHardware = 2"

instantiation certification_level :: linorder
begin

definition less_eq_certification_level :: "certification_level \<Rightarrow> certification_level \<Rightarrow> bool" where
  "less_eq_certification_level a b \<longleftrightarrow> certification_rank a \<le> certification_rank b"

definition less_certification_level :: "certification_level \<Rightarrow> certification_level \<Rightarrow> bool" where
  "less_certification_level a b \<longleftrightarrow> certification_rank a < certification_rank b"

instance
proof
  fix a b c :: certification_level
  show "a < b \<longleftrightarrow> a \<le> b \<and> \<not> b \<le> a"
    by (auto simp: less_eq_certification_level_def less_certification_level_def)
  show "a \<le> a" by (simp add: less_eq_certification_level_def)
  show "a \<le> b \<Longrightarrow> b \<le> c \<Longrightarrow> a \<le> c" by (simp add: less_eq_certification_level_def)
  show "a \<le> b \<Longrightarrow> b \<le> a \<Longrightarrow> a = b"
    by (cases a; cases b) (simp_all add: less_eq_certification_level_def)
  show "a \<le> b \<or> b \<le> a" by (auto simp: less_eq_certification_level_def)
qed

end

subsection \<open>Configuration\<close>

record wscd_config =
  cfg_default_plugin :: string
  cfg_operation_defaults :: "(string, string) hashmap"
  cfg_key_bindings :: "(key_id, string) hashmap"
  cfg_plugins :: "(string, json) hashmap"

definition default_config :: wscd_config where
  "default_config = \<lparr>cfg_default_plugin = ''softkey'', cfg_operation_defaults = [],
     cfg_key_bindings = [], cfg_plugins = []\<rparr>"

record r2ps_config =
  rc_server_url :: string
  rc_client_id :: string
  rc_context :: string
  rc_auth_mode :: string
  rc_rp_id :: string
  rc_allowed_credential_ids :: "string list"

definition default_auth_mode :: string where
  "default_auth_mode = ''opaque''"

end
