(* ===== verification/Externals.thy ===== *)
theory Externals
  imports Wscd_Types
begin

section \<open>The world outside the crate: third-party packages and host callbacks\<close>

text \<open>
  Code the repository calls but does not contain is a parameter of the model.

  \<^item> \<open>externals\<close>: the pure functions of the third-party packages (ciborium, sha2, hmac, hkdf,
    cbc/aes, unicode-normalization, base64ct, serde\_json, p256, ed25519-dalek). A fallible
    function returns the text of its error on the left.
  \<^item> \<open>auth_callback\<close>, \<open>ctap2_transport\<close>, \<open>android_callback\<close>, \<open>secure_enclave_callback\<close>: the
    traits of src/callbacks.rs the host application implements. A callback is an effect on the
    outside world \<open>'w\<close>, about which nothing is assumed.
  \<^item> \<open>env\<close>: progress reporting, the clock and the random sources.

  \<open>cbor\<close> is \<open>ciborium::Value\<close>. Its decoder consumes one item and returns the unread rest, as
  \<open>from_reader\<close> on a \<open>&mut &[u8]\<close> cursor does; on a plain slice the rest is dropped.
\<close>

datatype cbor =
    CInteger int
  | CBytes bytes
  | CFloat "64 word"
  | CText string
  | CBool bool
  | CNull
  | CTag nat cbor
  | CArray "cbor list"
  | CMap "(cbor \<times> cbor) list"

record p256_point =
  pt_x :: bytes
  pt_y :: bytes

record externals =
  cbor_enc :: "cbor \<Rightarrow> bytes"
  cbor_dec :: "bytes \<Rightarrow> string + cbor \<times> bytes"
  sha256 :: "bytes \<Rightarrow> bytes"
  hmac_sha256 :: "bytes \<Rightarrow> bytes \<Rightarrow> bytes"
  hkdf_sha256 :: "bytes \<Rightarrow> bytes \<Rightarrow> bytes \<Rightarrow> nat \<Rightarrow> string + bytes"
  aes256_cbc_enc :: "bytes \<Rightarrow> bytes \<Rightarrow> bytes \<Rightarrow> string + bytes"
  aes256_cbc_dec :: "bytes \<Rightarrow> bytes \<Rightarrow> bytes \<Rightarrow> string + bytes"
  nfc :: "nat list \<Rightarrow> nat list"
  b64url_enc :: "bytes \<Rightarrow> string"
  b64url_dec :: "string \<Rightarrow> string + bytes"
  json_string :: "string \<Rightarrow> string"
  p256_public :: "bytes \<Rightarrow> p256_point"
  p256_secret_from_slice :: "bytes \<Rightarrow> string + bytes"
  p256_from_sec1 :: "bytes \<Rightarrow> string + p256_point"
  p256_ecdh :: "bytes \<Rightarrow> p256_point \<Rightarrow> bytes"
  p256_base_mul :: "nat \<Rightarrow> p256_point"
  p256_add_base :: "p256_point \<Rightarrow> nat \<Rightarrow> p256_point option"
  p256_ecdsa_sign :: "bytes \<Rightarrow> bytes \<Rightarrow> bytes"
  p256_sig_from_der :: "bytes \<Rightarrow> string + bytes"
  ed25519_public :: "bytes \<Rightarrow> bytes"
  ed25519_sign :: "bytes \<Rightarrow> bytes \<Rightarrow> bytes"

text \<open>
  Documented behaviour of the CBOR codec: decoding what the encoder wrote, whatever follows it,
  gives the value and what follows; and the unread rest is a suffix of the input. The first is
  stated for a value, since ciborium refuses nesting beyond its recursion limit.
\<close>

definition cbor_roundtrips :: "externals \<Rightarrow> cbor \<Rightarrow> bool" where
  "cbor_roundtrips X v \<longleftrightarrow> (\<forall>rest. cbor_dec X (cbor_enc X v @ rest) = Inr (v, rest))"

definition cbor_dec_suffix :: "externals \<Rightarrow> bool" where
  "cbor_dec_suffix X \<longleftrightarrow>
     (\<forall>bs v rest. cbor_dec X bs = Inr (v, rest) \<longrightarrow> length rest \<le> length bs)"

lemma cbor_roundtripsD: "cbor_roundtrips X v \<Longrightarrow> cbor_dec X (cbor_enc X v @ rest) = Inr (v, rest)"
  by (simp add: cbor_roundtrips_def)

lemma cbor_roundtripsD': "cbor_roundtrips X v \<Longrightarrow> cbor_dec X (cbor_enc X v) = Inr (v, [])"
  using cbor_roundtripsD [of X v "[]"] by simp

text \<open>
  Documented behaviour of the symmetric packages: digest sizes, HKDF outputs of at most
  \<open>255 * 32\<close> bytes, and AES-256-CBC without padding as a length-preserving permutation of whole
  blocks.
\<close>

definition symmetric_ok :: "externals \<Rightarrow> bool" where
  "symmetric_ok X \<longleftrightarrow>
     (\<forall>b. length (sha256 X b) = 32) \<and> (\<forall>k b. length (hmac_sha256 X k b) = 32) \<and>
     (\<forall>s i f n. n \<le> 8160 \<longrightarrow> (\<exists>k. hkdf_sha256 X s i f n = Inr k \<and> length k = n)) \<and>
     (\<forall>k iv d. length k = 32 \<and> length iv = 16 \<and> 16 dvd length d \<longrightarrow>
       (\<exists>c. aes256_cbc_enc X k iv d = Inr c \<and> length c = length d \<and>
            aes256_cbc_dec X k iv c = Inr d))"

lemma symmetric_okD:
  assumes "symmetric_ok X"
  shows "length (sha256 X b) = 32" and "length (hmac_sha256 X k b) = 32"
    and "n \<le> 8160 \<Longrightarrow> \<exists>key. hkdf_sha256 X s i f n = Inr key \<and> length key = n"
    and "length k = 32 \<Longrightarrow> length iv = 16 \<Longrightarrow> 16 dvd length d \<Longrightarrow>
      \<exists>c. aes256_cbc_enc X k iv d = Inr c \<and> length c = length d \<and> aes256_cbc_dec X k iv c = Inr d"
  using assms by (auto simp: symmetric_ok_def)

subsection \<open>CBOR accessors\<close>

fun as_integer :: "cbor \<Rightarrow> int option" where
  "as_integer (CInteger i) = Some i" | "as_integer _ = None"

fun as_cbytes :: "cbor \<Rightarrow> bytes option" where
  "as_cbytes (CBytes b) = Some b" | "as_cbytes _ = None"

fun as_text :: "cbor \<Rightarrow> string option" where
  "as_text (CText s) = Some s" | "as_text _ = None"

fun as_bool :: "cbor \<Rightarrow> bool option" where
  "as_bool (CBool b) = Some b" | "as_bool _ = None"

fun as_array :: "cbor \<Rightarrow> cbor list option" where
  "as_array (CArray xs) = Some xs" | "as_array _ = None"

fun as_map :: "cbor \<Rightarrow> (cbor \<times> cbor) list option" where
  "as_map (CMap m) = Some m" | "as_map _ = None"

lemma as_accessor_Some [simp]:
  "as_integer v = Some i \<longleftrightarrow> v = CInteger i"
  "as_cbytes v = Some b \<longleftrightarrow> v = CBytes b"
  "as_text v = Some s \<longleftrightarrow> v = CText s"
  "as_bool v = Some t \<longleftrightarrow> v = CBool t"
  "as_array v = Some xs \<longleftrightarrow> v = CArray xs"
  "as_map v = Some m \<longleftrightarrow> v = CMap m"
  by (cases v; simp; blast)+

text \<open>\<open>map.iter().find(|(k, _)| k is the integer key)\<close> and its variants.\<close>

definition get_value_by_int :: "(cbor \<times> cbor) list \<Rightarrow> int \<Rightarrow> cbor option" where
  "get_value_by_int m key = map_option snd (find (\<lambda>kv. as_integer (fst kv) = Some key) m)"

definition get_bytes_by_int :: "(cbor \<times> cbor) list \<Rightarrow> int \<Rightarrow> bytes option" where
  "get_bytes_by_int m key =
     Option.bind (find (\<lambda>kv. as_integer (fst kv) = Some key) m) (\<lambda>kv. as_cbytes (snd kv))"

definition get_value_by_text :: "(cbor \<times> cbor) list \<Rightarrow> string \<Rightarrow> cbor option" where
  "get_value_by_text m key = map_option snd (find (\<lambda>kv. as_text (fst kv) = Some key) m)"

text \<open>\<open>find_map\<close> over the entries under an integer label whose value is a byte string.\<close>

definition find_bytes_by_int :: "(cbor \<times> cbor) list \<Rightarrow> int \<Rightarrow> bytes option" where
  "find_bytes_by_int m label =
     find_map (\<lambda>(k, v). if as_integer k = Some label then as_cbytes v else None) m"

lemma get_value_by_int_simps [simp]:
  "get_value_by_int [] key = None"
  "get_value_by_int ((CInteger i, v) # m) key =
     (if i = key then Some v else get_value_by_int m key)"
  "get_value_by_int ((CText s, v) # m) key = get_value_by_int m key"
  by (simp_all add: get_value_by_int_def)

lemma get_bytes_by_int_simps [simp]:
  "get_bytes_by_int [] key = None"
  "get_bytes_by_int ((CInteger i, v) # m) key =
     (if i = key then as_cbytes v else get_bytes_by_int m key)"
  "get_bytes_by_int ((CText s, v) # m) key = get_bytes_by_int m key"
  by (simp_all add: get_bytes_by_int_def)

lemma get_value_by_text_simps [simp]:
  "get_value_by_text [] key = None"
  "get_value_by_text ((CText s, v) # m) key =
     (if s = key then Some v else get_value_by_text m key)"
  "get_value_by_text ((CInteger i, v) # m) key = get_value_by_text m key"
  by (simp_all add: get_value_by_text_def)

lemma find_bytes_by_int_simps [simp]:
  "find_bytes_by_int [] key = None"
  "find_bytes_by_int ((CInteger i, CBytes b) # m) key =
     (if i = key then Some b else find_bytes_by_int m key)"
  "find_bytes_by_int ((CInteger i, CInteger j) # m) key = find_bytes_by_int m key"
  by (simp_all add: find_bytes_by_int_def)

text \<open>\<open>i64::try_from\<close>, \<open>u32::try_from\<close> and \<open>u16::try_from\<close> of a CBOR integer.\<close>

definition try_i64 :: "int \<Rightarrow> int option" where
  "try_i64 i = (if - (2 ^ 63) \<le> i \<and> i < 2 ^ 63 then Some i else None)"

definition try_u32 :: "int \<Rightarrow> nat option" where
  "try_u32 i = (if 0 \<le> i \<and> i < 2 ^ 32 then Some (nat i) else None)"

definition try_u16 :: "int \<Rightarrow> nat option" where
  "try_u16 i = (if 0 \<le> i \<and> i < 2 ^ 16 then Some (nat i) else None)"

definition is_i64 :: "int \<Rightarrow> bool" where
  "is_i64 i \<longleftrightarrow> - (2 ^ 63) \<le> i \<and> i < 2 ^ 63"

lemma try_i64_is_i64 [simp]: "is_i64 i \<Longrightarrow> try_i64 i = Some i"
  by (simp add: try_i64_def is_i64_def)

subsection \<open>Callbacks\<close>

datatype pin_request_kind = EnterPin | SetNewPin nat

record 'w auth_callback =
  request_pin :: "string \<Rightarrow> ('w, bytes) weff"
  request_pin_for :: "string \<Rightarrow> pin_request_kind \<Rightarrow> ('w, bytes) weff"
  request_webauthn_assertion :: "string \<Rightarrow> bytes \<Rightarrow> string \<Rightarrow> bytes list \<Rightarrow> ('w, bytes) weff"

text \<open>The default body of \<open>AuthCallback::request_pin_for\<close>: the kind is ignored.\<close>

definition default_request_pin_for ::
  "(string \<Rightarrow> ('w, bytes) weff) \<Rightarrow> string \<Rightarrow> pin_request_kind \<Rightarrow> ('w, bytes) weff" where
  "default_request_pin_for rp plugin_id kind = rp plugin_id"

record 'w ctap2_transport =
  ctap2_send_command :: "bytes \<Rightarrow> ('w, bytes) weff"
  performs_user_verification :: bool

record 'w android_callback =
  ak_generate :: "string \<Rightarrow> bytes option \<Rightarrow> bool \<Rightarrow> string list \<Rightarrow> bool \<Rightarrow> ('w, android_level) weff"
  ak_certificate_chain :: "string \<Rightarrow> ('w, bytes list) weff"
  ak_public_key_jwk :: "string \<Rightarrow> ('w, json) weff"
  ak_security_level :: "string \<Rightarrow> ('w, android_level) weff"
  ak_user_authentication_methods :: "string \<Rightarrow> ('w, string list) weff"
  ak_sign :: "string \<Rightarrow> bytes \<Rightarrow> ('w, bytes) weff"
  ak_aliases :: "('w, string list) weff"
  ak_delete :: "string \<Rightarrow> ('w, unit) weff"

record 'w secure_enclave_callback =
  se_generate_key :: "string \<Rightarrow> ('w, bytes \<times> bytes) weff"
  se_sign :: "string \<Rightarrow> bytes \<Rightarrow> ('w, bytes) weff"
  se_delete_key :: "string \<Rightarrow> ('w, unit) weff"

text \<open>
  The process environment of an operation: the progress callback the caller passed, the clock,
  the random generator (\<open>rand::fill\<close>) and the secret-key generator of the elliptic-curve packages.
\<close>

record 'w env =
  env_progress :: "operation_progress \<Rightarrow> 'w \<Rightarrow> 'w"
  env_now :: "'w \<Rightarrow> int \<times> 'w"
  env_rand :: "nat \<Rightarrow> 'w \<Rightarrow> bytes \<times> 'w"
  env_generate_secret :: "'w \<Rightarrow> bytes \<times> 'w"

definition noop_progress :: "operation_progress \<Rightarrow> 'w \<Rightarrow> 'w" where
  "noop_progress p w = w"

definition on_progress :: "'w env \<Rightarrow> operation_progress \<Rightarrow> ('w, unit) weff" where
  "on_progress env p w = (Inr (), env_progress env p w)"

definition now_unix :: "'w env \<Rightarrow> ('w, int) weff" where
  "now_unix env = etotal (env_now env)"

definition rand_fill :: "'w env \<Rightarrow> nat \<Rightarrow> ('w, bytes) weff" where
  "rand_fill env n = etotal (env_rand env n)"

definition generate_secret :: "'w env \<Rightarrow> ('w, bytes) weff" where
  "generate_secret env = etotal (env_generate_secret env)"

lemma env_step_ok [eff_elims, simp]:
  "on_progress env p w = (r, w') \<longleftrightarrow> r = Inr () \<and> w' = env_progress env p w"
  by (auto simp: on_progress_def)

lemma now_unix_eq [eff_elims]:
  "now_unix env w = (r, w') \<longleftrightarrow> r = Inr (fst (env_now env w)) \<and> w' = snd (env_now env w)"
  by (auto simp: now_unix_def etotal_def split: prod.splits)

lemma rand_fill_eq [eff_elims]:
  "rand_fill env n w = (r, w') \<longleftrightarrow> r = Inr (fst (env_rand env n w)) \<and> w' = snd (env_rand env n w)"
  by (auto simp: rand_fill_def etotal_def split: prod.splits)

lemma generate_secret_eq [eff_elims]:
  "generate_secret env w = (r, w') \<longleftrightarrow>
     r = Inr (fst (env_generate_secret env w)) \<and> w' = snd (env_generate_secret env w)"
  by (auto simp: generate_secret_def etotal_def split: prod.splits)

lemma env_never_panics [simp]:
  "never_panics (on_progress env p)" "never_panics (now_unix env)"
  "never_panics (rand_fill env n)" "never_panics (generate_secret env)"
  by (simp_all add: never_panics_def on_progress_def now_unix_def rand_fill_def generate_secret_def
      etotal_apply)

text \<open>The random generator fills the buffer it is given.\<close>

definition env_fills :: "'w env \<Rightarrow> bool" where
  "env_fills env \<longleftrightarrow> (\<forall>n w. length (fst (env_rand env n w)) = n)"

text \<open>
  Lifting a world to a world with one more component (a recorder's log): every callback acts on
  the outer component as before.
\<close>

definition lift_transport :: "'w ctap2_transport \<Rightarrow> ('r \<times> 'w) ctap2_transport" where
  "lift_transport t = \<lparr>ctap2_send_command = (\<lambda>c. on_snd (ctap2_send_command t c)),
     performs_user_verification = performs_user_verification t\<rparr>"

definition lift_env :: "'w env \<Rightarrow> ('r \<times> 'w) env" where
  "lift_env e = \<lparr>env_progress = (\<lambda>p (r, w). (r, env_progress e p w)),
     env_now = (\<lambda>(r, w). let (x, w') = env_now e w in (x, (r, w'))),
     env_rand = (\<lambda>n (r, w). let (x, w') = env_rand e n w in (x, (r, w'))),
     env_generate_secret = (\<lambda>(r, w). let (x, w') = env_generate_secret e w in (x, (r, w')))\<rparr>"

definition lift_auth :: "'w auth_callback \<Rightarrow> ('r \<times> 'w) auth_callback" where
  "lift_auth a = \<lparr>request_pin = (\<lambda>p. on_snd (request_pin a p)),
     request_pin_for = (\<lambda>p k. on_snd (request_pin_for a p k)),
     request_webauthn_assertion = (\<lambda>p c r i. on_snd (request_webauthn_assertion a p c r i))\<rparr>"

lemma lift_auth_simps [simp]:
  "request_pin (lift_auth a) p = on_snd (request_pin a p)"
  "request_pin_for (lift_auth a) p k = on_snd (request_pin_for a p k)"
  by (simp_all add: lift_auth_def)

text \<open>
  A transport that records every command it is given, in order: the specifications of the
  ceremonies say what may appear on the wire.
\<close>

definition logged :: "'w ctap2_transport \<Rightarrow> (bytes list \<times> 'w) ctap2_transport" where
  "logged t = \<lparr>ctap2_send_command =
       (\<lambda>c. ebind (emodify (\<lambda>(l, w). (l @ [c], w))) (\<lambda>_. on_snd (ctap2_send_command t c))),
     performs_user_verification = performs_user_verification t\<rparr>"

lemma logged_send:
  "ctap2_send_command (logged t) c (l, w) =
     (fst (ctap2_send_command t c w), (l @ [c], snd (ctap2_send_command t c w)))"
  by (simp add: logged_def on_snd_apply)

lemma logged_uv [simp]: "performs_user_verification (logged t) = performs_user_verification t"
  by (simp add: logged_def)

text \<open>\<open>sends_only C m\<close>: a run of \<open>m\<close> appends to the log commands of \<open>C\<close> only.\<close>

definition sends_only :: "bytes set \<Rightarrow> (bytes list \<times> 'w, 'a) weff \<Rightarrow> bool" where
  "sends_only C m \<longleftrightarrow>
     (\<forall>l w. \<exists>cs. fst (snd (m (l, w))) = l @ cs \<and> set cs \<subseteq> C)"

lemma sends_onlyD:
  "sends_only C m \<Longrightarrow> m (l, w) = (r, (l', w')) \<Longrightarrow> \<exists>cs. l' = l @ cs \<and> set cs \<subseteq> C"
  unfolding sends_only_def by (metis fst_conv snd_conv)

lemma sends_only_ebind [intro]:
  assumes "sends_only C m" and "\<And>x. sends_only C (f x)"
  shows "sends_only C (ebind m f)"
  unfolding sends_only_def
proof (intro allI)
  fix l w
  obtain r l' w' where m: "m (l, w) = (r, (l', w'))" by (metis prod.collapse)
  obtain cs where cs: "l' = l @ cs" "set cs \<subseteq> C" using sends_onlyD [OF assms(1) m] by blast
  show "\<exists>cs. fst (snd (ebind m f (l, w))) = l @ cs \<and> set cs \<subseteq> C"
  proof (cases r)
    case (Inl e)
    then show ?thesis using m cs by (simp add: ebind_def)
  next
    case (Inr x)
    obtain ds where ds: "fst (snd (f x (l', w'))) = l' @ ds" "set ds \<subseteq> C"
      using assms(2) [of x] unfolding sends_only_def by blast
    then have "fst (snd (ebind m f (l, w))) = l @ (cs @ ds) \<and> set (cs @ ds) \<subseteq> C"
      using m cs Inr by (simp add: ebind_def)
    then show ?thesis by blast
  qed
qed

lemma sends_only_basic [simp, intro]:
  "sends_only C (ereturn x)" "sends_only C (ethrow e)" "sends_only C (elift m)"
  "sends_only C (on_snd h)"
  by (auto simp: sends_only_def on_snd_def split: prod.splits)

lemma sends_only_send [simp]: "c \<in> C \<Longrightarrow> sends_only C (ctap2_send_command (logged t) c)"
  by (simp add: sends_only_def logged_send)

lemma sends_only_env [simp, intro]:
  "sends_only C (rand_fill (lift_env env) n)" "sends_only C (generate_secret (lift_env env))"
  by (auto simp: sends_only_def rand_fill_def generate_secret_def etotal_apply lift_env_def
      split: prod.splits)

lemma lift_transport_simps [simp]:
  "ctap2_send_command (lift_transport t) c = on_snd (ctap2_send_command t c)"
  "performs_user_verification (lift_transport t) = performs_user_verification t"
  by (simp_all add: lift_transport_def)

end
