(* ===== verification/Cbor_Ref.thy ===== *)
theory Cbor_Ref
  imports Externals
begin

section \<open>A reference CBOR codec and a concrete instance of the packages\<close>

text \<open>
  The codec of the model is a parameter with the hypotheses \<open>cbor_roundtrips\<close> and
  \<open>cbor_dec_suffix\<close>. This theory shows that a codec with these properties exists: the definite
  length encoding of RFC 8949, section 3, with the shortest head, whose decoder inverts it on
  every value within the format's limits (\<open>cbor_ok\<close>). \<open>ref_externals\<close> puts it in a record with
  computable stand-ins for the cryptographic packages; the examples of the development run on it.
\<close>

definition enc_head :: "nat \<Rightarrow> nat \<Rightarrow> bytes" where
  "enc_head major n =
     (if n < 24 then [byte_of (major * 32 + n)]
      else if n < 256 then byte_of (major * 32 + 24) # be 1 n
      else if n < 65536 then byte_of (major * 32 + 25) # be 2 n
      else if n < 4294967296 then byte_of (major * 32 + 26) # be 4 n
      else byte_of (major * 32 + 27) # be 8 n)"

definition dec_head :: "bytes \<Rightarrow> (nat \<times> nat \<times> nat \<times> bytes) option" where
  "dec_head bs = (case bs of [] \<Rightarrow> None | b # rest \<Rightarrow>
     (let major = unat b div 32; info = unat b mod 32;
          k = (if info = 24 then 1 else if info = 25 then 2 else if info = 26 then 4 else 8)
      in if info < 24 then Some (major, info, info, rest)
         else if 27 < info \<or> length rest < k then None
         else Some (major, info, unbe (take k rest), drop k rest)))"

definition head_info :: "nat \<Rightarrow> nat" where
  "head_info n = (if n < 24 then n else if n < 256 then 24 else if n < 65536 then 25
     else if n < 4294967296 then 26 else 27)"

lemma enc_head_nonempty [simp]: "enc_head major n \<noteq> []"
  by (simp add: enc_head_def)

lemma dec_head_byte:
  assumes "major < 8" and "info < 32"
  shows "dec_head (byte_of (major * 32 + info) # rest) =
    (let k = (if info = 24 then 1 else if info = 25 then 2 else if info = 26 then 4 else 8)
     in if info < 24 then Some (major, info, info, rest)
        else if 27 < info \<or> length rest < k then None
        else Some (major, info, unbe (take k rest), drop k rest))"
proof -
  have "major * 32 + info < 256" using assms by simp
  then have "unat (byte_of (major * 32 + info)) = major * 32 + info" by simp
  moreover have "(major * 32 + info) div 32 = major" "(major * 32 + info) mod 32 = info"
    using assms(2) by simp_all
  ultimately show ?thesis unfolding dec_head_def by (simp only: list.case Let_def)
qed

lemma dec_head_be:
  assumes "major < 8" and "info < 32" and "info = 24 \<and> k = 1 \<or> info = 25 \<and> k = 2 \<or>
    info = 26 \<and> k = 4 \<or> info = 27 \<and> k = 8" and "n < 256 ^ k"
  shows "dec_head (byte_of (major * 32 + info) # be k n @ rest) = Some (major, info, n, rest)"
proof -
  have t: "take k (be k n @ rest) = be k n" "drop k (be k n @ rest) = rest"
    using length_be [of k n] by (metis append_eq_conv_conj)+
  show ?thesis
    using assms(3) t unbe_be [OF assms(4)] length_be [of k n]
    unfolding dec_head_byte [OF assms(1,2)] Let_def
    by (elim disjE conjE) (simp_all del: be.simps length_be)
qed

lemma dec_enc_head:
  assumes "major < 8" and "n < 2 ^ 64"
  shows "dec_head (enc_head major n @ rest) = Some (major, head_info n, n, rest)"
proof -
  consider "n < 24" | "\<not> n < 24" "n < 256" | "\<not> n < 24" "\<not> n < 256" "n < 65536"
    | "\<not> n < 24" "\<not> n < 256" "\<not> n < 65536" "n < 4294967296"
    | "\<not> n < 24" "\<not> n < 256" "\<not> n < 65536" "\<not> n < 4294967296" by blast
  then show ?thesis
  proof cases
    case 1
    then show ?thesis
      by (simp add: enc_head_def head_info_def dec_head_byte [OF assms(1)])
  next
    case 2
    then show ?thesis using dec_head_be [OF assms(1), of 24 1 n rest]
      by (simp add: enc_head_def head_info_def del: be.simps)
  next
    case 3
    then show ?thesis using dec_head_be [OF assms(1), of 25 2 n rest]
      by (simp add: enc_head_def head_info_def del: be.simps)
  next
    case 4
    then show ?thesis using dec_head_be [OF assms(1), of 26 4 n rest]
      by (simp add: enc_head_def head_info_def del: be.simps)
  next
    case 5
    then show ?thesis using dec_head_be [OF assms(1), of 27 8 n rest] assms(2)
      by (simp add: enc_head_def head_info_def del: be.simps)
  qed
qed

fun cenc :: "cbor \<Rightarrow> bytes" where
  "cenc (CInteger i) = (if 0 \<le> i then enc_head 0 (nat i) else enc_head 1 (nat (- 1 - i)))"
| "cenc (CBytes b) = enc_head 2 (length b) @ b"
| "cenc (CText s) = enc_head 3 (length s) @ as_bytes s"
| "cenc (CArray xs) = enc_head 4 (length xs) @ concat (map cenc xs)"
| "cenc (CMap m) = enc_head 5 (length m) @ concat (map (\<lambda>(k, v). cenc k @ cenc v) m)"
| "cenc (CTag t v) = enc_head 6 t @ cenc v"
| "cenc (CBool b) = enc_head 7 (if b then 21 else 20)"
| "cenc CNull = enc_head 7 22"
| "cenc (CFloat w) = byte_of 251 # be 8 (unat w)"

text \<open>The decoder recurses on fuel: one unit for every item and every list cell.\<close>

fun cdec :: "nat \<Rightarrow> bytes \<Rightarrow> string + cbor \<times> bytes"
  and cdec_items :: "nat \<Rightarrow> nat \<Rightarrow> bytes \<Rightarrow> string + cbor list \<times> bytes"
  and cdec_pairs :: "nat \<Rightarrow> nat \<Rightarrow> bytes \<Rightarrow> string + (cbor \<times> cbor) list \<times> bytes" where
  "cdec 0 bs = Inl ''recursion limit''"
| "cdec (Suc f) bs =
     (case dec_head bs of None \<Rightarrow> Inl ''eof'' | Some (major, info, n, rest) \<Rightarrow>
        if major = 0 then Inr (CInteger (int n), rest)
        else if major = 1 then Inr (CInteger (- 1 - int n), rest)
        else if major = 2 then
          (if length rest < n then Inl ''eof'' else Inr (CBytes (take n rest), drop n rest))
        else if major = 3 then
          (if length rest < n then Inl ''eof'' else Inr (CText (of_bytes (take n rest)), drop n rest))
        else if major = 4 then rbind (cdec_items f n rest) (\<lambda>(xs, r). Inr (CArray xs, r))
        else if major = 5 then rbind (cdec_pairs f n rest) (\<lambda>(m, r). Inr (CMap m, r))
        else if major = 6 then rbind (cdec f rest) (\<lambda>(v, r). Inr (CTag n v, r))
        else if info = 20 then Inr (CBool False, rest)
        else if info = 21 then Inr (CBool True, rest)
        else if info = 22 then Inr (CNull, rest)
        else if info = 27 then Inr (CFloat (of_nat n), rest)
        else Inl ''simple value'')"
| "cdec_items 0 n bs = Inl ''recursion limit''"
| "cdec_items (Suc f) n bs =
     (if n = 0 then Inr ([], bs)
      else rbind (cdec f bs) (\<lambda>(x, r). rbind (cdec_items f (n - 1) r) (\<lambda>(xs, r'). Inr (x # xs, r'))))"
| "cdec_pairs 0 n bs = Inl ''recursion limit''"
| "cdec_pairs (Suc f) n bs =
     (if n = 0 then Inr ([], bs)
      else rbind (cdec f bs) (\<lambda>(k, r). rbind (cdec f r) (\<lambda>(v, r').
        rbind (cdec_pairs f (n - 1) r') (\<lambda>(m, r''). Inr ((k, v) # m, r'')))))"

fun cbor_ok :: "cbor \<Rightarrow> bool" where
  "cbor_ok (CInteger i) = (- (2 ^ 64) \<le> i \<and> i < 2 ^ 64)"
| "cbor_ok (CBytes b) = (length b < 2 ^ 64)"
| "cbor_ok (CText s) = (length s < 2 ^ 64)"
| "cbor_ok (CArray xs) = (length xs < 2 ^ 64 \<and> list_all cbor_ok xs)"
| "cbor_ok (CMap m) = (length m < 2 ^ 64 \<and> list_all (\<lambda>(k, v). cbor_ok k \<and> cbor_ok v) m)"
| "cbor_ok (CTag t v) = (t < 2 ^ 64 \<and> cbor_ok v)"
| "cbor_ok (CBool b) = True"
| "cbor_ok CNull = True"
| "cbor_ok (CFloat w) = True"

fun weight :: "cbor \<Rightarrow> nat" where
  "weight (CArray xs) = 2 + sum_list (map (\<lambda>x. 1 + weight x) xs)"
| "weight (CMap m) = 2 + sum_list (map (\<lambda>(k, v). 1 + weight k + weight v) m)"
| "weight (CTag t v) = 1 + weight v"
| "weight _ = 1"

lemma dec_head_suffix: "dec_head bs = Some (a, b, n, rest) \<Longrightarrow> length rest < length bs"
  by (auto simp: dec_head_def Let_def split: list.splits if_splits)

lemma cdec_suffix:
  shows "cdec f bs = Inr (v, rest) \<Longrightarrow> length rest \<le> length bs"
    and "cdec_items f n bs = Inr (xs, rest) \<Longrightarrow> length rest \<le> length bs"
    and "cdec_pairs f n bs = Inr (m, rest) \<Longrightarrow> length rest \<le> length bs"
proof (induction f arbitrary: bs v rest n xs m)
  case 0
  { case 1 then show ?case by simp }
  { case 2 then show ?case by simp }
  { case 3 then show ?case by simp }
next
  case (Suc f)
  { case 1
    then show ?case
      by (auto simp: rbind_eq_Inr split: option.splits if_splits
          dest!: dec_head_suffix Suc.IH) }
  { case 2
    then show ?case
      by (auto simp: rbind_eq_Inr split: if_splits dest!: Suc.IH) }
  { case 3
    then show ?case
      by (auto simp: rbind_eq_Inr split: if_splits dest!: Suc.IH) }
qed

lemma cdec_items_cenc:
  assumes "\<And>x f rest. x \<in> set xs \<Longrightarrow> weight x \<le> f \<Longrightarrow> cdec f (cenc x @ rest) = Inr (x, rest)"
    and "1 + sum_list (map (\<lambda>x. 1 + weight x) xs) \<le> f"
  shows "cdec_items f (length xs) (concat (map cenc xs) @ rest) = Inr (xs, rest)"
  using assms
proof (induction xs arbitrary: f)
  case Nil
  then show ?case by (cases f) simp_all
next
  case (Cons x xs)
  then obtain g where "f = Suc g" by (cases f) auto
  then show ?case using Cons.prems Cons.IH [of g] by simp
qed

lemma cdec_pairs_cenc:
  assumes "\<And>x f rest. x \<in> fst ` set m \<union> snd ` set m \<Longrightarrow> weight x \<le> f \<Longrightarrow>
      cdec f (cenc x @ rest) = Inr (x, rest)"
    and "1 + sum_list (map (\<lambda>(k, v). 1 + weight k + weight v) m) \<le> f"
  shows "cdec_pairs f (length m) (concat (map (\<lambda>(k, v). cenc k @ cenc v) m) @ rest) = Inr (m, rest)"
  using assms
proof (induction m arbitrary: f)
  case Nil
  then show ?case by (cases f) simp_all
next
  case (Cons p m)
  obtain k v where p: "p = (k, v)" by (cases p)
  obtain g where g: "f = Suc g" using Cons.prems(2) by (cases f) auto
  have "cdec_pairs g (length m) (concat (map (\<lambda>(k, v). cenc k @ cenc v) m) @ rest) = Inr (m, rest)"
    by (rule Cons.IH) (use Cons.prems p g in \<open>auto\<close>)
  then show ?case
    using Cons.prems(1) [of k g "cenc v @ concat (map (\<lambda>(k, v). cenc k @ cenc v) m) @ rest"]
      Cons.prems(1) [of v g "concat (map (\<lambda>(k, v). cenc k @ cenc v) m) @ rest"] Cons.prems(2) p g
    by simp
qed

text \<open>The decoder inverts the encoder on every value within the limits, given enough fuel.\<close>

lemma cdec_cenc: "cbor_ok v \<Longrightarrow> weight v \<le> f \<Longrightarrow> cdec f (cenc v @ rest) = Inr (v, rest)"
proof (induction v arbitrary: f rest rule: cbor.induct)
  case (CInteger i)
  then obtain g where "f = Suc g" by (cases f) auto
  then show ?case using CInteger.prems
    by (cases "0 \<le> i") (simp_all add: dec_enc_head nat_less_iff)
next
  case (CArray xs)
  then obtain g where g: "f = Suc g" by (cases f) auto
  have "cdec_items g (length xs) (concat (map cenc xs) @ rest) = Inr (xs, rest)"
    by (rule cdec_items_cenc) (use CArray g in \<open>auto simp: list_all_iff\<close>)
  then show ?case using CArray.prems g by (simp add: dec_enc_head)
next
  case (CMap m)
  then obtain g where g: "f = Suc g" by (cases f) auto
  have ok: "(k, v) \<in> set m \<Longrightarrow> cbor_ok k \<and> cbor_ok v" for k v
    using CMap.prems(1) by (auto simp: list_all_iff)
  have "cdec_pairs g (length m) (concat (map (\<lambda>(k, v). cenc k @ cenc v) m) @ rest) = Inr (m, rest)"
    by (rule cdec_pairs_cenc) (use CMap.IH CMap.prems g ok in \<open>fastforce+\<close>)
  then show ?case using CMap.prems g by (simp add: dec_enc_head)
next
  case (CFloat w)
  then obtain g where g: "f = Suc g" by (cases f) auto
  have "unat w < 256 ^ 8" using unsigned_less [of w] by simp
  then have "dec_head (byte_of (7 * 32 + 27) # be 8 (unat w) @ rest) = Some (7, 27, unat w, rest)"
    by (intro dec_head_be) simp_all
  then show ?case using g by (simp del: be.simps)
qed (case_tac f; simp add: dec_enc_head head_info_def)+

lemma enc_head_length: "1 \<le> length (enc_head major n)"
  by (simp add: enc_head_def)

lemma sum_list_le: "(\<And>x. x \<in> set xs \<Longrightarrow> f x \<le> g x) \<Longrightarrow> sum_list (map f xs) \<le> sum_list (map g xs)"
  for f g :: "'a \<Rightarrow> nat"
  by (rule sum_list_mono)

lemma weight_le_length: "weight v + 1 \<le> 3 * length (cenc v)"
proof (induction v rule: cbor.induct)
  case (CArray xs)
  have "sum_list (map (\<lambda>x. 1 + weight x) xs) \<le> sum_list (map (\<lambda>x. 3 * length (cenc x)) xs)"
    by (rule sum_list_le) (use CArray in force)
  then show ?case using enc_head_length [of 4 "length xs"]
    by (simp add: length_concat o_def sum_list_const_mult)
next
  case (CMap m)
  have "1 + weight k + weight v \<le> 3 * length (cenc k @ cenc v)" if "(k, v) \<in> set m" for k v
    using CMap [OF that, of k] CMap [OF that, of v] by simp
  then have "sum_list (map (\<lambda>(k, v). 1 + weight k + weight v) m)
      \<le> sum_list (map (\<lambda>(k, v). 3 * length (cenc k @ cenc v)) m)"
    by (intro sum_list_le) auto
  moreover have "sum_list (map (\<lambda>(k, v). 3 * length (cenc k @ cenc v)) m) =
      3 * length (concat (map (\<lambda>(k, v). cenc k @ cenc v) m))"
    by (induction m) auto
  ultimately show ?case using enc_head_length [of 5 "length m"] by simp
next
  case (CInteger i)
  then show ?case using enc_head_length [of 0 "nat i"] enc_head_length [of 1 "nat (- 1 - i)"]
    by simp
next
  case (CBytes b)
  then show ?case using enc_head_length [of 2 "length b"] by simp
next
  case (CText s)
  then show ?case using enc_head_length [of 3 "length s"] by simp
next
  case (CTag t v)
  then show ?case using enc_head_length [of 6 t] by simp
qed (simp_all add: enc_head_def)

text \<open>A concrete instance of the packages.\<close>

definition pad32 :: "bytes \<Rightarrow> bytes" where
  "pad32 bs = take 32 (bs @ replicate 32 0)"

text \<open>A 32-byte digest that is never zero: the sum of the bytes.\<close>

definition ref_hash :: "bytes \<Rightarrow> bytes" where
  "ref_hash bs = be 32 (Suc (sum_list (map unat bs) mod 65535))"

lemma length_ref_hash [simp]: "length (ref_hash bs) = 32"
  by (simp add: ref_hash_def)

text \<open>A JSON string literal: the quote and the backslash are escaped.\<close>

definition json_escape :: "char \<Rightarrow> string" where
  "json_escape c = (if c = CHR 0x22 \<or> c = CHR 0x5C then [CHR 0x5C, c] else [c])"

definition ref_json_string :: "string \<Rightarrow> string" where
  "ref_json_string s = CHR 0x22 # concat (map json_escape s) @ [CHR 0x22]"

lemma escaped_inject:
  "concat (map json_escape s) @ CHR 0x22 # r = concat (map json_escape t) @ CHR 0x22 # q \<Longrightarrow>
     s = t \<and> r = q"
proof (induction s arbitrary: t)
  case Nil
  then show ?case by (cases t) (auto simp: json_escape_def split: if_splits)
next
  case (Cons c s)
  then obtain d u where t: "t = d # u"
    by (cases t) (auto simp: json_escape_def split: if_splits)
  have "c = d" "concat (map json_escape s) @ CHR 0x22 # r = concat (map json_escape u) @ CHR 0x22 # q"
    using Cons.prems unfolding t
    by (auto simp: json_escape_def [of c] json_escape_def [of d] split: if_splits)
  then show ?case using Cons.IH [of u] t by simp
qed

definition ref_externals :: externals where
  "ref_externals = \<lparr>cbor_enc = cenc, cbor_dec = (\<lambda>bs. cdec (3 * length bs) bs),
     sha256 = ref_hash, hmac_sha256 = (\<lambda>k m. pad32 (k @ m)),
     hkdf_sha256 = (\<lambda>salt ikm info n. if n \<le> 8160 then Inr (replicate n 1) else Inl ''invalid length''),
     aes256_cbc_enc = (\<lambda>k iv d. if 16 dvd length d then Inr d else Inl ''pad error''),
     aes256_cbc_dec = (\<lambda>k iv d. if 16 dvd length d then Inr d else Inl ''unpad error''), nfc = (\<lambda>cs. cs),
     b64url_enc = of_bytes, b64url_dec = (\<lambda>s. Inr (as_bytes s)),
     json_string = ref_json_string,
     p256_public = (\<lambda>sk. \<lparr>pt_x = be 32 (unbe sk mod 2 ^ 256), pt_y = replicate 32 2\<rparr>),
     p256_secret_from_slice = (\<lambda>b. if length b = 32 then Inr b else Inl ''signature error''),
     p256_from_sec1 = (\<lambda>b. if length b = 65
       then Inr \<lparr>pt_x = take 32 (drop 1 b), pt_y = drop 33 b\<rparr> else Inl ''crypto error''),
     p256_ecdh = (\<lambda>sk p. be 32 (unbe sk * unbe (pt_x p) mod (2 ^ 256))),
     p256_base_mul = (\<lambda>n. \<lparr>pt_x = be 32 (n mod 2 ^ 256), pt_y = replicate 32 2\<rparr>),
     p256_add_base = (\<lambda>p n. Some \<lparr>pt_x = be 32 ((unbe (pt_x p) + n) mod 2 ^ 256), pt_y = pt_y p\<rparr>),
     p256_ecdsa_sign = (\<lambda>sk d. pad32 d @ pad32 sk),
     p256_sig_from_der = (\<lambda>d. if length d = 64 then Inr d else Inl ''signature error''),
     ed25519_public = pad32, ed25519_sign = (\<lambda>sk d. pad32 d @ pad32 sk)\<rparr>"

lemma ref_cbor_roundtrips: "cbor_ok v \<Longrightarrow> cbor_roundtrips ref_externals v"
  using weight_le_length [of v]
  by (simp add: cbor_roundtrips_def ref_externals_def cdec_cenc)

lemma ref_cbor_suffix: "cbor_dec_suffix ref_externals"
  by (auto simp: cbor_dec_suffix_def ref_externals_def dest: cdec_suffix(1))

lemma length_pad32 [simp]: "length (pad32 bs) = 32"
  by (auto simp: pad32_def min_def)

lemma ref_symmetric_ok: "symmetric_ok ref_externals"
  by (simp add: symmetric_ok_def ref_externals_def)

lemma ref_cbor_enc [simp]: "cbor_enc ref_externals = cenc"
  by (simp add: ref_externals_def)

lemma ref_externals_simps [simp]:
  "json_string ref_externals = ref_json_string" "b64url_enc ref_externals = of_bytes"
  "sha256 ref_externals = ref_hash" "nfc ref_externals = (\<lambda>cs. cs)"
  "cbor_dec ref_externals = (\<lambda>bs. cdec (3 * length bs) bs)"
  by (simp_all add: ref_externals_def)

text \<open>A process environment and callbacks, for runs at a concrete input.\<close>

definition ref_env :: "nat env" where
  "ref_env = \<lparr>env_progress = (\<lambda>p w. w), env_now = (\<lambda>w. (int w, Suc w)),
     env_rand = (\<lambda>n w. (replicate n (of_nat w), Suc w)),
     env_generate_secret = (\<lambda>w. (replicate 31 0 @ [of_nat (Suc w)], Suc w))\<rparr>"

definition ref_auth :: "bytes \<Rightarrow> nat auth_callback" where
  "ref_auth pin = \<lparr>request_pin = (\<lambda>p w. (Inr pin, w)), request_pin_for = (\<lambda>p k w. (Inr pin, w)),
     request_webauthn_assertion = (\<lambda>p c r i w. (Inl AuthCancelled, w))\<rparr>"

text \<open>A transport that answers every command with the same bytes and counts them.\<close>

definition ref_transport :: "bool \<Rightarrow> bytes \<Rightarrow> nat ctap2_transport" where
  "ref_transport uv answer = \<lparr>ctap2_send_command = (\<lambda>c w. (Inr answer, Suc w)),
     performs_user_verification = uv\<rparr>"

lemma ref_env_fills: "env_fills ref_env"
  by (simp add: env_fills_def ref_env_def)

lemma ref_env_simps [simp]:
  "env_progress ref_env p w = w" "env_now ref_env w = (int w, Suc w)"
  "env_rand ref_env n w = (replicate n (of_nat w), Suc w)"
  "env_generate_secret ref_env w = (replicate 31 0 @ [of_nat (Suc w)], Suc w)"
  by (simp_all add: ref_env_def)

lemma ref_auth_simps [simp]:
  "request_pin (ref_auth pin) p = (\<lambda>w. (Inr pin, w))"
  "request_pin_for (ref_auth pin) p k = (\<lambda>w. (Inr pin, w))"
  "request_webauthn_assertion (ref_auth pin) p c r i = (\<lambda>w. (Inl AuthCancelled, w))"
  by (simp_all add: ref_auth_def)

lemma ref_transport_simps [simp]:
  "ctap2_send_command (ref_transport uv ans) c = (\<lambda>w. (Inr ans, Suc w))"
  "performs_user_verification (ref_transport uv ans) = uv"
  by (simp_all add: ref_transport_def)

end
