(* ===== verification/Utf8.thy ===== *)
theory Utf8
  imports Wscd_Prelude
begin

section \<open>UTF-8: std::str::from_utf8, chars and String::as_bytes\<close>

text \<open>
  The PIN code of the crate measures secrets in characters and stores them as bytes, so the
  standard library's UTF-8 validation is modelled: \<open>utf8_decode\<close> accepts exactly the well-formed
  sequences of RFC 3629 (no overlong form, no surrogate, nothing above U+10FFFF) and gives the
  code points, \<open>utf8_encode\<close> is the encoding of a sequence of scalar values.
\<close>

definition is_cont :: "byte \<Rightarrow> bool" where
  "is_cont b \<longleftrightarrow> 128 \<le> unat b \<and> unat b \<le> 191"

definition cont_bits :: "byte \<Rightarrow> nat" where
  "cont_bits b = unat b - 128"

text \<open>The ranges the second byte of a three- and a four-byte sequence may be in.\<close>

definition second3_ok :: "nat \<Rightarrow> nat \<Rightarrow> bool" where
  "second3_ok b0 b1 \<longleftrightarrow>
     (if b0 = 224 then 160 \<le> b1 \<and> b1 \<le> 191
      else if b0 = 237 then 128 \<le> b1 \<and> b1 \<le> 159
      else 128 \<le> b1 \<and> b1 \<le> 191)"

definition second4_ok :: "nat \<Rightarrow> nat \<Rightarrow> bool" where
  "second4_ok b0 b1 \<longleftrightarrow>
     (if b0 = 240 then 144 \<le> b1 \<and> b1 \<le> 191
      else if b0 = 244 then 128 \<le> b1 \<and> b1 \<le> 143
      else 128 \<le> b1 \<and> b1 \<le> 191)"

fun utf8_decode :: "bytes \<Rightarrow> nat list option" where
  "utf8_decode [] = Some []"
| "utf8_decode (b0 # bs) =
     (if unat b0 < 128 then map_option (\<lambda>cs. unat b0 # cs) (utf8_decode bs)
      else if 194 \<le> unat b0 \<and> unat b0 \<le> 223 then
        (case bs of
           b1 # r \<Rightarrow>
             if is_cont b1
             then map_option (\<lambda>cs. ((unat b0 - 192) * 64 + cont_bits b1) # cs) (utf8_decode r)
             else None
         | _ \<Rightarrow> None)
      else if 224 \<le> unat b0 \<and> unat b0 \<le> 239 then
        (case bs of
           b1 # b2 # r \<Rightarrow>
             if second3_ok (unat b0) (unat b1) \<and> is_cont b2
             then map_option
               (\<lambda>cs. ((unat b0 - 224) * 4096 + cont_bits b1 * 64 + cont_bits b2) # cs)
               (utf8_decode r)
             else None
         | _ \<Rightarrow> None)
      else if 240 \<le> unat b0 \<and> unat b0 \<le> 244 then
        (case bs of
           b1 # b2 # b3 # r \<Rightarrow>
             if second4_ok (unat b0) (unat b1) \<and> is_cont b2 \<and> is_cont b3
             then map_option
               (\<lambda>cs. ((unat b0 - 240) * 262144 + cont_bits b1 * 4096 + cont_bits b2 * 64
                      + cont_bits b3) # cs)
               (utf8_decode r)
             else None
         | _ \<Rightarrow> None)
      else None)"

definition utf8_char :: "nat \<Rightarrow> bytes" where
  "utf8_char c =
     (if c < 128 then [byte_of c]
      else if c < 2048 then [byte_of (192 + c div 64), byte_of (128 + c mod 64)]
      else if c < 65536 then
        [byte_of (224 + c div 4096), byte_of (128 + c div 64 mod 64), byte_of (128 + c mod 64)]
      else
        [byte_of (240 + c div 262144), byte_of (128 + c div 4096 mod 64),
         byte_of (128 + c div 64 mod 64), byte_of (128 + c mod 64)])"

definition utf8_encode :: "nat list \<Rightarrow> bytes" where
  "utf8_encode cs = concat (map utf8_char cs)"

declare utf8_decode.simps(2) [simp del]

text \<open>Unicode scalar values: what a Rust \<open>char\<close> can be.\<close>

definition is_scalar :: "nat \<Rightarrow> bool" where
  "is_scalar c \<longleftrightarrow> c < 55296 \<or> (57344 \<le> c \<and> c < 1114112)"

lemma utf8_encode_simps [simp]:
  "utf8_encode [] = []"
  "utf8_encode (c # cs) = utf8_char c @ utf8_encode cs"
  by (simp_all add: utf8_encode_def)

lemma base64_digits3: "c div 4096 * 4096 + c div 64 mod 64 * 64 + c mod 64 = (c :: nat)"
proof -
  have eq: "a * 64 + b = q \<Longrightarrow> q * 64 + r = c \<Longrightarrow> a * 4096 + b * 64 + r = c" for a b q r :: nat
    by linarith
  have "c div 4096 = c div 64 div 64" by (simp add: div_mult2_eq [symmetric])
  then show ?thesis using eq [OF div_mult_mod_eq [of "c div 64" 64] div_mult_mod_eq [of c 64]] by simp
qed

lemma base64_digits4:
  "c div 262144 * 262144 + c div 4096 mod 64 * 4096 + c div 64 mod 64 * 64 + c mod 64 = (c :: nat)"
proof -
  have eq: "a * 64 + b = q \<Longrightarrow> q * 4096 + r + s = c \<Longrightarrow> a * 262144 + b * 4096 + r + s = c"
    for a b q r s :: nat by linarith
  have "c div 262144 = c div 4096 div 64" by (simp add: div_mult2_eq [symmetric])
  then show ?thesis using eq [OF div_mult_mod_eq [of "c div 4096" 64] base64_digits3 [of c]] by simp
qed

lemma utf8_decode_seq3:
  "\<lbrakk>a < 16; b < 64; r < 64; second3_ok (224 + a) (128 + b)\<rbrakk> \<Longrightarrow>
   utf8_decode (byte_of (224 + a) # byte_of (128 + b) # byte_of (128 + r) # bs) =
     map_option (\<lambda>cs. (a * 4096 + b * 64 + r) # cs) (utf8_decode bs)"
  by (simp add: utf8_decode.simps(2) is_cont_def cont_bits_def)

lemma utf8_decode_seq4:
  "\<lbrakk>a < 5; b < 64; q < 64; r < 64; second4_ok (240 + a) (128 + b)\<rbrakk> \<Longrightarrow>
   utf8_decode (byte_of (240 + a) # byte_of (128 + b) # byte_of (128 + q) # byte_of (128 + r) # bs) =
     map_option (\<lambda>cs. (a * 262144 + b * 4096 + q * 64 + r) # cs) (utf8_decode bs)"
  by (simp add: utf8_decode.simps(2) is_cont_def cont_bits_def)

lemma utf8_decode_char:
  assumes "is_scalar c"
  shows "utf8_decode (utf8_char c @ bs) = map_option (\<lambda>cs. c # cs) (utf8_decode bs)"
proof -
  have c: "c < 1114112" using assms by (auto simp: is_scalar_def)
  consider (one) "c < 128" | (two) "128 \<le> c" "c < 2048" | (three) "2048 \<le> c" "c < 65536"
    | (four) "65536 \<le> c" by linarith
  then show ?thesis
  proof cases
    case one
    then show ?thesis by (simp add: utf8_char_def utf8_decode.simps(2))
  next
    case two
    define q r where qr: "q = c div 64" "r = c mod 64"
    have enc: "utf8_char c = [byte_of (192 + q), byte_of (128 + r)]"
      using two by (simp add: utf8_char_def qr)
    have b: "2 \<le> q" "q < 32" "r < 64" and sum: "q * 64 + r = c" using two by (auto simp: qr)
    show ?thesis using b
      unfolding enc append.simps
      by (subst utf8_decode.simps) (simp add: is_cont_def cont_bits_def sum [simplified])
  next
    case three
    have d: "c div 4096 < 16" "c div 64 mod 64 < 64" "c mod 64 < 64" using three by auto
    have e: "c div 4096 * 4096 + c div 64 mod 64 * 64 + c mod 64 = c"
      by (rule base64_digits3)
    have s: "second3_ok (224 + c div 4096) (128 + c div 64 mod 64)"
    proof -
      have "c div 4096 = 13 \<Longrightarrow> c < 55296 \<Longrightarrow> c div 64 mod 64 \<le> 31" using e d by linarith
      moreover have "c div 4096 = 13 \<Longrightarrow> c < 57344" by linarith
      ultimately show ?thesis using three assms d unfolding second3_ok_def is_scalar_def by auto
    qed
    have "utf8_char c = [byte_of (224 + c div 4096), byte_of (128 + c div 64 mod 64),
      byte_of (128 + c mod 64)]" using three by (simp add: utf8_char_def)
    then show ?thesis using utf8_decode_seq3 [OF d s, of bs] unfolding e by simp
  next
    case four
    have d: "c div 262144 < 5" "c div 4096 mod 64 < 64" "c div 64 mod 64 < 64" "c mod 64 < 64"
      using c by auto
    have e: "c div 262144 * 262144 + c div 4096 mod 64 * 4096 + c div 64 mod 64 * 64 + c mod 64 = c"
      by (rule base64_digits4)
    have s: "second4_ok (240 + c div 262144) (128 + c div 4096 mod 64)"
    proof -
      have "c div 262144 = 4 \<Longrightarrow> c div 4096 mod 64 \<le> 15" using e d c by linarith
      moreover have "c div 262144 = 0 \<Longrightarrow> 16 \<le> c div 4096 mod 64" using e d four by linarith
      ultimately show ?thesis using d unfolding second4_ok_def by auto
    qed
    have "utf8_char c = [byte_of (240 + c div 262144), byte_of (128 + c div 4096 mod 64),
      byte_of (128 + c div 64 mod 64), byte_of (128 + c mod 64)]"
      using four by (simp add: utf8_char_def)
    then show ?thesis using utf8_decode_seq4 [OF d s, of bs] unfolding e by simp
  qed
qed

lemma is_scalar_seq3:
  assumes "224 \<le> a" "a \<le> 239" "second3_ok a b" "128 \<le> c" "c \<le> 191"
  shows "is_scalar ((a - 224) * 4096 + (b - 128) * 64 + (c - 128))"
proof -
  obtain i where "a = 224 + i" using assms(1) le_Suc_ex by blast
  moreover obtain j where "c = 128 + j" using assms(4) le_Suc_ex by blast
  ultimately show ?thesis
    using assms by (auto simp: second3_ok_def is_scalar_def split: if_splits)
qed

lemma is_scalar_seq4:
  assumes "240 \<le> a" "a \<le> 244" "second4_ok a b" "128 \<le> c" "c \<le> 191" "128 \<le> d" "d \<le> 191"
  shows "is_scalar ((a - 240) * 262144 + (b - 128) * 4096 + (c - 128) * 64 + (d - 128))"
proof -
  obtain i where "a = 240 + i" using assms(1) le_Suc_ex by blast
  moreover obtain j where "c = 128 + j" using assms(4) le_Suc_ex by blast
  moreover obtain k where "d = 128 + k" using assms(6) le_Suc_ex by blast
  ultimately show ?thesis
    using assms by (auto simp: second4_ok_def is_scalar_def split: if_splits)
qed

text \<open>Decoding only yields Unicode scalar values.\<close>

lemma utf8_decode_scalars: "utf8_decode bs = Some cs \<Longrightarrow> list_all is_scalar cs"
proof (induction bs arbitrary: cs rule: utf8_decode.induct)
  case 1
  then show ?case by simp
next
  case (2 b0 bs)
  have seq2: "is_scalar ((unat b0 - 192) * 64 + cont_bits b1)"
    if "unat b0 \<le> 223" "is_cont b1" for b1
  proof -
    have "(unat b0 - 192) * 64 \<le> 31 * 64" using that(1) by (intro mult_right_mono) auto
    moreover have "cont_bits b1 \<le> 63" using that(2) by (auto simp: is_cont_def cont_bits_def)
    ultimately show ?thesis by (simp add: is_scalar_def)
  qed
  consider (one) "unat b0 < 128" | (two) "194 \<le> unat b0" "unat b0 \<le> 223"
    | (three) "224 \<le> unat b0" "unat b0 \<le> 239" | (four) "240 \<le> unat b0" "unat b0 \<le> 244"
    using 2(5) by (auto simp: utf8_decode.simps(2) split: if_splits)
  then show ?case
  proof cases
    case one
    then show ?thesis using 2(1,5) by (auto simp: utf8_decode.simps(2) is_scalar_def)
  next
    case two
    then show ?thesis using 2(2) 2(5) two seq2
      by (auto simp: utf8_decode.simps(2) split: if_splits list.splits)
  next
    case three
    then obtain b1 b2 r ds where bs: "bs = b1 # b2 # r" "second3_ok (unat b0) (unat b1)" "is_cont b2"
      "utf8_decode r = Some ds"
      "cs = ((unat b0 - 224) * 4096 + cont_bits b1 * 64 + cont_bits b2) # ds"
      using 2(5) by (auto simp: utf8_decode.simps(2) split: if_splits list.splits)
    have "list_all is_scalar ds" using 2(3) three bs by simp
    then show ?thesis using bs three is_scalar_seq3 [of "unat b0" "unat b1" "unat b2"]
      by (simp add: is_cont_def cont_bits_def)
  next
    case four
    then obtain b1 b2 b3 r ds where bs: "bs = b1 # b2 # b3 # r"
      "second4_ok (unat b0) (unat b1)" "is_cont b2" "is_cont b3" "utf8_decode r = Some ds"
      "cs = ((unat b0 - 240) * 262144 + cont_bits b1 * 4096 + cont_bits b2 * 64 + cont_bits b3) # ds"
      using 2(5) by (auto simp: utf8_decode.simps(2) split: if_splits list.splits)
    have "list_all is_scalar ds" using 2(4) four bs by simp
    then show ?thesis using bs four is_scalar_seq4 [of "unat b0" "unat b1" "unat b2" "unat b3"]
      by (simp add: is_cont_def cont_bits_def)
  qed
qed

lemma utf8_decode_encode: "list_all is_scalar cs \<Longrightarrow> utf8_decode (utf8_encode cs) = Some cs"
  by (induction cs) (simp_all add: utf8_decode_char)

lemma byte_of_eq_0: "n < 256 \<Longrightarrow> byte_of n = 0 \<longleftrightarrow> n = 0"
  by (metis unat_byte_of unat_eq_zero)

lemma utf8_char_no_nul:
  assumes "is_scalar c"
  shows "0 \<in> set (utf8_char c) \<longleftrightarrow> c = 0"
proof -
  have zero: "(0 = byte_of n) = (n = 0)" if "n < 256" for n
    using byte_of_eq_0 [OF that] by metis
  have c: "c < 1114112" using assms by (auto simp: is_scalar_def)
  have "240 + c div 262144 < 256" "c < 65536 \<Longrightarrow> 224 + c div 4096 < 256"
    "c < 2048 \<Longrightarrow> 192 + c div 64 < 256" using c by auto
  then show ?thesis by (auto simp: utf8_char_def zero)
qed

lemma utf8_encode_nul: "list_all is_scalar cs \<Longrightarrow> 0 \<in> set (utf8_encode cs) \<longleftrightarrow> 0 \<in> set cs"
  by (induction cs) (auto simp: utf8_char_no_nul)

lemma length_utf8_char_pos: "0 < length (utf8_char c)"
  by (simp add: utf8_char_def)

lemma length_le_utf8_encode: "length cs \<le> length (utf8_encode cs)"
proof (induction cs)
  case (Cons c cs)
  have "Suc 0 \<le> length (utf8_char c)" using length_utf8_char_pos [of c] by linarith
  then show ?case using Cons.IH by (simp del: length_greater_0_conv)
qed simp

end
