(* ===== verification/Factors.thy ===== *)
theory Factors
  imports Cbor_Ref Utf8
begin

section \<open>TS12 authentication factors: src/factors.rs\<close>

text \<open>
  The vocabulary of authentication factors, the factor set of one sign with its shortfall, the
  classification of a typed secret, the callback wrapper that records what was typed, and
  \<open>derive_factors\<close>, which every signing plugin ends in. The lemmas show that a factor set reports
  no shortfall exactly when two different categories were established, and that only vocabulary
  methods are ever counted.
\<close>

datatype factor_category = Knowledge | Possession | Inherence

fun category_as_str :: "factor_category \<Rightarrow> string" where
  "category_as_str Knowledge = ''knowledge''"
| "category_as_str Possession = ''possession''"
| "category_as_str Inherence = ''inherence''"

fun category_methods :: "factor_category \<Rightarrow> string list" where
  "category_methods Knowledge =
     [''pin_less_than_6_digits'', ''pin_6_or_more_digits'', ''passphrase_less_than_8_chars'',
      ''passphrase_8_to_11_chars'', ''passphrase_12_or_more_chars'', ''pattern'', ''other'']"
| "category_methods Possession =
     [''key_in_remote_wscd'', ''key_in_local_external_wscd'', ''key_in_local_internal_wscd'',
      ''key_in_local_native_wscd'', ''other'']"
| "category_methods Inherence =
     [''fingerprint_device'', ''fingerprint_external'', ''face_device'', ''face_external'', ''other'']"

record auth_factor =
  af_category :: factor_category
  af_method :: string

definition in_vocabulary :: "auth_factor \<Rightarrow> bool" where
  "in_vocabulary f \<longleftrightarrow> af_method f \<in> set (category_methods (af_category f))"

text \<open>\<open>AuthFactor::new\<close> validates; \<open>AuthFactor::known\<close> is for the crate's own constants.\<close>

definition single_quote :: string where
  "single_quote = [CHR 0x27]"

definition auth_factor_new :: "factor_category \<Rightarrow> string \<Rightarrow> auth_factor wres" where
  "auth_factor_new c m =
     (if m \<notin> set (category_methods c)
      then Inl (Plugin (single_quote @ m @ single_quote @ '' is not a TS12 '' @ category_as_str c
             @ '' method''))
      else Inr \<lparr>af_category = c, af_method = m\<rparr>)"

definition auth_factor_known :: "factor_category \<Rightarrow> string \<Rightarrow> auth_factor" where
  "auth_factor_known c m = \<lparr>af_category = c, af_method = m\<rparr>"

lemma auth_factor_new_ok [simp]:
  "auth_factor_new c m = Inr f \<longleftrightarrow> f = \<lparr>af_category = c, af_method = m\<rparr> \<and> in_vocabulary f"
  by (auto simp: auth_factor_new_def in_vocabulary_def)

subsection \<open>The factors of one sign\<close>

record auth_factors =
  fs_factors :: "auth_factor list"
  fs_shortfall :: "string option"

text \<open>The loop of \<open>satisfies_two_categories\<close>: the categories in order of first appearance.\<close>

fun seen_categories :: "factor_category list \<Rightarrow> auth_factor list \<Rightarrow> factor_category list" where
  "seen_categories seen [] = seen"
| "seen_categories seen (f # fs) =
     (if af_category f \<in> set seen then seen_categories seen fs
      else seen_categories (seen @ [af_category f]) fs)"

definition satisfies_two_categories :: "auth_factor list \<Rightarrow> bool" where
  "satisfies_two_categories fs \<longleftrightarrow> length (seen_categories [] fs) \<ge> 2"

text \<open>The loop of \<open>AuthFactors::new\<close>: keeps the vocabulary's factors once each, in order; a factor
  outside the vocabulary is dropped and replaces the shortfall.\<close>

fun collect_factors ::
  "auth_factor list \<Rightarrow> string option \<Rightarrow> auth_factor list \<Rightarrow> auth_factor list \<times> string option" where
  "collect_factors unique sf [] = (unique, sf)"
| "collect_factors unique sf (f # fs) =
     (if af_method f \<notin> set (category_methods (af_category f))
      then collect_factors unique
        (Some (single_quote @ af_method f @ single_quote @ '' is not a TS12 ''
           @ category_as_str (af_category f) @ '' method and was not counted'')) fs
      else if f \<notin> set unique then collect_factors (unique @ [f]) sf fs
      else collect_factors unique sf fs)"

definition auth_factors_new :: "auth_factor list \<Rightarrow> string option \<Rightarrow> auth_factors" where
  "auth_factors_new factors shortfall =
     (case collect_factors [] shortfall factors of (unique, sf) \<Rightarrow>
        if satisfies_two_categories unique
        then \<lparr>fs_factors = unique, fs_shortfall = None\<rparr>
        else \<lparr>fs_factors = unique, fs_shortfall =
               Some (case sf of Some r \<Rightarrow> r | None \<Rightarrow>
                 ''fewer than two distinct authentication categories were applied'')\<rparr>)"

definition auth_factors_none :: "string \<Rightarrow> auth_factors" where
  "auth_factors_none reason = auth_factors_new [] (Some reason)"

lemma set_seen_categories: "set (seen_categories seen fs) = set seen \<union> af_category ` set fs"
  by (induction fs arbitrary: seen) auto

lemma distinct_seen_categories: "distinct seen \<Longrightarrow> distinct (seen_categories seen fs)"
  by (induction fs arbitrary: seen) auto

lemma satisfies_two_categories_card:
  "satisfies_two_categories fs \<longleftrightarrow> 2 \<le> card (af_category ` set fs)"
  unfolding satisfies_two_categories_def
  using distinct_card [OF distinct_seen_categories [of "[]" fs]]
  by (simp add: set_seen_categories)

lemma satisfies_two_categories_iff:
  "satisfies_two_categories fs \<longleftrightarrow>
     (\<exists>f g. f \<in> set fs \<and> g \<in> set fs \<and> af_category f \<noteq> af_category g)"
proof
  assume "satisfies_two_categories fs"
  then have c: "2 \<le> card (af_category ` set fs)" by (simp add: satisfies_two_categories_card)
  then obtain a b where "a \<in> af_category ` set fs" "b \<in> af_category ` set fs" "a \<noteq> b"
    using card_le_Suc0_iff_eq [of "af_category ` set fs"] by force
  then show "\<exists>f g. f \<in> set fs \<and> g \<in> set fs \<and> af_category f \<noteq> af_category g" by auto
next
  assume "\<exists>f g. f \<in> set fs \<and> g \<in> set fs \<and> af_category f \<noteq> af_category g"
  then obtain f g where fg: "f \<in> set fs" "g \<in> set fs" "af_category f \<noteq> af_category g"
    by blast
  then have "{af_category f, af_category g} \<subseteq> af_category ` set fs" by simp
  then have "2 \<le> card (af_category ` set fs)"
    using card_mono [of "af_category ` set fs" "{af_category f, af_category g}"] fg(3)
    by simp
  then show "satisfies_two_categories fs" by (simp add: satisfies_two_categories_card)
qed

lemma collect_factors_set:
  "set (fst (collect_factors unique sf fs)) = set unique \<union> {f \<in> set fs. in_vocabulary f}"
  by (induction unique sf fs rule: collect_factors.induct) (auto simp: in_vocabulary_def)

lemma collect_factors_distinct: "distinct unique \<Longrightarrow> distinct (fst (collect_factors unique sf fs))"
  by (induction unique sf fs rule: collect_factors.induct) auto

lemma set_auth_factors_new:
  "set (fs_factors (auth_factors_new fs sf)) = {f \<in> set fs. in_vocabulary f}"
  using collect_factors_set [of "[]" sf fs]
  by (cases "collect_factors [] sf fs") (simp add: auth_factors_new_def)

lemma distinct_auth_factors_new: "distinct (fs_factors (auth_factors_new fs sf))"
  using collect_factors_distinct [of "[]" sf fs]
  by (cases "collect_factors [] sf fs") (simp add: auth_factors_new_def)

lemma auth_factors_new_shortfall:
  "fs_shortfall (auth_factors_new fs sf) = None \<longleftrightarrow>
     satisfies_two_categories (fs_factors (auth_factors_new fs sf))"
  by (cases "collect_factors [] sf fs") (simp add: auth_factors_new_def)

subsection \<open>Options and capability\<close>

record sign_options =
  so_require_fresh :: bool
  so_host_factor :: "auth_factor option"

definition default_sign_options :: sign_options where
  "default_sign_options = \<lparr>so_require_fresh = False, so_host_factor = None\<rparr>"

definition validate_options :: "sign_options \<Rightarrow> unit wres" where
  "validate_options opts =
     (case so_host_factor opts of
        None \<Rightarrow> Inr ()
      | Some f \<Rightarrow>
          if af_category f = Possession
          then Inl (Plugin ''host_verified_factor must be a knowledge or inherence factor'')
          else rbind (auth_factor_new (af_category f) (af_method f)) (\<lambda>_. Inr ()))"

lemma validate_options_ok:
  "validate_options opts = Inr () \<longleftrightarrow>
     (\<forall>f. so_host_factor opts = Some f \<longrightarrow> af_category f \<noteq> Possession \<and> in_vocabulary f)"
  by (auto simp: validate_options_def rbind_eq_Inr in_vocabulary_def auth_factor_new_def
      split: option.splits)

record sign_outcome =
  out_signature :: bytes
  out_factors :: auth_factors

record factor_capability =
  fc_can_reach :: bool
  fc_requires_host_factor :: bool
  fc_reason :: "string option"

definition capability_cannot :: "string \<Rightarrow> factor_capability" where
  "capability_cannot r =
     \<lparr>fc_can_reach = False, fc_requires_host_factor = False, fc_reason = Some r\<rparr>"

definition capability_can :: factor_capability where
  "capability_can = \<lparr>fc_can_reach = True, fc_requires_host_factor = False, fc_reason = None\<rparr>"

definition capability_with_host_factor :: "string \<Rightarrow> factor_capability" where
  "capability_with_host_factor r =
     \<lparr>fc_can_reach = False, fc_requires_host_factor = True, fc_reason = Some r\<rparr>"

subsection \<open>Classifying a typed secret\<close>

definition is_ascii_digit :: "nat \<Rightarrow> bool" where
  "is_ascii_digit c \<longleftrightarrow> 48 \<le> c \<and> c \<le> 57"

definition classify_chars :: "nat list \<Rightarrow> string option" where
  "classify_chars cs =
     (let n = length cs in
      if n = 0 then None
      else Some
        (if list_all is_ascii_digit cs
         then (if n < 6 then ''pin_less_than_6_digits'' else ''pin_6_or_more_digits'')
         else if n < 8 then ''passphrase_less_than_8_chars''
         else if n < 12 then ''passphrase_8_to_11_chars''
         else ''passphrase_12_or_more_chars''))"

definition classify_secret :: "bytes \<Rightarrow> string option" where
  "classify_secret secret =
     (case utf8_decode secret of None \<Rightarrow> None | Some cs \<Rightarrow> classify_chars cs)"

text \<open>\<open>ctap2_client_pin::normalize_pin\<close>: NFC when the PIN is UTF-8, unchanged otherwise.\<close>

definition normalize_pin :: "externals \<Rightarrow> bytes \<Rightarrow> bytes" where
  "normalize_pin X pin =
     (case utf8_decode pin of Some cs \<Rightarrow> utf8_encode (nfc X cs) | None \<Rightarrow> pin)"

definition classify_pin :: "externals \<Rightarrow> string \<Rightarrow> bytes \<Rightarrow> string option" where
  "classify_pin X plugin_id secret =
     (if plugin_id = ''fido2'' then classify_secret (normalize_pin X secret)
      else classify_secret secret)"

lemma classify_chars_vocabulary:
  "classify_chars cs = Some m \<Longrightarrow> m \<in> set (category_methods Knowledge)"
  by (auto simp: classify_chars_def Let_def split: if_splits)

lemma classify_secret_vocabulary:
  "classify_secret s = Some m \<Longrightarrow> in_vocabulary \<lparr>af_category = Knowledge, af_method = m\<rparr>"
  by (auto simp: classify_secret_def in_vocabulary_def simp del: category_methods.simps
      split: option.splits dest: classify_chars_vocabulary)

subsection \<open>Recording what was typed\<close>

text \<open>
  \<open>RecordingAuth\<close> owns a list of the classes of the PINs typed, so the wrapped callback acts on
  the pair of that list and the world.
\<close>

type_synonym pin_log = "string option list"

definition record_pin :: "externals \<Rightarrow> string \<Rightarrow> ('w, bytes) weff \<Rightarrow> (pin_log \<times> 'w, bytes) weff" where
  "record_pin X plugin_id ask =
     ebind (on_snd ask) (\<lambda>secret.
       ebind (emodify (\<lambda>(log, w). (log @ [classify_pin X plugin_id secret], w))) (\<lambda>_.
         ereturn secret))"

definition recording_auth :: "externals \<Rightarrow> 'w auth_callback \<Rightarrow> (pin_log \<times> 'w) auth_callback" where
  "recording_auth X a =
     \<lparr>request_pin = (\<lambda>pid. record_pin X pid (request_pin a pid)),
      request_pin_for = (\<lambda>pid kind. record_pin X pid (request_pin_for a pid kind)),
      request_webauthn_assertion = (\<lambda>pid ch rp al. on_snd (request_webauthn_assertion a pid ch rp al))\<rparr>"

definition last_pin :: "pin_log \<Rightarrow> string option option" where
  "last_pin log = list_last log"

definition log_classified :: "pin_log \<Rightarrow> bool" where
  "log_classified log \<longleftrightarrow>
     (\<forall>m. Some m \<in> set log \<longrightarrow> in_vocabulary \<lparr>af_category = Knowledge, af_method = m\<rparr>)"

lemma classify_pin_vocabulary:
  "classify_pin X p s = Some m \<Longrightarrow> in_vocabulary \<lparr>af_category = Knowledge, af_method = m\<rparr>"
  by (auto simp: classify_pin_def split: if_splits dest: classify_secret_vocabulary)

lemma record_pin_log:
  "record_pin X pid ask (log, w) = (r, (log', w')) \<Longrightarrow>
     (\<exists>s. r = Inr s \<and> log' = log @ [classify_pin X pid s]) \<or> (\<exists>e. r = Inl e \<and> log' = log)"
  by (cases r) (auto simp: record_pin_def eff_elims)

subsection \<open>Deriving the factors of a sign\<close>

definition derive_factors ::
  "string \<Rightarrow> string option option \<Rightarrow> bool \<Rightarrow> auth_factor option \<Rightarrow> sign_options \<Rightarrow> string
   \<Rightarrow> auth_factors" where
  "derive_factors possession pin uv_observed plugin_factor opts no_second_reason =
     (let possessed = auth_factor_known Possession possession in
      case (case pin of
              Some (Some m) \<Rightarrow> ([possessed, auth_factor_known Knowledge m], None)
            | Some None \<Rightarrow> ([possessed],
                Some ''the PIN entered for this sign could not be classified'')
            | None \<Rightarrow>
                if uv_observed then
                  (case or_else plugin_factor (so_host_factor opts) of
                     Some f \<Rightarrow> ([possessed, f], None)
                   | None \<Rightarrow> ([possessed],
                       Some (''user verification was performed but its method is not reported; ''
                         @ ''the host must supply host_verified_factor'')))
                else ([possessed], Some no_second_reason))
      of (factors, shortfall) \<Rightarrow> auth_factors_new factors shortfall)"

text \<open>The second factor the code may add: measured, then plugin-derived, then host-asserted.\<close>

definition second_factor ::
  "string option option \<Rightarrow> bool \<Rightarrow> auth_factor option \<Rightarrow> sign_options \<Rightarrow> auth_factor option" where
  "second_factor pin uv plugin_factor opts =
     (case pin of
        Some (Some m) \<Rightarrow> Some \<lparr>af_category = Knowledge, af_method = m\<rparr>
      | Some None \<Rightarrow> None
      | None \<Rightarrow> if uv then or_else plugin_factor (so_host_factor opts) else None)"

lemma derive_factors_set:
  "set (fs_factors (derive_factors p pin uv pf opts r)) =
     {f \<in> insert \<lparr>af_category = Possession, af_method = p\<rparr> (set_option (second_factor pin uv pf opts)).
        in_vocabulary f}"
  by (auto simp: derive_factors_def second_factor_def auth_factor_known_def set_auth_factors_new
      Let_def split: option.splits)

lemma derive_factors_shortfall:
  "fs_shortfall (derive_factors p pin uv pf opts r) = None \<longleftrightarrow>
     satisfies_two_categories (fs_factors (derive_factors p pin uv pf opts r))"
  by (auto simp: derive_factors_def Let_def auth_factors_new_shortfall split: prod.splits)

lemma derive_factors_two_categories:
  assumes "p \<in> set (category_methods Possession)"
  shows "fs_shortfall (derive_factors p pin uv pf opts r) = None \<longleftrightarrow>
    (\<exists>f. second_factor pin uv pf opts = Some f \<and> in_vocabulary f \<and> af_category f \<noteq> Possession)"
proof -
  have p: "in_vocabulary \<lparr>af_category = Possession, af_method = p\<rparr>"
    using assms by (simp add: in_vocabulary_def)
  show ?thesis
    unfolding derive_factors_shortfall satisfies_two_categories_iff derive_factors_set
    using p by (cases "second_factor pin uv pf opts") (auto, metis auth_factor.select_convs(1))
qed

subsection \<open>Properties\<close>

text \<open>C29: the factors of a sign. Whatever candidate factors and shortfall it is given, the set
  reported has exactly the candidates of the TS12 vocabulary, each once, and it reports no shortfall
  exactly when two of them are of different categories.\<close>

theorem factor_set_sound_and_complete:
  "set (fs_factors (auth_factors_new fs sf)) = {f \<in> set fs. in_vocabulary f} \<and>
   distinct (fs_factors (auth_factors_new fs sf)) \<and>
   (fs_shortfall (auth_factors_new fs sf) = None \<longleftrightarrow>
      (\<exists>f g. f \<in> set fs \<and> g \<in> set fs \<and> in_vocabulary f \<and> in_vocabulary g \<and>
         af_category f \<noteq> af_category g))"
  by (auto simp: set_auth_factors_new distinct_auth_factors_new auth_factors_new_shortfall
      satisfies_two_categories_iff)

text \<open>Classifying a typed secret. On the UTF-8 encoding of Unicode scalars the class is decided
  by the number of characters (not bytes) and by whether all are ASCII digits: a PIN of six or more
  digits, a passphrase of twelve or more characters, and no class for the empty secret.\<close>

lemma secret_classes:
  assumes "list_all is_scalar cs"
  shows "(classify_secret (utf8_encode cs) = None \<longleftrightarrow> cs = []) \<and>
    (classify_secret (utf8_encode cs) = Some ''pin_6_or_more_digits'' \<longleftrightarrow>
       6 \<le> length cs \<and> list_all is_ascii_digit cs) \<and>
    (classify_secret (utf8_encode cs) = Some ''pin_less_than_6_digits'' \<longleftrightarrow>
       cs \<noteq> [] \<and> length cs < 6 \<and> list_all is_ascii_digit cs) \<and>
    (classify_secret (utf8_encode cs) = Some ''passphrase_12_or_more_chars'' \<longleftrightarrow>
       12 \<le> length cs \<and> \<not> list_all is_ascii_digit cs) \<and>
    (classify_secret (utf8_encode cs) = Some ''passphrase_8_to_11_chars'' \<longleftrightarrow>
       8 \<le> length cs \<and> length cs < 12 \<and> \<not> list_all is_ascii_digit cs) \<and>
    (classify_secret (utf8_encode cs) = Some ''passphrase_less_than_8_chars'' \<longleftrightarrow>
       length cs < 8 \<and> \<not> list_all is_ascii_digit cs)"
proof -
  have "classify_secret (utf8_encode cs) = classify_chars cs"
    by (simp add: classify_secret_def utf8_decode_encode [OF assms])
  then show ?thesis by (cases "cs = []") (auto simp: classify_chars_def Let_def)
qed

end
