(* ===== verification/Plugin_Iface.thy ===== *)
theory Plugin_Iface
  imports Factors
begin

section \<open>The plugin interface: src/traits.rs and src/plugins/mod.rs\<close>

text \<open>
  \<open>plugin_ops\<close> is the method table of \<open>dyn WscdPlugin\<close>. A method that changes the plugin's state
  runs on the pair of that state \<open>'p\<close> and the outside world \<open>'w\<close>; a synchronous query reads the
  state. \<open>default_plugin_ops\<close> has the trait's default bodies.

  \<open>key_store\<close> is the contract the manager relies on: which keys a plugin holds, how generation and
  deletion change that, and that nothing else does. \<open>managed_store\<close> adds what import and the four lifecycle
  operations do to the keys. Its consequence for sequences of operations, an exact ledger of the keys held, is
  proved once, in the locale, and every plugin of the crate that holds its own keys is an interpretation of both.
\<close>

subsection \<open>Lifecycle contexts\<close>

record lifecycle_context =
  lc_factor_kind :: factor_kind
  lc_state :: lifecycle_state
  lc_updated_at :: int
  lc_key_ids :: "key_id list"

type_synonym lifecycle_map = "(string, lifecycle_context) hashmap"

definition lifecycle_status_fields ::
  "string \<Rightarrow> string \<Rightarrow> (factor_kind \<times> lifecycle_state \<times> int) option \<Rightarrow> lifecycle_status wres" where
  "lifecycle_status_fields plugin_id context_id found =
     rbind (ok_or (KeyNotFound context_id) found) (\<lambda>(fk, st, t).
       Inr \<lparr>ls_context_id = context_id, ls_plugin_id = plugin_id, ls_factor_kind = fk,
            ls_state = st, ls_updated_at = t\<rparr>)"

definition context_entry :: "lifecycle_map \<Rightarrow> string \<Rightarrow> (factor_kind \<times> lifecycle_state \<times> int) option" where
  "context_entry m cid = map_option (\<lambda>c. (lc_factor_kind c, lc_state c, lc_updated_at c)) (hm_get m cid)"

definition activate_lifecycle_context :: "lifecycle_map \<Rightarrow> string \<Rightarrow> int \<Rightarrow> lifecycle_map wres" where
  "activate_lifecycle_context m cid now =
     rbind (ok_or (KeyNotFound cid) (hm_get m cid)) (\<lambda>c.
       Inr (hm_insert cid (c\<lparr>lc_state := Active, lc_updated_at := now\<rparr>) m))"

text \<open>The map with the key pushed, and the context as it then is.\<close>

definition rotate_lifecycle_push_key ::
  "lifecycle_map \<Rightarrow> string \<Rightarrow> key_id \<Rightarrow> int \<Rightarrow> (lifecycle_map \<times> lifecycle_context) wres" where
  "rotate_lifecycle_push_key m cid new_kid now =
     rbind (ok_or (KeyNotFound cid) (hm_get m cid)) (\<lambda>c.
       let c' = c\<lparr>lc_key_ids := lc_key_ids c @ [new_kid], lc_updated_at := now\<rparr>
       in Inr (hm_insert cid c' m, c'))"

text \<open>The stale keys handed to \<open>purge_stale_keys\<close>, and the new map with the outcome.\<close>

definition register_lifecycle_context ::
  "lifecycle_map \<Rightarrow> string \<Rightarrow> factor_kind \<Rightarrow> key_id \<Rightarrow> int
   \<Rightarrow> key_id list \<times> lifecycle_map \<times> lifecycle_outcome" where
  "register_lifecycle_context m cid fk new_kid now =
     ((case hm_get m cid of Some old \<Rightarrow> lc_key_ids old | None \<Rightarrow> []),
      hm_insert cid \<lparr>lc_factor_kind = fk, lc_state = Registered, lc_updated_at = now,
                     lc_key_ids = [new_kid]\<rparr> m,
      \<lparr>lo_context_id = cid, lo_state = Registered\<rparr>)"

text \<open>\<open>if let Some(ctx) = get_mut(id)\<close>: mark destroyed and drop the key list.\<close>

definition destroy_context :: "lifecycle_map \<Rightarrow> string \<Rightarrow> int \<Rightarrow> lifecycle_map" where
  "destroy_context m cid now =
     (case hm_get m cid of
        Some c \<Rightarrow> hm_insert cid (c\<lparr>lc_state := Destroyed, lc_updated_at := now, lc_key_ids := []\<rparr>) m
      | None \<Rightarrow> m)"

definition context_key_ids :: "lifecycle_map \<Rightarrow> string \<Rightarrow> key_id list wres" where
  "context_key_ids m cid = ok_or (KeyNotFound cid) (map_option lc_key_ids (hm_get m cid))"


subsection \<open>Key identifiers\<close>

definition thumbprint_members :: "string \<Rightarrow> string list option" where
  "thumbprint_members kty =
     (if kty = ''EC'' then Some [''crv'', ''kty'', ''x'', ''y'']
      else if kty = ''OKP'' then Some [''crv'', ''kty'', ''x'']
      else if kty = ''RSA'' then Some [''e'', ''kty'', ''n'']
      else if kty = ''oct'' then Some [''k'', ''kty'']
      else None)"

fun thumbprint_loop ::
  "externals \<Rightarrow> json \<Rightarrow> string \<Rightarrow> nat \<Rightarrow> string \<Rightarrow> string list \<Rightarrow> string wres" where
  "thumbprint_loop X jwk kty i canonical [] = Inr canonical"
| "thumbprint_loop X jwk kty i canonical (name # names) =
     rbind (ok_or (Plugin (''JWK of kty '' @ kty @ '' is missing '' @ name))
       (Option.bind (json_get jwk name) json_as_str)) (\<lambda>v.
       thumbprint_loop X jwk kty (Suc i)
         (canonical @ (if i > 0 then '','' else '''') @ json_string X name @ '':'' @ json_string X v)
         names)"

definition thumbprint_input :: "externals \<Rightarrow> json \<Rightarrow> string wres" where
  "thumbprint_input X jwk =
     rbind (ok_or (Plugin ''JWK has no kty'') (Option.bind (json_get jwk ''kty'') json_as_str)) (\<lambda>kty.
     rbind (ok_or (Plugin (''cannot compute a thumbprint for kty '' @ kty)) (thumbprint_members kty))
       (\<lambda>members.
     rbind (thumbprint_loop X jwk kty 0 ''{'' members) (\<lambda>c. Inr (c @ ''}''))))"

definition jwk_thumbprint :: "externals \<Rightarrow> json \<Rightarrow> string wres" where
  "jwk_thumbprint X jwk =
     rbind (thumbprint_input X jwk) (\<lambda>canonical.
       Inr (b64url_enc X (sha256 X (as_bytes canonical))))"

text \<open>The public JWK of an elliptic-curve key, as every plugin builds it.\<close>

definition jwk_ec :: "externals \<Rightarrow> string \<Rightarrow> bytes \<Rightarrow> bytes \<Rightarrow> json" where
  "jwk_ec X crv x y =
     JObject [(''kty'', JString ''EC''), (''crv'', JString crv),
              (''x'', JString (b64url_enc X x)), (''y'', JString (b64url_enc X y))]"

subsection \<open>Steps on a plugin's state\<close>

definition query :: "('p \<Rightarrow> 'a wres) \<Rightarrow> ('p \<times> 'w, 'a) weff" where
  "query f s = (f (fst s), s)"

definition get_state :: "('p \<times> 'w, 'p) weff" where
  "get_state s = (Inr (fst s), s)"

definition modify_state :: "('p \<Rightarrow> 'p) \<Rightarrow> ('p \<times> 'w, unit) weff" where
  "modify_state f s = (Inr (), (f (fst s), snd s))"

lemma query_eq [eff_elims]: "query f s = (r, t) \<longleftrightarrow> r = f (fst s) \<and> t = s"
  by (auto simp: query_def)

lemma get_state_eq [eff_elims]: "get_state s = (r, t) \<longleftrightarrow> r = Inr (fst s) \<and> t = s"
  by (auto simp: get_state_def)

lemma modify_state_eq [eff_elims]:
  "modify_state f s = (r, t) \<longleftrightarrow> r = Inr () \<and> t = (f (fst s), snd s)"
  by (auto simp: modify_state_def)

lemma ebind_state_steps [simp]:
  "ebind get_state g s = g (fst s) s"
  "ebind (modify_state f) h s = h () (f (fst s), snd s)"
  by (simp_all add: ebind_def get_state_def modify_state_def)

definition started :: "string \<Rightarrow> 'w env \<Rightarrow> ('p \<times> 'w, unit) weff" where
  "started op env = on_snd (on_progress env (Started op))"

definition completed :: "'w env \<Rightarrow> ('p \<times> 'w, unit) weff" where
  "completed env = on_snd (on_progress env Complete)"

lemma progress_steps_eq [eff_elims]:
  "started op env s = (r, t) \<longleftrightarrow> r = Inr () \<and> t = (fst s, env_progress env (Started op) (snd s))"
  "completed env s = (r, t) \<longleftrightarrow> r = Inr () \<and> t = (fst s, env_progress env Complete (snd s))"
  by (cases t; auto simp: started_def completed_def on_snd_def on_progress_def)+

lemma ebind_progress [simp]:
  "ebind (started op env) h s = h () (fst s, env_progress env (Started op) (snd s))"
  "ebind (completed env) h s = h () (fst s, env_progress env Complete (snd s))"
  by (simp_all add: ebind_def started_def completed_def on_snd_def on_progress_def)

text \<open>The stored key under a kid, or \<open>KeyNotFound\<close>.\<close>

definition find_key :: "(key_id, 'k) hashmap \<Rightarrow> key_id \<Rightarrow> 'k wres" where
  "find_key m kid = ok_or (KeyNotFound kid) (hm_get m kid)"

lemma find_key_simps [simp]:
  "find_key m kid = Inr k \<longleftrightarrow> hm_get m kid = Some k"
  "find_key m kid = Inl e \<longleftrightarrow> hm_get m kid = None \<and> e = KeyNotFound kid"
  by (auto simp: find_key_def)

lemma find_key_cases:
  "hm_get m kid = Some k \<Longrightarrow> find_key m kid = Inr k"
  "hm_get m kid = None \<Longrightarrow> find_key m kid = Inl (KeyNotFound kid)"
  by (simp_all add: find_key_def)

text \<open>A listing that names each key of a map once covers the map.\<close>

lemma listing_covers:
  assumes "map ki_kid infos = hm_keys m" and "hm_wf m"
  shows "ki_kid ` set infos = {k. hm_get m k \<noteq> None}" and "distinct (map ki_kid infos)"
proof -
  have "ki_kid ` set infos = set (map ki_kid infos)" by simp
  then show "ki_kid ` set infos = {k. hm_get m k \<noteq> None}" using assms(1) by (simp add: set_hm_keys)
  show "distinct (map ki_kid infos)" using assms by (simp add: distinct_hm_keys)
qed


lemma distinct_map_sort: "distinct (map g (sort_key f xs)) \<longleftrightarrow> distinct (map g xs)"
  by (simp only: distinct_map distinct_sort set_sort)

text \<open>Running a step with a fresh recorder and handing its log to the caller.\<close>

definition run_recorded ::
  "('p \<times> (pin_log \<times> 'w), 'a) weff \<Rightarrow> ('p \<times> 'w, 'a \<times> pin_log) weff" where
  "run_recorded m s =
     (case m (fst s, ([], snd s)) of
        (Inr x, (p, (log, w))) \<Rightarrow> (Inr (x, log), (p, w))
      | (Inl e, (p, (_, w))) \<Rightarrow> (Inl e, (p, w)))"

lemma run_recorded_eq:
  "run_recorded m (p, w) = (Inr (x, log), (p', w')) \<longleftrightarrow> m (p, ([], w)) = (Inr x, (p', (log, w')))"
  "run_recorded m (p, w) = (Inl e, (p', w')) \<longleftrightarrow> (\<exists>log. m (p, ([], w)) = (Inl e, (p', (log, w'))))"
  by (auto simp: run_recorded_def split: prod.splits sum.splits)

subsection \<open>The method table\<close>

record ('p, 'w) plugin_ops =
  po_id :: string
  po_auth_method :: auth_method
  po_generate_key :: "algorithm \<Rightarrow> 'w env \<Rightarrow> 'w auth_callback \<Rightarrow> ('p \<times> 'w, generated_key) weff"
  po_sign :: "key_id \<Rightarrow> bytes \<Rightarrow> algorithm \<Rightarrow> 'w env \<Rightarrow> 'w auth_callback \<Rightarrow> ('p \<times> 'w, bytes) weff"
  po_sign_with_factors :: "key_id \<Rightarrow> bytes \<Rightarrow> algorithm \<Rightarrow> sign_options \<Rightarrow> 'w env \<Rightarrow> 'w auth_callback
    \<Rightarrow> ('p \<times> 'w, sign_outcome) weff"
  po_authentication_capability :: "'p \<Rightarrow> key_id \<Rightarrow> factor_capability wres"
  po_list_keys :: "('p \<times> 'w, key_info list) weff"
  po_attestation_chain :: "key_id \<Rightarrow> ('p \<times> 'w, attestation_chain option) weff"
  po_delete_key :: "key_id \<Rightarrow> ('p \<times> 'w, unit) weff"
  po_export_public_key :: "key_id \<Rightarrow> ('p \<times> 'w, json) weff"
  po_supports_import :: bool
  po_import_key :: "algorithm \<Rightarrow> 'w env \<Rightarrow> 'w auth_callback \<Rightarrow> ('p \<times> 'w, migration_result) weff"
  po_security_properties :: "'p \<Rightarrow> key_id \<Rightarrow> security_properties wres"
  po_lifecycle_status :: "'p \<Rightarrow> string \<Rightarrow> lifecycle_status wres"
  po_register_lifecycle :: "register_request \<Rightarrow> 'w env \<Rightarrow> 'w auth_callback
    \<Rightarrow> ('p \<times> 'w, lifecycle_outcome) weff"
  po_activate_lifecycle :: "context_request \<Rightarrow> 'w env \<Rightarrow> 'w auth_callback
    \<Rightarrow> ('p \<times> 'w, lifecycle_outcome) weff"
  po_rotate_lifecycle :: "context_request \<Rightarrow> 'w env \<Rightarrow> 'w auth_callback
    \<Rightarrow> ('p \<times> 'w, lifecycle_outcome) weff"
  po_destroy_lifecycle :: "destroy_request \<Rightarrow> 'w env \<Rightarrow> 'w auth_callback
    \<Rightarrow> ('p \<times> 'w, destruction_outcome) weff"

text \<open>The default bodies of the trait.\<close>

definition default_sign_with_factors ::
  "string \<Rightarrow> (key_id \<Rightarrow> bytes \<Rightarrow> algorithm \<Rightarrow> 'w env \<Rightarrow> 'w auth_callback \<Rightarrow> ('p \<times> 'w, bytes) weff)
   \<Rightarrow> key_id \<Rightarrow> bytes \<Rightarrow> algorithm \<Rightarrow> sign_options \<Rightarrow> 'w env \<Rightarrow> 'w auth_callback
   \<Rightarrow> ('p \<times> 'w, sign_outcome) weff" where
  "default_sign_with_factors pid sign kid data alg opts env auth =
     ebind (elift (validate_options opts)) (\<lambda>_.
       if so_require_fresh opts then ethrow (Unsupported pid ''require_fresh_user_authentication'')
       else ebind (sign kid data alg env auth) (\<lambda>signature.
         ereturn \<lparr>out_signature = signature, out_factors = auth_factors_none
           (''plugin '' @ pid @ '' does not report TS12 authentication factors'')\<rparr>))"

lemma default_factors_frame:
  assumes "\<And>s. fst (snd (sign kid data alg env auth s)) = fst s"
    and "default_sign_with_factors pid sign kid data alg opts env auth (p, w) = (r, (p', w'))"
  shows "p' = p"
  using assms(2) assms(1) [of "(p, w)"] unfolding default_sign_with_factors_def
  by (cases r) (auto simp: eff_elims split: if_splits)

definition default_authentication_capability :: "string \<Rightarrow> 'p \<Rightarrow> key_id \<Rightarrow> factor_capability wres" where
  "default_authentication_capability pid p kid =
     Inr (capability_cannot (''plugin '' @ pid @ '' does not report TS12 authentication factors''))"

definition unsupported_op :: "string \<Rightarrow> string \<Rightarrow> 'r \<Rightarrow> 'w env \<Rightarrow> 'w auth_callback \<Rightarrow> ('s, 'a) weff" where
  "unsupported_op pid op request env auth = ethrow (Unsupported pid op)"

text \<open>\<open>lifecycle_status\<close> of a plugin that supports lifecycles, from its \<open>lifecycle_entry\<close>.\<close>

definition status_from_entry ::
  "string \<Rightarrow> ('p \<Rightarrow> string \<Rightarrow> (factor_kind \<times> lifecycle_state \<times> int) option)
   \<Rightarrow> 'p \<Rightarrow> string \<Rightarrow> lifecycle_status wres" where
  "status_from_entry pid entry p cid = lifecycle_status_fields pid cid (entry p cid)"

definition unsupported_status :: "string \<Rightarrow> 'p \<Rightarrow> string \<Rightarrow> lifecycle_status wres" where
  "unsupported_status pid p cid = Inl (Unsupported pid ''lifecycle_status'')"

subsection \<open>Thumbprints\<close>

text \<open>
  Documented behaviour of the JSON and base64 packages: a JSON string literal ends at its closing
  quote, so what follows it is determined; and base64url decodes what it encoded.
\<close>

definition json_strings_ok :: "externals \<Rightarrow> bool" where
  "json_strings_ok X \<longleftrightarrow>
     (\<forall>s t r q. json_string X s @ r = json_string X t @ q \<longrightarrow> s = t \<and> r = q)"

definition base64_ok :: "externals \<Rightarrow> bool" where
  "base64_ok X \<longleftrightarrow> (\<forall>b. b64url_dec X (b64url_enc X b) = Inr b)"

lemma json_strings_iff:
  "json_strings_ok X \<Longrightarrow> json_string X s @ r = json_string X t @ q \<longleftrightarrow> s = t \<and> r = q"
  unfolding json_strings_ok_def by blast

lemma base64_inject: "base64_ok X \<Longrightarrow> b64url_enc X a = b64url_enc X b \<longleftrightarrow> a = b"
  unfolding base64_ok_def by (metis Inr_inject)

text \<open>The value of a required member.\<close>

definition member_str :: "json \<Rightarrow> string \<Rightarrow> string option" where
  "member_str jwk name = Option.bind (json_get jwk name) json_as_str"

lemma thumbprint_loop_members:
  "(\<And>n. n \<in> set names \<Longrightarrow> member_str a n = member_str b n) \<Longrightarrow>
     thumbprint_loop X a kty i c names = thumbprint_loop X b kty i c names"
proof (induction names arbitrary: i c)
  case (Cons n ns)
  have "member_str a n = member_str b n" using Cons.prems by simp
  then show ?case using Cons by (cases "member_str b n") (simp_all add: member_str_def)
qed simp

text \<open>Only the key type and its required members matter.\<close>

lemma thumbprint_input_cong:
  assumes "member_str a ''kty'' = member_str b ''kty''"
    and "\<And>kty ms n. member_str a ''kty'' = Some kty \<Longrightarrow> thumbprint_members kty = Some ms \<Longrightarrow>
      n \<in> set ms \<Longrightarrow> member_str a n = member_str b n"
  shows "thumbprint_input X a = thumbprint_input X b"
proof (cases "member_str a ''kty''")
  case None
  then show ?thesis using assms(1) by (simp add: thumbprint_input_def member_str_def)
next
  case kty: (Some kty)
  show ?thesis
  proof (cases "thumbprint_members kty")
    case None
    then show ?thesis using assms(1) kty by (simp add: thumbprint_input_def member_str_def)
  next
    case (Some ms)
    have "thumbprint_loop X a kty i c ms = thumbprint_loop X b kty i c ms" for i c
      by (rule thumbprint_loop_members) (use assms(2) kty Some in blast)
    then show ?thesis using assms(1) Some kty by (simp add: thumbprint_input_def member_str_def)
  qed
qed

lemma thumbprint_input_ok:
  assumes "thumbprint_input X jwk = Inr c"
  obtains kty ms d where "member_str jwk ''kty'' = Some kty" "thumbprint_members kty = Some ms"
    "thumbprint_loop X jwk kty 0 ''{'' ms = Inr d" "c = d @ ''}''"
  using assms by (auto simp: thumbprint_input_def rbind_eq_Inr member_str_def)

lemma thumbprint_loop_ok:
  "thumbprint_loop X jwk kty i c (n # ns) = Inr d \<longleftrightarrow>
     (\<exists>v. member_str jwk n = Some v \<and>
        thumbprint_loop X jwk kty (Suc i)
          (c @ (if i > 0 then '','' else '''') @ json_string X n @ '':'' @ json_string X v) ns = Inr d)"
  by (simp add: rbind_eq_Inr member_str_def)

lemma thumbprint_members_cases:
  assumes "thumbprint_members kty = Some ms"
  obtains "kty = ''EC''" "ms = [''crv'', ''kty'', ''x'', ''y'']"
    | "kty = ''OKP''" "ms = [''crv'', ''kty'', ''x'']"
    | "kty = ''RSA''" "ms = [''e'', ''kty'', ''n'']"
    | "kty = ''oct''" "ms = [''k'', ''kty'']"
  using assms by (auto simp: thumbprint_members_def split: if_splits)

text \<open>The canonical text determines every required member.\<close>

lemma thumbprint_input_inject:
  assumes X: "json_strings_ok X"
    and a: "thumbprint_input X a = Inr c" and b: "thumbprint_input X b = Inr c"
  shows "\<exists>kty ms. member_str a ''kty'' = Some kty \<and> thumbprint_members kty = Some ms \<and>
    (\<forall>n \<in> set ms. member_str a n = member_str b n)"
proof -
  obtain ka ma d where A: "member_str a ''kty'' = Some ka" "thumbprint_members ka = Some ma"
    "thumbprint_loop X a ka 0 ''{'' ma = Inr d" "c = d @ ''}''" by (rule thumbprint_input_ok [OF a])
  obtain kb mb e where B: "member_str b ''kty'' = Some kb" "thumbprint_members kb = Some mb"
    "thumbprint_loop X b kb 0 ''{'' mb = Inr e" "c = e @ ''}''" by (rule thumbprint_input_ok [OF b])
  have de: "d = e" using A(4) B(4) by simp
  note js = json_strings_iff [OF X] json_strings_iff [OF X, of _ "[]" _ "[]", simplified]
    json_strings_iff [OF X, of _ _ _ "[]", simplified]
    json_strings_iff [OF X, of _ "[]", simplified]
  show ?thesis
    by (rule thumbprint_members_cases [OF A(2)]; rule thumbprint_members_cases [OF B(2)])
       (use A B de in \<open>auto simp del: thumbprint_loop.simps(2)
          simp: thumbprint_loop_ok js thumbprint_members_def\<close>)
qed


subsection \<open>The contract of a key store\<close>

locale key_store =
  fixes ops :: "('p, 'w) plugin_ops"
    and inv :: "'p \<Rightarrow> bool"
    and held :: "'p \<Rightarrow> key_id set"
  assumes generate_ok: "inv p \<Longrightarrow> po_generate_key ops alg env auth (p, w) = (Inr g, (p', w')) \<Longrightarrow>
      inv p' \<and> held p' = insert (gk_kid g) (held p)"
    and generate_err: "inv p \<Longrightarrow> po_generate_key ops alg env auth (p, w) = (Inl e, (p', w')) \<Longrightarrow> p' = p"
    and sign_frame: "inv p \<Longrightarrow> po_sign ops kid data alg env auth (p, w) = (r, (p', w')) \<Longrightarrow> p' = p"
    and sign_held: "inv p \<Longrightarrow> po_sign ops kid data alg env auth (p, w) = (Inr sig, (p', w')) \<Longrightarrow>
      kid \<in> held p"
    and factors_frame: "inv p \<Longrightarrow>
      po_sign_with_factors ops kid data alg opts env auth (p, w) = (ro, (p', w')) \<Longrightarrow> p' = p"
    and delete_ok: "inv p \<Longrightarrow> po_delete_key ops kid (p, w) = (Inr (), (p', w')) \<Longrightarrow>
      inv p' \<and> kid \<in> held p \<and> held p' = held p - {kid}"
    and delete_err: "inv p \<Longrightarrow> po_delete_key ops kid (p, w) = (Inl e, (p', w')) \<Longrightarrow> p' = p"
    and list_ok: "inv p \<Longrightarrow> po_list_keys ops (p, w) = (rl, (p', w')) \<Longrightarrow>
      p' = p \<and> (\<exists>infos. rl = Inr infos \<and> ki_kid ` set infos = held p \<and> distinct (map ki_kid infos) \<and>
        (\<forall>i \<in> set infos. ki_plugin_id i = po_id ops))"
    and attestation_frame: "inv p \<Longrightarrow> po_attestation_chain ops kid (p, w) = (ra, (p', w')) \<Longrightarrow> p' = p"
    and export_frame: "inv p \<Longrightarrow> po_export_public_key ops kid (p, w) = (re, (p', w')) \<Longrightarrow> p' = p"
    and secure_iff: "inv p \<Longrightarrow> is_ok (po_security_properties ops p kid) \<longleftrightarrow> kid \<in> held p"

subsection \<open>The history of a store's keys\<close>

text \<open>
  The requests a client can make to a plugin: every method of the trait that is given the plugin's state to
  change, lifecycle and import included, and the run of a list of them.
\<close>

datatype store_request =
    ReqGenerate algorithm
  | ReqImport algorithm
  | ReqSign key_id bytes algorithm
  | ReqSignFactors key_id bytes algorithm sign_options
  | ReqDelete key_id
  | ReqList
  | ReqAttestation key_id
  | ReqExport key_id
  | ReqRegister register_request
  | ReqActivate context_request
  | ReqRotate context_request
  | ReqDestroy destroy_request

definition perform ::
  "('p, 'w) plugin_ops \<Rightarrow> 'w env \<Rightarrow> 'w auth_callback \<Rightarrow> store_request \<Rightarrow> 'p \<times> 'w \<Rightarrow> 'p \<times> 'w" where
  "perform ops env auth req s =
     (case req of
        ReqGenerate alg \<Rightarrow> snd (po_generate_key ops alg env auth s)
      | ReqImport alg \<Rightarrow> snd (po_import_key ops alg env auth s)
      | ReqSign kid data alg \<Rightarrow> snd (po_sign ops kid data alg env auth s)
      | ReqSignFactors kid data alg opts \<Rightarrow> snd (po_sign_with_factors ops kid data alg opts env auth s)
      | ReqDelete kid \<Rightarrow> snd (po_delete_key ops kid s)
      | ReqList \<Rightarrow> snd (po_list_keys ops s)
      | ReqAttestation kid \<Rightarrow> snd (po_attestation_chain ops kid s)
      | ReqExport kid \<Rightarrow> snd (po_export_public_key ops kid s)
      | ReqRegister rq \<Rightarrow> snd (po_register_lifecycle ops rq env auth s)
      | ReqActivate cq \<Rightarrow> snd (po_activate_lifecycle ops cq env auth s)
      | ReqRotate cq \<Rightarrow> snd (po_rotate_lifecycle ops cq env auth s)
      | ReqDestroy dq \<Rightarrow> snd (po_destroy_lifecycle ops dq env auth s))"

fun perform_all ::
  "('p, 'w) plugin_ops \<Rightarrow> 'w env \<Rightarrow> 'w auth_callback \<Rightarrow> store_request list \<Rightarrow> 'p \<times> 'w \<Rightarrow> 'p \<times> 'w" where
  "perform_all ops env auth [] s = s"
| "perform_all ops env auth (r # rs) s = perform_all ops env auth rs (perform ops env auth r s)"

text \<open>
  The keys a request makes: those of the generation it runs, when it keeps them. A rotation of an unknown context
  fails after its generation, and its key stays; one that is not supported generates nothing.
\<close>

definition new_key :: "wscd_error + generated_key \<Rightarrow> key_id set" where
  "new_key r = (case r of Inr g \<Rightarrow> {gk_kid g} | Inl _ \<Rightarrow> {})"

definition imported_key :: "wscd_error + migration_result \<Rightarrow> key_id set" where
  "imported_key r = (case r of Inr (Migrated kid) \<Rightarrow> {kid} | _ \<Rightarrow> {})"

fun not_supported :: "wscd_error + 'a \<Rightarrow> bool" where
  "not_supported (Inl (Unsupported _ _)) = True"
| "not_supported _ = False"

definition generated_by ::
  "('p, 'w) plugin_ops \<Rightarrow> 'w env \<Rightarrow> 'w auth_callback \<Rightarrow> store_request \<Rightarrow> 'p \<times> 'w \<Rightarrow> key_id set" where
  "generated_by ops env auth req s =
     (case req of
        ReqGenerate alg \<Rightarrow> new_key (fst (po_generate_key ops alg env auth s))
      | ReqImport alg \<Rightarrow> imported_key (fst (po_import_key ops alg env auth s))
      | ReqRegister rq \<Rightarrow>
          if is_ok (fst (po_register_lifecycle ops rq env auth s))
          then new_key (fst (po_generate_key ops ES256 env auth s)) else {}
      | ReqRotate cq \<Rightarrow>
          if not_supported (fst (po_rotate_lifecycle ops cq env auth s)) then {}
          else new_key (fst (po_generate_key ops ES256 env auth s))
      | _ \<Rightarrow> {})"

text \<open>
  The keys a request removes, when it succeeds: the one it deletes, the keys \<open>listed\<close> by a context that is
  registered anew, and those \<open>purged\<close> with a context that is destroyed.
\<close>

definition lost_by ::
  "('p \<Rightarrow> string \<Rightarrow> key_id set) \<Rightarrow> ('p \<Rightarrow> string \<Rightarrow> key_id set) \<Rightarrow> ('p, 'w) plugin_ops \<Rightarrow> 'w env
   \<Rightarrow> 'w auth_callback \<Rightarrow> store_request \<Rightarrow> 'p \<times> 'w \<Rightarrow> key_id set" where
  "lost_by listed purged ops env auth req s =
     (case req of
        ReqDelete kid \<Rightarrow> if is_ok (fst (po_delete_key ops kid s)) then {kid} else {}
      | ReqRegister rq \<Rightarrow>
          if is_ok (fst (po_register_lifecycle ops rq env auth s)) then listed (fst s) (rr_context_id rq) else {}
      | ReqDestroy dq \<Rightarrow>
          if is_ok (fst (po_destroy_lifecycle ops dq env auth s)) then purged (fst s) (dr_context_id dq) else {}
      | _ \<Rightarrow> {})"

text \<open>The keys there must be after each request, from those before it.\<close>

fun key_ledger ::
  "('p \<Rightarrow> string \<Rightarrow> key_id set) \<Rightarrow> ('p \<Rightarrow> string \<Rightarrow> key_id set) \<Rightarrow> ('p, 'w) plugin_ops \<Rightarrow> 'w env
   \<Rightarrow> 'w auth_callback \<Rightarrow> store_request list \<Rightarrow> 'p \<times> 'w \<Rightarrow> key_id set \<Rightarrow> key_id set" where
  "key_ledger listed purged ops env auth [] s keys = keys"
| "key_ledger listed purged ops env auth (r # rs) s keys =
     key_ledger listed purged ops env auth rs (perform ops env auth r s)
       (keys \<union> generated_by ops env auth r s - lost_by listed purged ops env auth r s)"

fun generated_in ::
  "('p, 'w) plugin_ops \<Rightarrow> 'w env \<Rightarrow> 'w auth_callback \<Rightarrow> store_request list \<Rightarrow> 'p \<times> 'w \<Rightarrow> key_id set" where
  "generated_in ops env auth [] s = {}"
| "generated_in ops env auth (r # rs) s =
     generated_by ops env auth r s \<union> generated_in ops env auth rs (perform ops env auth r s)"

fun lost_in ::
  "('p \<Rightarrow> string \<Rightarrow> key_id set) \<Rightarrow> ('p \<Rightarrow> string \<Rightarrow> key_id set) \<Rightarrow> ('p, 'w) plugin_ops \<Rightarrow> 'w env
   \<Rightarrow> 'w auth_callback \<Rightarrow> store_request list \<Rightarrow> 'p \<times> 'w \<Rightarrow> key_id set" where
  "lost_in listed purged ops env auth [] s = {}"
| "lost_in listed purged ops env auth (r # rs) s =
     lost_by listed purged ops env auth r s \<union> lost_in listed purged ops env auth rs (perform ops env auth r s)"

lemma key_ledger_keeps:
  "keys - lost_in listed purged ops env auth reqs s \<subseteq> key_ledger listed purged ops env auth reqs s keys"
proof (induction reqs arbitrary: s keys)
  case (Cons r rs)
  show ?case
    using Cons [of "keys \<union> generated_by ops env auth r s - lost_by listed purged ops env auth r s"
        "perform ops env auth r s"] by auto
qed simp

lemma key_ledger_adds:
  "key_ledger listed purged ops env auth reqs s keys \<subseteq> keys \<union> generated_in ops env auth reqs s"
proof (induction reqs arbitrary: s keys)
  case (Cons r rs)
  show ?case
    using Cons [of "perform ops env auth r s"
        "keys \<union> generated_by ops env auth r s - lost_by listed purged ops env auth r s"] by auto
qed simp

locale managed_store = key_store +
  fixes listed :: "'a \<Rightarrow> string \<Rightarrow> key_id set"
    and purged :: "'a \<Rightarrow> string \<Rightarrow> key_id set"
  assumes import_effect: "inv p \<Longrightarrow> po_import_key ops alg env auth (p, w) = (ri, (p', w')) \<Longrightarrow>
      inv p' \<and> held p' = held p \<union> imported_key ri"
    and register_effect: "inv p \<Longrightarrow> po_register_lifecycle ops rq env auth (p, w) = (rr, (p', w')) \<Longrightarrow>
      inv p' \<and> held p' =
        (if is_ok rr then held p \<union> new_key (fst (po_generate_key ops ES256 env auth (p, w)))
           - listed p (rr_context_id rq) else held p)"
    and activate_effect: "inv p \<Longrightarrow> po_activate_lifecycle ops cq env auth (p, w) = (ra, (p', w')) \<Longrightarrow>
      inv p' \<and> held p' = held p"
    and rotate_effect: "inv p \<Longrightarrow> po_rotate_lifecycle ops cq env auth (p, w) = (rt, (p', w')) \<Longrightarrow>
      inv p' \<and> held p' =
        (if not_supported rt then held p
         else held p \<union> new_key (fst (po_generate_key ops ES256 env auth (p, w))))"
    and destroy_effect: "inv p \<Longrightarrow> po_destroy_lifecycle ops dq env auth (p, w) = (rd, (p', w')) \<Longrightarrow>
      inv p' \<and> held p' = (if is_ok rd then held p - purged p (dr_context_id dq) else held p)"
begin

lemma generate_effect:
  assumes "inv p" and "po_generate_key ops alg env auth (p, w) = (r, (p', w'))"
  shows "inv p' \<and> held p' = held p \<union> new_key r"
proof (cases r)
  case (Inl e)
  then have "p' = p" using generate_err [OF assms(1)] assms(2) by blast
  then show ?thesis using Inl assms(1) by (simp add: new_key_def)
next
  case (Inr g)
  then show ?thesis using generate_ok [OF assms(1)] assms(2) by (simp add: new_key_def)
qed

lemma delete_effect:
  assumes "inv p" and "po_delete_key ops kid (p, w) = (r, (p', w'))"
  shows "inv p' \<and> held p' = (if is_ok r then held p - {kid} else held p)"
proof (cases r)
  case (Inl e)
  then have "p' = p" using delete_err [OF assms(1)] assms(2) by blast
  then show ?thesis using Inl assms(1) by simp
next
  case (Inr u)
  then show ?thesis using delete_ok [OF assms(1)] assms(2) by (cases u) simp
qed

lemma perform_effect:
  assumes "inv p" and "perform ops env auth req (p, w) = (p', w')"
  shows "inv p' \<and> held p' = held p \<union> generated_by ops env auth req (p, w)
    - lost_by listed purged ops env auth req (p, w)"
proof (cases req)
  case (ReqGenerate alg)
  then show ?thesis
    using generate_effect [OF assms(1), of alg env auth w] assms(2)
    by (cases "po_generate_key ops alg env auth (p, w)") (simp add: perform_def generated_by_def lost_by_def)
next
  case (ReqImport alg)
  then show ?thesis
    using import_effect [OF assms(1), of alg env auth w] assms(2)
    by (cases "po_import_key ops alg env auth (p, w)") (simp add: perform_def generated_by_def lost_by_def)
next
  case (ReqSign kid data alg)
  then show ?thesis
    using sign_frame [OF assms(1), of kid data alg env auth w] assms
    by (cases "po_sign ops kid data alg env auth (p, w)") (simp add: perform_def generated_by_def lost_by_def)
next
  case (ReqSignFactors kid data alg opts)
  then show ?thesis
    using factors_frame [OF assms(1), of kid data alg opts env auth w] assms
    by (cases "po_sign_with_factors ops kid data alg opts env auth (p, w)")
      (simp add: perform_def generated_by_def lost_by_def)
next
  case (ReqDelete kid)
  then show ?thesis
    using delete_effect [OF assms(1), of kid w] assms(2)
    by (cases "po_delete_key ops kid (p, w)") (simp add: perform_def generated_by_def lost_by_def)
next
  case ReqList
  then show ?thesis
    using list_ok [OF assms(1), of w] assms
    by (cases "po_list_keys ops (p, w)") (simp add: perform_def generated_by_def lost_by_def)
next
  case (ReqAttestation kid)
  then show ?thesis
    using attestation_frame [OF assms(1), of kid w] assms
    by (cases "po_attestation_chain ops kid (p, w)") (simp add: perform_def generated_by_def lost_by_def)
next
  case (ReqExport kid)
  then show ?thesis
    using export_frame [OF assms(1), of kid w] assms
    by (cases "po_export_public_key ops kid (p, w)") (simp add: perform_def generated_by_def lost_by_def)
next
  case (ReqRegister rq)
  then show ?thesis
    using register_effect [OF assms(1), of rq env auth w] assms(2)
    by (cases "po_register_lifecycle ops rq env auth (p, w)") (simp add: perform_def generated_by_def lost_by_def)
next
  case (ReqActivate cq)
  then show ?thesis
    using activate_effect [OF assms(1), of cq env auth w] assms(2)
    by (cases "po_activate_lifecycle ops cq env auth (p, w)") (simp add: perform_def generated_by_def lost_by_def)
next
  case (ReqRotate cq)
  then show ?thesis
    using rotate_effect [OF assms(1), of cq env auth w] assms(2)
    by (cases "po_rotate_lifecycle ops cq env auth (p, w)") (simp add: perform_def generated_by_def lost_by_def)
next
  case (ReqDestroy dq)
  then show ?thesis
    using destroy_effect [OF assms(1), of dq env auth w] assms(2)
    by (cases "po_destroy_lifecycle ops dq env auth (p, w)") (simp add: perform_def generated_by_def lost_by_def)
qed

text \<open>After any requests the store holds exactly the keys of the ledger.\<close>

lemma key_history:
  "inv (fst s) \<Longrightarrow> inv (fst (perform_all ops env auth reqs s)) \<and>
     held (fst (perform_all ops env auth reqs s)) = key_ledger listed purged ops env auth reqs s (held (fst s))"
proof (induction reqs arbitrary: s)
  case (Cons req reqs)
  obtain p w p' w' where s: "s = (p, w)" "perform ops env auth req s = (p', w')" by (metis prod.collapse)
  have "inv p' \<and> held p' = held p \<union> generated_by ops env auth req (p, w)
      - lost_by listed purged ops env auth req (p, w)"
    using perform_effect Cons.prems s by simp
  then show ?case using Cons.IH [of "(p', w')"] s by simp
qed simp

end

subsection \<open>One method table for plugins of different types\<close>

text \<open>
  \<open>Arc<dyn WscdPlugin>\<close>: \<open>lift_ops\<close> makes a plugin's method table one over a type of states that
  has a constructor for each plugin (\<open>put_in\<close>, with the destructor \<open>take_out\<close>). A lifted table keeps the
  contract of a key store.
\<close>

definition lift_eff ::
  "('a \<Rightarrow> 's) \<Rightarrow> ('s \<Rightarrow> 'a option) \<Rightarrow> ('a \<times> 'w, 'r) weff \<Rightarrow> ('s \<times> 'w, 'r) weff" where
  "lift_eff put_in take_out f s =
     (case take_out (fst s) of
        None \<Rightarrow> (Inl (RustPanic ''method of another plugin''), s)
      | Some a \<Rightarrow> (case f (a, snd s) of (r, (a', w')) \<Rightarrow> (r, (put_in a', w'))))"

definition lift_query :: "('s \<Rightarrow> 'a option) \<Rightarrow> ('a \<Rightarrow> 'k \<Rightarrow> 'r wres) \<Rightarrow> 's \<Rightarrow> 'k \<Rightarrow> 'r wres" where
  "lift_query take_out f s k =
     (case take_out s of None \<Rightarrow> Inl (RustPanic ''method of another plugin'') | Some a \<Rightarrow> f a k)"

definition lift_ops ::
  "('a \<Rightarrow> 's) \<Rightarrow> ('s \<Rightarrow> 'a option) \<Rightarrow> ('a, 'w) plugin_ops \<Rightarrow> ('s, 'w) plugin_ops" where
  "lift_ops i p ops =
     \<lparr>po_id = po_id ops, po_auth_method = po_auth_method ops,
      po_generate_key = (\<lambda>alg env auth. lift_eff i p (po_generate_key ops alg env auth)),
      po_sign = (\<lambda>kid data alg env auth. lift_eff i p (po_sign ops kid data alg env auth)),
      po_sign_with_factors = (\<lambda>kid data alg opts env auth.
        lift_eff i p (po_sign_with_factors ops kid data alg opts env auth)),
      po_authentication_capability = lift_query p (po_authentication_capability ops),
      po_list_keys = lift_eff i p (po_list_keys ops),
      po_attestation_chain = (\<lambda>kid. lift_eff i p (po_attestation_chain ops kid)),
      po_delete_key = (\<lambda>kid. lift_eff i p (po_delete_key ops kid)),
      po_export_public_key = (\<lambda>kid. lift_eff i p (po_export_public_key ops kid)),
      po_supports_import = po_supports_import ops,
      po_import_key = (\<lambda>alg env auth. lift_eff i p (po_import_key ops alg env auth)),
      po_security_properties = lift_query p (po_security_properties ops),
      po_lifecycle_status = lift_query p (po_lifecycle_status ops),
      po_register_lifecycle = (\<lambda>r env auth. lift_eff i p (po_register_lifecycle ops r env auth)),
      po_activate_lifecycle = (\<lambda>r env auth. lift_eff i p (po_activate_lifecycle ops r env auth)),
      po_rotate_lifecycle = (\<lambda>r env auth. lift_eff i p (po_rotate_lifecycle ops r env auth)),
      po_destroy_lifecycle = (\<lambda>r env auth. lift_eff i p (po_destroy_lifecycle ops r env auth))\<rparr>"

lemma lift_ops_simps [simp]:
  "po_id (lift_ops i p ops) = po_id ops"
  "po_generate_key (lift_ops i p ops) = (\<lambda>alg env auth. lift_eff i p (po_generate_key ops alg env auth))"
  "po_sign (lift_ops i p ops) = (\<lambda>kid data alg env auth. lift_eff i p (po_sign ops kid data alg env auth))"
  "po_sign_with_factors (lift_ops i p ops) = (\<lambda>kid data alg opts env auth.
     lift_eff i p (po_sign_with_factors ops kid data alg opts env auth))"
  "po_list_keys (lift_ops i p ops) = lift_eff i p (po_list_keys ops)"
  "po_attestation_chain (lift_ops i p ops) = (\<lambda>kid. lift_eff i p (po_attestation_chain ops kid))"
  "po_delete_key (lift_ops i p ops) = (\<lambda>kid. lift_eff i p (po_delete_key ops kid))"
  "po_export_public_key (lift_ops i p ops) = (\<lambda>kid. lift_eff i p (po_export_public_key ops kid))"
  "po_security_properties (lift_ops i p ops) = lift_query p (po_security_properties ops)"
  by (simp_all add: lift_ops_def)

lemma lift_eff_iff:
  "p (i a) = Some a \<Longrightarrow>
     lift_eff i p f (i a, w) = (r, (s', w')) \<longleftrightarrow> (\<exists>a'. f (a, w) = (r, (a', w')) \<and> s' = i a')"
  by (auto simp: lift_eff_def split: prod.splits)

text \<open>The contract of a key store is kept by the lifted table.\<close>

lemma lift_key_store:
  assumes ks: "key_store ops inv0 held0"
    and take_put: "\<And>a. p (i a) = Some a"
    and good: "\<And>s. good s \<longleftrightarrow> (\<exists>a. s = i a \<and> inv0 a)"
    and held: "\<And>a. held (i a) = held0 a"
  shows "key_store (lift_ops i p ops) good held"
proof -
  note lift = lift_eff_iff [of p i, OF take_put]
  show ?thesis
  proof (unfold_locales, goal_cases)
    case 1
    then show ?case using key_store.generate_ok [OF ks] by (fastforce simp: good lift held)
  next
    case 2
    then show ?case using key_store.generate_err [OF ks] by (fastforce simp: good lift)
  next
    case 3
    then show ?case using key_store.sign_frame [OF ks] by (fastforce simp: good lift)
  next
    case 4
    then show ?case using key_store.sign_held [OF ks] by (fastforce simp: good lift held)
  next
    case 5
    then show ?case using key_store.factors_frame [OF ks] by (fastforce simp: good lift)
  next
    case 6
    then show ?case using key_store.delete_ok [OF ks] by (fastforce simp: good lift held)
  next
    case 7
    then show ?case using key_store.delete_err [OF ks] by (fastforce simp: good lift)
  next
    case 8
    then show ?case using key_store.list_ok [OF ks] by (fastforce simp: good lift held)
  next
    case 9
    then show ?case using key_store.attestation_frame [OF ks] by (fastforce simp: good lift)
  next
    case 10
    then show ?case using key_store.export_frame [OF ks] by (fastforce simp: good lift)
  next
    case (11 s kid)
    then show ?case using key_store.secure_iff [OF ks] by (auto simp: good held lift_query_def take_put)
  qed
qed

lemma lift_eff_fst: "p (i a) = Some a \<Longrightarrow> fst (lift_eff i p f (i a, w)) = fst (f (a, w))"
  by (simp add: lift_eff_def split: prod.split)

lemma lift_managed_store:
  assumes ms: "managed_store ops inv0 held0 listed0 purged0"
    and take_put: "\<And>a. p (i a) = Some a"
    and good: "\<And>s. good s \<longleftrightarrow> (\<exists>a. s = i a \<and> inv0 a)"
    and held: "\<And>a. held (i a) = held0 a"
    and contexts: "\<And>a. listed (i a) = listed0 a" "\<And>a. purged (i a) = purged0 a"
  shows "managed_store (lift_ops i p ops) good held listed purged"
proof -
  note lift = lift_eff_iff [of p i, OF take_put]
  note first = lift_eff_fst [of p i, OF take_put]
  show ?thesis
  proof (rule managed_store.intro [OF lift_key_store [OF managed_store.axioms(1) [OF ms] take_put good held]],
      unfold_locales, goal_cases)
    case 1
    then show ?case using managed_store.import_effect [OF ms]
      by (fastforce simp: lift_ops_def good lift held)
  next
    case (2 s rq env auth w r s' w')
    then obtain a a' where a: "s = i a" "inv0 a" "s' = i a'"
      "po_register_lifecycle ops rq env auth (a, w) = (r, (a', w'))"
      by (auto simp: lift_ops_def good lift)
    show ?case
      using managed_store.register_effect [OF ms a(2,4)] a(1,3) by (auto simp: good held contexts first)
  next
    case 3
    then show ?case using managed_store.activate_effect [OF ms]
      by (fastforce simp: lift_ops_def good lift held)
  next
    case (4 s cq env auth w r s' w')
    then obtain a a' where a: "s = i a" "inv0 a" "s' = i a'"
      "po_rotate_lifecycle ops cq env auth (a, w) = (r, (a', w'))"
      by (auto simp: lift_ops_def good lift)
    show ?case
      using managed_store.rotate_effect [OF ms a(2,4)] a(1,3) by (auto simp: good held first)
  next
    case (5 s dq env auth w r s' w')
    then obtain a a' where a: "s = i a" "inv0 a" "s' = i a'"
      "po_destroy_lifecycle ops dq env auth (a, w) = (r, (a', w'))"
      by (auto simp: lift_ops_def good lift)
    show ?case
      using managed_store.destroy_effect [OF ms a(2,4)] a(1,3) by (auto simp: good held contexts)
  qed
qed

subsection \<open>Properties\<close>

text \<open>A kid names one key. Two JWKs with the same thumbprint agree on the key type and on every
  member RFC 7638 requires for it, or the hash collides on two different canonical texts; members
  outside the required ones never matter.\<close>

lemma kid_determines_public_key:
  assumes "json_strings_ok X" and "base64_ok X"
    and a: "jwk_thumbprint X a = Inr kid" and b: "jwk_thumbprint X b = Inr kid"
  shows "(\<exists>kty ms. member_str a ''kty'' = Some kty \<and> thumbprint_members kty = Some ms \<and>
      (\<forall>n \<in> set ms. member_str a n = member_str b n)) \<or>
    (\<exists>c d. c \<noteq> d \<and> sha256 X (as_bytes c) = sha256 X (as_bytes d))"
proof -
  obtain c d where c: "thumbprint_input X a = Inr c" and d: "thumbprint_input X b = Inr d"
    and h: "b64url_enc X (sha256 X (as_bytes c)) = b64url_enc X (sha256 X (as_bytes d))"
    using a b by (auto simp: jwk_thumbprint_def rbind_eq_Inr)
  show ?thesis
  proof (cases "c = d")
    case True
    then show ?thesis using thumbprint_input_inject [OF assms(1) c] d by blast
  next
    case False
    then show ?thesis using h base64_inject [OF assms(2)] by blast
  qed
qed

lemma ref_json_strings_ok: "json_strings_ok ref_externals"
  unfolding json_strings_ok_def by (auto simp: ref_json_string_def dest: escaped_inject)

lemma ref_base64_ok: "base64_ok ref_externals"
  by (simp add: base64_ok_def ref_externals_def)

lemma jwk_ec_thumbprint:
  "jwk_thumbprint X (jwk_ec X crv x y) = Inr (b64url_enc X (sha256 X (as_bytes
     (''{'' @ json_string X ''crv'' @ '':'' @ json_string X crv @ '','' @ json_string X ''kty'' @ '':''
      @ json_string X ''EC'' @ '','' @ json_string X ''x'' @ '':'' @ json_string X (b64url_enc X x)
      @ '','' @ json_string X ''y'' @ '':'' @ json_string X (b64url_enc X y) @ ''}''))))"
  by (simp add: jwk_thumbprint_def thumbprint_input_def jwk_ec_def json_get_def json_as_str_def
      thumbprint_members_def)

lemma kid_determines_public_key_witness:
  "\<exists>kid. jwk_thumbprint ref_externals (jwk_ec ref_externals ''P-256'' [1] [2]) = Inr kid \<and>
     ((\<exists>kty ms. member_str (jwk_ec ref_externals ''P-256'' [1] [2]) ''kty'' = Some kty \<and>
         thumbprint_members kty = Some ms) \<or>
      (\<exists>c d. c \<noteq> d \<and> sha256 ref_externals (as_bytes c) = sha256 ref_externals (as_bytes d)))"
  using kid_determines_public_key [OF ref_json_strings_ok ref_base64_ok jwk_ec_thumbprint jwk_ec_thumbprint]
    jwk_ec_thumbprint by blast

end
