(* ===== verification/Manager.thy ===== *)
theory Manager
  imports Plugin_Iface
begin

section \<open>The manager: src/manager.rs\<close>

text \<open>
  \<open>WscdManager\<close> routes an operation on a key to the plugin that holds it: the key's binding, then the
  operation's default, then the global default. The state is the configuration and the map of
  registered plugins, each with its method table and its own state; an \<open>Arc<dyn WscdPlugin>\<close> is a
  pointer to an entry of that map, so running a method updates the entry (\<open>on_plugin\<close>).

  The central operation is \<open>generate_key_for_level\<close>, which keeps a key only when the plugin that made
  it vouches for the required level and deletes it otherwise. Its properties hold for every plugin
  that keeps the contract \<open>key_store\<close> (locale \<open>plugin_host\<close>).
\<close>

record ('p, 'w) manager =
  mg_config :: wscd_config
  mg_plugins :: "(string, ('p, 'w) plugin_ops \<times> 'p) hashmap"

definition manager_new :: "wscd_config \<Rightarrow> ('p, 'w) manager" where
  "manager_new config = \<lparr>mg_config = config, mg_plugins = []\<rparr>"

definition register_plugin ::
  "('p, 'w) plugin_ops \<Rightarrow> 'p \<Rightarrow> ('p, 'w) manager \<Rightarrow> ('p, 'w) manager" where
  "register_plugin ops st m = m\<lparr>mg_plugins := hm_insert (po_id ops) (ops, st) (mg_plugins m)\<rparr>"

subsection \<open>Routing\<close>

definition get_plugin :: "('p, 'w) manager \<Rightarrow> string \<Rightarrow> string wres" where
  "get_plugin m pid = (if hm_contains (mg_plugins m) pid then Inr pid else Inl (NoPlugin pid))"

definition resolve_for_key :: "('p, 'w) manager \<Rightarrow> key_id \<Rightarrow> string \<Rightarrow> string wres" where
  "resolve_for_key m kid op =
     (case hm_get (cfg_key_bindings (mg_config m)) kid of
        Some pid \<Rightarrow> get_plugin m pid
      | None \<Rightarrow>
          (case hm_get (cfg_operation_defaults (mg_config m)) op of
             Some pid \<Rightarrow> get_plugin m pid
           | None \<Rightarrow> get_plugin m (cfg_default_plugin (mg_config m))))"

definition resolve_for_generate :: "('p, 'w) manager \<Rightarrow> string wres" where
  "resolve_for_generate m =
     (case hm_get (cfg_operation_defaults (mg_config m)) ''generate_key'' of
        Some pid \<Rightarrow> get_plugin m pid
      | None \<Rightarrow> get_plugin m (cfg_default_plugin (mg_config m)))"

text \<open>Running a method of a resolved plugin.\<close>

definition on_plugin ::
  "string \<Rightarrow> (('p, 'w) plugin_ops \<Rightarrow> ('p \<times> 'w, 'a) weff) \<Rightarrow> (('p, 'w) manager \<times> 'w, 'a) weff" where
  "on_plugin pid f s =
     (case hm_get (mg_plugins (fst s)) pid of
        None \<Rightarrow> (Inl (NoPlugin pid), s)
      | Some (ops, st) \<Rightarrow>
          (case f ops (st, snd s) of
             (r, (st', w')) \<Rightarrow>
               (r, ((fst s)\<lparr>mg_plugins := hm_insert pid (ops, st') (mg_plugins (fst s))\<rparr>, w'))))"

definition plugin_query ::
  "('p, 'w) manager \<Rightarrow> string \<Rightarrow> (('p, 'w) plugin_ops \<Rightarrow> 'p \<Rightarrow> 'a wres) \<Rightarrow> 'a wres" where
  "plugin_query m pid f =
     (case hm_get (mg_plugins m) pid of None \<Rightarrow> Inl (NoPlugin pid) | Some (ops, st) \<Rightarrow> f ops st)"

definition routed ::
  "key_id \<Rightarrow> string \<Rightarrow> (('p, 'w) plugin_ops \<Rightarrow> ('p \<times> 'w, 'a) weff) \<Rightarrow> (('p, 'w) manager \<times> 'w, 'a) weff" where
  "routed kid op f =
     ebind get_state (\<lambda>m. ebind (elift (resolve_for_key m kid op)) (\<lambda>pid. on_plugin pid f))"

definition to_plugin ::
  "string \<Rightarrow> (('p, 'w) plugin_ops \<Rightarrow> ('p \<times> 'w, 'a) weff) \<Rightarrow> (('p, 'w) manager \<times> 'w, 'a) weff" where
  "to_plugin pid f = ebind get_state (\<lambda>m. ebind (elift (get_plugin m pid)) (\<lambda>pid. on_plugin pid f))"

definition bind_key :: "key_id \<Rightarrow> string \<Rightarrow> ('p, 'w) manager \<Rightarrow> ('p, 'w) manager" where
  "bind_key kid pid m =
     m\<lparr>mg_config := (mg_config m)\<lparr>cfg_key_bindings := hm_insert kid pid (cfg_key_bindings (mg_config m))\<rparr>\<rparr>"

definition unbind_key :: "key_id \<Rightarrow> ('p, 'w) manager \<Rightarrow> ('p, 'w) manager" where
  "unbind_key kid m =
     m\<lparr>mg_config := (mg_config m)\<lparr>cfg_key_bindings := hm_remove kid (cfg_key_bindings (mg_config m))\<rparr>\<rparr>"

abbreviation bound :: "('p, 'w) manager \<Rightarrow> key_id \<Rightarrow> string option" where
  "bound m kid \<equiv> hm_get (cfg_key_bindings (mg_config m)) kid"

text \<open>The loop of \<open>bind_keys\<close>: bindings made before a collision stay.\<close>

fun bind_keys :: "string \<Rightarrow> key_id list \<Rightarrow> ('p, 'w) manager \<Rightarrow> unit wres \<times> ('p, 'w) manager" where
  "bind_keys pid [] m = (Inr (), m)"
| "bind_keys pid (kid # kids) m =
     (case bound m kid of
        Some existing \<Rightarrow>
          if existing \<noteq> pid
          then (Inl (Plugin (''key '' @ kid @ '' is already bound to plugin '' @ existing
                  @ '', cannot bind it to '' @ pid)), m)
          else bind_keys pid kids (bind_key kid pid m)
      | None \<Rightarrow> bind_keys pid kids (bind_key kid pid m))"

definition plugin_ids :: "('p, 'w) manager \<Rightarrow> string list" where
  "plugin_ids m = hm_keys (mg_plugins m)"

subsection \<open>Generation\<close>

definition id_of_plugin :: "('p, 'w) manager \<Rightarrow> string \<Rightarrow> string" where
  "id_of_plugin m pid = (case hm_get (mg_plugins m) pid of Some (ops, _) \<Rightarrow> po_id ops | None \<Rightarrow> pid)"

definition generate_key_on ::
  "string \<Rightarrow> algorithm \<Rightarrow> 'w env \<Rightarrow> 'w auth_callback \<Rightarrow> (('p, 'w) manager \<times> 'w, generated_key) weff" where
  "generate_key_on pid alg env auth =
     ebind (on_plugin pid (\<lambda>ops. po_generate_key ops alg env auth)) (\<lambda>result.
     ebind get_state (\<lambda>m.
       let this = id_of_plugin m pid in
       case bound m (gk_kid result) of
         Some existing \<Rightarrow>
           if existing \<noteq> this
           then ethrow (Plugin (''plugin '' @ this @ '' generated key '' @ gk_kid result
                  @ '' which is already bound to plugin '' @ existing))
           else ebind (modify_state (bind_key (gk_kid result) this)) (\<lambda>_. ereturn result)
       | None \<Rightarrow> ebind (modify_state (bind_key (gk_kid result) this)) (\<lambda>_. ereturn result)))"

definition manager_generate_key ::
  "algorithm \<Rightarrow> 'w env \<Rightarrow> 'w auth_callback \<Rightarrow> (('p, 'w) manager \<times> 'w, generated_key) weff" where
  "manager_generate_key alg env auth =
     ebind get_state (\<lambda>m. ebind (elift (resolve_for_generate m)) (\<lambda>pid.
       generate_key_on pid alg env auth))"

definition generate_key_with_plugin ::
  "string \<Rightarrow> algorithm \<Rightarrow> 'w env \<Rightarrow> 'w auth_callback \<Rightarrow> (('p, 'w) manager \<times> 'w, generated_key) weff" where
  "generate_key_with_plugin pid alg env auth =
     ebind get_state (\<lambda>m. ebind (elift (get_plugin m pid)) (\<lambda>pid.
       generate_key_on pid alg env auth))"

definition manager_security_properties ::
  "('p, 'w) manager \<Rightarrow> key_id \<Rightarrow> security_properties wres" where
  "manager_security_properties m kid =
     rbind (resolve_for_key m kid ''security_properties'') (\<lambda>pid.
       plugin_query m pid (\<lambda>ops st. po_security_properties ops st kid))"

definition manager_delete_key :: "key_id \<Rightarrow> (('p, 'w) manager \<times> 'w, unit) weff" where
  "manager_delete_key kid =
     ebind (routed kid ''delete'' (\<lambda>ops. po_delete_key ops kid)) (\<lambda>_. modify_state (unbind_key kid))"

text \<open>The three failures that end the whole operation instead of moving to the next candidate.\<close>

definition stops_candidates :: "wscd_error \<Rightarrow> bool" where
  "stops_candidates e =
     (case e of UnconfirmedCleanup _ _ \<Rightarrow> True | AuthCancelled \<Rightarrow> True | Pin _ \<Rightarrow> True | _ \<Rightarrow> False)"

definition level_shortfall :: "string \<Rightarrow> certification_level \<Rightarrow> certification_level \<Rightarrow> wscd_error" where
  "level_shortfall pid achieved required =
     Unsupported pid (''generate_key_for_level: reached '' @ debug_certification achieved
       @ '', required '' @ debug_certification required)"

fun try_candidates ::
  "certification_level \<Rightarrow> wscd_error option \<Rightarrow> string list \<Rightarrow> algorithm \<Rightarrow> 'w env \<Rightarrow> 'w auth_callback
   \<Rightarrow> (('p, 'w) manager \<times> 'w, generated_key) weff" where
  "try_candidates required last_err [] alg env auth s =
     (Inl (case last_err of Some e \<Rightarrow> e | None \<Rightarrow> NoPlugin
        ''generate_key_for_level: no candidate plugin satisfied the required level''), s)"
| "try_candidates required last_err (pid # pids) alg env auth s =
     (case get_plugin (fst s) pid of
        Inl e \<Rightarrow> try_candidates required (Some e) pids alg env auth s
      | Inr _ \<Rightarrow>
         (case generate_key_on pid alg env auth s of
            (Inl e, s1) \<Rightarrow>
              if stops_candidates e then (Inl e, s1)
              else try_candidates required (Some e) pids alg env auth s1
          | (Inr g, s1) \<Rightarrow>
             (case manager_security_properties (fst s1) (gk_kid g) of
                Inl e \<Rightarrow>
                  (case manager_delete_key (gk_kid g) s1 of
                     (Inl delete_err, s2) \<Rightarrow>
                       (Inl (Plugin (''generate_key_for_level: could not confirm the level '' @ pid
                          @ '' reached ('' @ show_error e @ ''), and deleting its''
                          @ '' key also failed ('' @ show_error delete_err @ '')'')), s2)
                   | (Inr _, s2) \<Rightarrow> try_candidates required (Some e) pids alg env auth s2)
              | Inr props \<Rightarrow>
                  if certification_rank (sp_certification props) \<ge> certification_rank required
                  then (Inr g, s1)
                  else
                    (let shortfall = level_shortfall pid (sp_certification props) required in
                     case manager_delete_key (gk_kid g) s1 of
                       (Inl delete_err, s2) \<Rightarrow>
                         (Inl (Plugin (show_error shortfall @ '', and deleting the insufficient''
                            @ '' key also failed ('' @ show_error delete_err @ '')'')), s2)
                     | (Inr _, s2) \<Rightarrow>
                         try_candidates required (Some shortfall) pids alg env auth s2))))"

definition generate_key_for_level ::
  "certification_level \<Rightarrow> string list \<Rightarrow> algorithm \<Rightarrow> 'w env \<Rightarrow> 'w auth_callback
   \<Rightarrow> (('p, 'w) manager \<times> 'w, generated_key) weff" where
  "generate_key_for_level required candidates alg env auth s =
     (if candidates = []
      then (Inl (NoPlugin ''generate_key_for_level: no candidate plugins were offered''), s)
      else try_candidates required None candidates alg env auth s)"

subsection \<open>Operations on a key\<close>

definition manager_sign ::
  "key_id \<Rightarrow> bytes \<Rightarrow> algorithm \<Rightarrow> 'w env \<Rightarrow> 'w auth_callback \<Rightarrow> (('p, 'w) manager \<times> 'w, bytes) weff" where
  "manager_sign kid data alg env auth =
     routed kid ''sign'' (\<lambda>ops. po_sign ops kid data alg env auth)"

definition manager_sign_with_factors ::
  "key_id \<Rightarrow> bytes \<Rightarrow> algorithm \<Rightarrow> sign_options \<Rightarrow> 'w env \<Rightarrow> 'w auth_callback
   \<Rightarrow> (('p, 'w) manager \<times> 'w, sign_outcome) weff" where
  "manager_sign_with_factors kid data alg opts env auth =
     routed kid ''sign'' (\<lambda>ops. po_sign_with_factors ops kid data alg opts env auth)"

definition manager_authentication_capability ::
  "('p, 'w) manager \<Rightarrow> key_id \<Rightarrow> factor_capability wres" where
  "manager_authentication_capability m kid =
     rbind (resolve_for_key m kid ''sign'') (\<lambda>pid.
       plugin_query m pid (\<lambda>ops st. po_authentication_capability ops st kid))"

fun list_plugins :: "string list \<Rightarrow> key_info list \<Rightarrow> (('p, 'w) manager \<times> 'w, key_info list) weff" where
  "list_plugins [] acc = ereturn acc"
| "list_plugins (pid # pids) acc =
     ebind (on_plugin pid po_list_keys) (\<lambda>keys. list_plugins pids (acc @ keys))"

definition manager_list_keys :: "(('p, 'w) manager \<times> 'w, key_info list) weff" where
  "manager_list_keys = ebind get_state (\<lambda>m. list_plugins (plugin_ids m) [])"

definition manager_attestation_chain ::
  "key_id \<Rightarrow> (('p, 'w) manager \<times> 'w, attestation_chain option) weff" where
  "manager_attestation_chain kid = routed kid ''attestation'' (\<lambda>ops. po_attestation_chain ops kid)"

definition manager_export_public_key :: "key_id \<Rightarrow> (('p, 'w) manager \<times> 'w, json) weff" where
  "manager_export_public_key kid =
     routed kid ''export_public_key'' (\<lambda>ops. po_export_public_key ops kid)"

definition supports_import :: "('p, 'w) manager \<Rightarrow> string \<Rightarrow> bool" where
  "supports_import m pid =
     (case hm_get (mg_plugins m) pid of Some (ops, _) \<Rightarrow> po_supports_import ops | None \<Rightarrow> False)"

definition migrate_key ::
  "key_id \<Rightarrow> string \<Rightarrow> 'w env \<Rightarrow> 'w auth_callback \<Rightarrow> (('p, 'w) manager \<times> 'w, migration_result) weff" where
  "migrate_key kid target env auth =
     ebind get_state (\<lambda>m.
     ebind (elift (get_plugin m target)) (\<lambda>target.
       if \<not> supports_import m target then ereturn (ReEnrollmentRequired kid)
       else
         ebind (elift (resolve_for_key m kid ''migrate'')) (\<lambda>source.
         ebind (on_plugin source (\<lambda>ops. po_export_public_key ops kid)) (\<lambda>_.
         ebind (on_plugin source po_list_keys) (\<lambda>keys.
         ebind (elift (ok_or (KeyNotFound kid) (find (\<lambda>k. ki_kid k = kid) keys))) (\<lambda>info.
         ebind (on_plugin target (\<lambda>ops. po_import_key ops (ki_algorithm info)
           (env\<lparr>env_progress := noop_progress\<rparr>) auth)) (\<lambda>result.
           case result of
             Migrated new_kid \<Rightarrow> ebind (modify_state (bind_key new_kid target)) (\<lambda>_. ereturn result)
           | ReEnrollmentRequired _ \<Rightarrow> ereturn result)))))))"

subsection \<open>Lifecycle\<close>

definition manager_lifecycle_status ::
  "('p, 'w) manager \<Rightarrow> string \<Rightarrow> string \<Rightarrow> lifecycle_status wres" where
  "manager_lifecycle_status m pid cid =
     rbind (get_plugin m pid) (\<lambda>pid. plugin_query m pid (\<lambda>ops st. po_lifecycle_status ops st cid))"

definition manager_register_lifecycle ::
  "register_request \<Rightarrow> 'w env \<Rightarrow> 'w auth_callback \<Rightarrow> (('p, 'w) manager \<times> 'w, lifecycle_outcome) weff" where
  "manager_register_lifecycle request env auth =
     to_plugin (rr_plugin_id request) (\<lambda>ops. po_register_lifecycle ops request env auth)"

definition manager_activate_lifecycle ::
  "context_request \<Rightarrow> 'w env \<Rightarrow> 'w auth_callback \<Rightarrow> (('p, 'w) manager \<times> 'w, lifecycle_outcome) weff" where
  "manager_activate_lifecycle request env auth =
     to_plugin (cr_plugin_id request) (\<lambda>ops. po_activate_lifecycle ops request env auth)"

definition manager_rotate_lifecycle ::
  "context_request \<Rightarrow> 'w env \<Rightarrow> 'w auth_callback \<Rightarrow> (('p, 'w) manager \<times> 'w, lifecycle_outcome) weff" where
  "manager_rotate_lifecycle request env auth =
     to_plugin (cr_plugin_id request) (\<lambda>ops. po_rotate_lifecycle ops request env auth)"

definition manager_destroy_lifecycle ::
  "destroy_request \<Rightarrow> 'w env \<Rightarrow> 'w auth_callback \<Rightarrow> (('p, 'w) manager \<times> 'w, destruction_outcome) weff" where
  "manager_destroy_lifecycle request env auth =
     to_plugin (dr_plugin_id request) (\<lambda>ops. po_destroy_lifecycle ops request env auth)"

subsection \<open>Hosts of lawful plugins\<close>

text \<open>The keys a plugin of the manager holds, and the keys whose binding names another plugin.\<close>

definition mgr_held :: "('p \<Rightarrow> key_id set) \<Rightarrow> ('p, 'w) manager \<Rightarrow> string \<Rightarrow> key_id set" where
  "mgr_held held m pid = (case hm_get (mg_plugins m) pid of Some (_, st) \<Rightarrow> held st | None \<Rightarrow> {})"

definition bound_elsewhere :: "('p, 'w) manager \<Rightarrow> string \<Rightarrow> key_id set" where
  "bound_elsewhere m pid = {kid. \<exists>q. bound m kid = Some q \<and> q \<noteq> pid}"

definition mgr_ok :: "('p, 'w) plugin_ops set \<Rightarrow> (string \<Rightarrow> 'p \<Rightarrow> bool) \<Rightarrow> ('p, 'w) manager \<Rightarrow> bool" where
  "mgr_ok registered good m \<longleftrightarrow>
     (\<forall>pid ops st. hm_get (mg_plugins m) pid = Some (ops, st) \<longrightarrow>
        ops \<in> registered \<and> po_id ops = pid \<and> good pid st)"

definition put_plugin :: "string \<Rightarrow> ('p, 'w) plugin_ops \<Rightarrow> 'p \<Rightarrow> ('p, 'w) manager \<Rightarrow> ('p, 'w) manager" where
  "put_plugin pid ops st m = m\<lparr>mg_plugins := hm_insert pid (ops, st) (mg_plugins m)\<rparr>"

definition new_keys :: "generated_key wres \<Rightarrow> key_id set" where
  "new_keys r = (case r of Inr g \<Rightarrow> {gk_kid g} | Inl _ \<Rightarrow> {})"

lemma new_keys_simps [simp]: "new_keys (Inr g) = {gk_kid g}" "new_keys (Inl e) = {}"
  by (simp_all add: new_keys_def)

lemma put_plugin_simps [simp]:
  "mg_config (put_plugin pid ops st m) = mg_config m"
  "hm_get (mg_plugins (put_plugin pid ops st m)) q =
     (if q = pid then Some (ops, st) else hm_get (mg_plugins m) q)"
  "mgr_held held (put_plugin pid ops st m) q = (if q = pid then held st else mgr_held held m q)"
  by (simp_all add: put_plugin_def mgr_held_def)

lemma binding_simps [simp]:
  "bound (bind_key kid pid m) k = (if k = kid then Some pid else bound m k)"
  "bound (unbind_key kid m) k = (if k = kid then None else bound m k)"
  "mg_plugins (bind_key kid pid m) = mg_plugins m" "mg_plugins (unbind_key kid m) = mg_plugins m"
  "mgr_held held (bind_key kid pid m) = mgr_held held m"
  "mgr_held held (unbind_key kid m) = mgr_held held m"
  "mgr_ok R good (bind_key kid pid m) = mgr_ok R good m"
  "mgr_ok R good (unbind_key kid m) = mgr_ok R good m"
  by (simp_all add: bind_key_def unbind_key_def mgr_held_def mgr_ok_def fun_eq_iff)

lemma mgr_okD: "mgr_ok R good m \<Longrightarrow> hm_get (mg_plugins m) pid = Some (ops, st) \<Longrightarrow>
    ops \<in> R \<and> po_id ops = pid \<and> good pid st"
  by (auto simp: mgr_ok_def)

lemma mgr_ok_put: "mgr_ok R good m \<Longrightarrow> hm_get (mg_plugins m) pid = Some (ops, st) \<Longrightarrow> good pid st' \<Longrightarrow>
    mgr_ok R good (put_plugin pid ops st' m)"
  by (auto simp: mgr_ok_def)

lemma resolve_bound: "bound m kid = Some pid \<Longrightarrow> resolve_for_key m kid op = get_plugin m pid"
  by (simp add: resolve_for_key_def)

lemma manager_sign_bound:
  "bound m kid = Some pid \<Longrightarrow>
     manager_sign kid data alg env auth (m, w) = on_plugin pid (\<lambda>ops. po_sign ops kid data alg env auth) (m, w)"
  by (cases "hm_get (mg_plugins m) pid") (simp_all add: manager_sign_def routed_def ebind_def get_state_def
      resolve_bound elift_def get_plugin_def hm_contains_def on_plugin_def)

lemma get_plugin_eq: "get_plugin m pid = Inr q \<longleftrightarrow> q = pid \<and> hm_get (mg_plugins m) pid \<noteq> None"
  by (auto simp: get_plugin_def hm_contains_def)

lemma on_plugin_cases:
  assumes "on_plugin pid f (m, w) = (r, (m', w'))"
  obtains (missing) "hm_get (mg_plugins m) pid = None" "r = Inl (NoPlugin pid)" "m' = m" "w' = w"
    | (ran) ops st st' where "hm_get (mg_plugins m) pid = Some (ops, st)"
        "f ops (st, w) = (r, (st', w'))" "m' = put_plugin pid ops st' m"
  using assms by (auto simp: on_plugin_def put_plugin_def split: option.splits prod.splits)

text \<open>Registration and the empty manager.\<close>

lemma mgr_ok_new: "mgr_ok R good (manager_new cfg)"
  by (simp add: mgr_ok_def manager_new_def)

lemma mgr_ok_register:
  "mgr_ok R good m \<Longrightarrow> ops \<in> R \<Longrightarrow> good (po_id ops) st \<Longrightarrow> mgr_ok R good (register_plugin ops st m)"
  by (auto simp: mgr_ok_def register_plugin_def split: if_splits)

text \<open>What may have changed after a candidate that did not supply the key.\<close>

definition candidate_rejected ::
  "('p, 'w) plugin_ops set \<Rightarrow> (string \<Rightarrow> 'p \<Rightarrow> bool) \<Rightarrow> ('p \<Rightarrow> key_id set)
   \<Rightarrow> ('p, 'w) manager \<Rightarrow> ('p, 'w) manager \<Rightarrow> bool" where
  "candidate_rejected R good held m m2 \<longleftrightarrow>
     mgr_ok R good m2 \<and>
     (\<forall>q. mgr_held held m2 q \<subseteq> mgr_held held m q \<union> bound_elsewhere m q) \<and>
     (\<forall>k q. bound m2 k = Some q \<longrightarrow> bound m k = Some q)"

lemma candidate_rejected_refl: "mgr_ok R good m \<Longrightarrow> candidate_rejected R good held m m"
  by (auto simp: candidate_rejected_def)

text \<open>What the candidate loop promises, relative to the manager it started from.\<close>

definition is_cleanup_failure :: "wscd_error \<Rightarrow> bool" where
  "is_cleanup_failure e \<longleftrightarrow> (\<exists>a b. e = Plugin (a @ '' key also failed ('' @ b @ '')''))"

lemma cleanup_failures:
  "is_cleanup_failure (Plugin (''generate_key_for_level: could not confirm the level '' @ pid
     @ '' reached ('' @ show_error e @ ''), and deleting its'' @ '' key also failed ('' @ b @ '')''))"
  "is_cleanup_failure (Plugin (a @ '', and deleting the insufficient'' @ '' key also failed ('' @ b @ '')''))"
proof -
  have I: "is_cleanup_failure (Plugin (x @ '' key also failed ('' @ b @ '')''))" for x
    unfolding is_cleanup_failure_def by blast
  show "is_cleanup_failure (Plugin (''generate_key_for_level: could not confirm the level '' @ pid
     @ '' reached ('' @ show_error e @ ''), and deleting its'' @ '' key also failed ('' @ b @ '')''))"
    using I [of "''generate_key_for_level: could not confirm the level '' @ pid
       @ '' reached ('' @ show_error e @ ''), and deleting its''"] by (simp only: append_assoc)
  show "is_cleanup_failure (Plugin (a @ '', and deleting the insufficient'' @ '' key also failed ('' @ b @ '')''))"
    using I [of "a @ '', and deleting the insufficient''"] by (simp only: append_assoc)
qed

definition loop_promise ::
  "('p, 'w) plugin_ops set \<Rightarrow> (string \<Rightarrow> 'p \<Rightarrow> bool) \<Rightarrow> ('p \<Rightarrow> key_id set) \<Rightarrow> certification_level \<Rightarrow> string set
   \<Rightarrow> ('p, 'w) manager \<Rightarrow> generated_key wres \<Rightarrow> ('p, 'w) manager \<Rightarrow> bool" where
  "loop_promise R good held required candidates m r m' \<longleftrightarrow>
     mgr_ok R good m' \<and>
     (\<forall>pid. \<forall>kid \<in> mgr_held held m' pid.
        kid \<in> mgr_held held m pid \<or> kid \<in> new_keys r \<or> kid \<in> bound_elsewhere m pid \<or>
        (\<exists>e. r = Inl e \<and> is_cleanup_failure e)) \<and>
     (\<forall>g. r = Inr g \<longrightarrow>
        (\<exists>pid \<in> candidates. bound m' (gk_kid g) = Some pid \<and> gk_kid g \<in> mgr_held held m' pid) \<and>
        (\<exists>props. manager_security_properties m' (gk_kid g) = Inr props \<and>
           required \<le> sp_certification props))"

lemma loop_promise_later:
  assumes "loop_promise R good held required C m2 r m'" and "candidate_rejected R good held m m2"
    and "C \<subseteq> D"
  shows "loop_promise R good held required D m r m'"
proof -
  have b: "bound_elsewhere m2 q \<subseteq> bound_elsewhere m q" for q
    using assms(2) by (auto simp: bound_elsewhere_def candidate_rejected_def)
  have h: "mgr_held held m2 q \<subseteq> mgr_held held m q \<union> bound_elsewhere m q" for q
    using assms(2) by (simp add: candidate_rejected_def)
  show ?thesis
    using assms(1) unfolding loop_promise_def
    by (intro conjI) (blast, use h b in blast, use assms(3) in blast)
qed


locale plugin_host =
  fixes registered :: "('p, 'w) plugin_ops set"
    and good :: "string \<Rightarrow> 'p \<Rightarrow> bool"
    and held :: "'p \<Rightarrow> key_id set"
  assumes lawful: "ops \<in> registered \<Longrightarrow> key_store ops (good (po_id ops)) held"
begin

lemma generate_on_plugin:
  assumes ok: "mgr_ok registered good m"
    and g: "on_plugin pid (\<lambda>ops. po_generate_key ops alg env auth) (m, w) = (r, (m', w'))"
  shows "mgr_ok registered good m'" and "mg_config m' = mg_config m"
    and "mgr_held held m' q = (if q = pid then new_keys r else {}) \<union> mgr_held held m q"
    and "r = Inr x \<Longrightarrow> id_of_plugin m' pid = pid \<and> hm_get (mg_plugins m') pid \<noteq> None"
proof -
  have "mgr_ok registered good m' \<and> mg_config m' = mg_config m \<and>
      mgr_held held m' q = (if q = pid then new_keys r else {}) \<union> mgr_held held m q \<and>
      (r = Inr x \<longrightarrow> id_of_plugin m' pid = pid \<and> hm_get (mg_plugins m') pid \<noteq> None)"
    using g
  proof (cases rule: on_plugin_cases)
    case missing
    then show ?thesis using ok by simp
  next
    case (ran ops st st')
    have reg: "ops \<in> registered" "po_id ops = pid" "good (po_id ops) st" using mgr_okD [OF ok ran(1)] by auto
    have st': "good (po_id ops) st' \<and> held st' = new_keys r \<union> held st"
    proof (cases r)
      case (Inl e)
      then have "st' = st"
        using key_store.generate_err [OF lawful [OF reg(1)] reg(3)] ran(2) by blast
      then show ?thesis using Inl reg by simp
    next
      case (Inr y)
      then show ?thesis
        using key_store.generate_ok [OF lawful [OF reg(1)] reg(3)] ran(2) by force
    qed
    then show ?thesis
      using ran reg ok by (auto simp: mgr_ok_put id_of_plugin_def) (auto simp: mgr_held_def)
  qed
  then show "mgr_ok registered good m'" "mg_config m' = mg_config m"
    "mgr_held held m' q = (if q = pid then new_keys r else {}) \<union> mgr_held held m q"
    "r = Inr x \<Longrightarrow> id_of_plugin m' pid = pid \<and> hm_get (mg_plugins m') pid \<noteq> None"
    by blast+
qed

text \<open>
  A failed \<open>generate_key_on\<close> changes nothing but, when the new key's name is bound to another
  plugin, leaves that key behind; a successful one binds the key to the plugin that holds it.
\<close>

lemma generate_key_on_cases:
  assumes ok: "mgr_ok registered good m" and g: "generate_key_on pid alg env auth (m, w) = (r, (m', w'))"
  shows "mgr_ok registered good m'"
    and "r = Inl e \<Longrightarrow> candidate_rejected registered good held m m'"
    and "r = Inr x \<Longrightarrow> bound m (gk_kid x) \<in> {None, Some pid} \<and>
      (\<forall>k. bound m' k = (if k = gk_kid x then Some pid else bound m k)) \<and>
      (\<forall>q. mgr_held held m' q = (if q = pid then {gk_kid x} else {}) \<union> mgr_held held m q)"
proof -
  obtain r1 m1 w1 where o: "on_plugin pid (\<lambda>ops. po_generate_key ops alg env auth) (m, w) = (r1, (m1, w1))"
    by (metis prod.collapse)
  note s1 = generate_on_plugin [OF ok o]
  have "mgr_ok registered good m' \<and>
     (\<forall>e. r = Inl e \<longrightarrow> candidate_rejected registered good held m m') \<and>
     (\<forall>x. r = Inr x \<longrightarrow> bound m (gk_kid x) \<in> {None, Some pid} \<and>
      (\<forall>k. bound m' k = (if k = gk_kid x then Some pid else bound m k)) \<and>
      (\<forall>q. mgr_held held m' q = (if q = pid then {gk_kid x} else {}) \<union> mgr_held held m q))"
  proof (cases r1)
    case (Inl e)
    then have "r = Inl e" "m' = m1" using g o by (auto simp: generate_key_on_def ebind_def)
    then show ?thesis using s1 Inl by (auto simp: candidate_rejected_def)
  next
    case (Inr y)
    have id: "id_of_plugin m1 pid = pid" using s1(4) [OF Inr] by simp
    show ?thesis
    proof (cases "\<exists>q. bound m (gk_kid y) = Some q \<and> q \<noteq> pid")
      case True
      then have "m' = m1" "is_ok r = False"
        using g o Inr id s1(2) by (auto simp: generate_key_on_def ebind_def get_state_def is_ok_def)
      moreover have "gk_kid y \<in> bound_elsewhere m pid" using True by (simp add: bound_elsewhere_def)
      ultimately show ?thesis using s1 Inr by (auto simp: candidate_rejected_def is_ok_def)
    next
      case False
      then have "r = Inr y" "m' = bind_key (gk_kid y) pid m1"
        using g o Inr id s1(2)
        by (auto simp: generate_key_on_def ebind_def get_state_def modify_state_def Let_def
          split: option.splits if_splits)
      moreover have "bound m (gk_kid y) \<in> {None, Some pid}"
        using False by (cases "bound m (gk_kid y)") auto
      ultimately show ?thesis using s1 Inr by auto
    qed
  qed
  then show "mgr_ok registered good m'"
    and "r = Inl e \<Longrightarrow> candidate_rejected registered good held m m'"
    and "r = Inr x \<Longrightarrow> bound m (gk_kid x) \<in> {None, Some pid} \<and>
      (\<forall>k. bound m' k = (if k = gk_kid x then Some pid else bound m k)) \<and>
      (\<forall>q. mgr_held held m' q = (if q = pid then {gk_kid x} else {}) \<union> mgr_held held m q)"
    by blast+
qed

text \<open>Deleting a bound key removes it from the plugin it is bound to, and its binding.\<close>

lemma delete_bound:
  assumes ok: "mgr_ok registered good m" and b: "bound m kid = Some pid"
    and d: "manager_delete_key kid (m, w) = (r, (m', w'))"
  shows "mgr_ok registered good m'"
    and "r = Inr () \<Longrightarrow> kid \<in> mgr_held held m pid \<and>
      (\<forall>k. bound m' k = (if k = kid then None else bound m k)) \<and>
      (\<forall>q. mgr_held held m' q = mgr_held held m q - (if q = pid then {kid} else {}))"
    and "r = Inl e \<Longrightarrow> (\<forall>k. bound m' k = bound m k) \<and> (\<forall>q. mgr_held held m' q = mgr_held held m q)"
proof -
  have "mgr_ok registered good m' \<and>
    (r = Inr () \<longrightarrow> kid \<in> mgr_held held m pid \<and>
      (\<forall>k. bound m' k = (if k = kid then None else bound m k)) \<and>
      (\<forall>q. mgr_held held m' q = mgr_held held m q - (if q = pid then {kid} else {}))) \<and>
    (\<forall>e. r = Inl e \<longrightarrow> (\<forall>k. bound m' k = bound m k) \<and> (\<forall>q. mgr_held held m' q = mgr_held held m q))"
  proof (cases "hm_get (mg_plugins m) pid")
    case None
    then have "m' = m" "\<exists>e. r = Inl e"
      using d b by (auto simp: manager_delete_key_def routed_def ebind_def get_state_def resolve_bound
        get_plugin_def hm_contains_def elift_def)
    then show ?thesis using ok by auto
  next
    case (Some x)
    obtain ops st where x: "x = (ops, st)" by (cases x)
    have reg: "ops \<in> registered" "po_id ops = pid" "good (po_id ops) st" using mgr_okD [OF ok] Some x by auto
    obtain r1 st' w1 where f: "po_delete_key ops kid (st, w) = (r1, (st', w1))"
      by (metis prod.collapse)
    have res: "r = r1 \<and> m' = (if is_ok r1 then unbind_key kid (put_plugin pid ops st' m) else put_plugin pid ops st' m)"
      using d b Some x f
      by (cases r1) (auto simp: manager_delete_key_def routed_def ebind_def get_state_def resolve_bound
        get_plugin_def hm_contains_def elift_def on_plugin_def put_plugin_def modify_state_def)
    show ?thesis
    proof (cases r1)
      case (Inl e)
      then have "st' = st" using key_store.delete_err [OF lawful [OF reg(1)] reg(3)] f by blast
      then show ?thesis using res Inl reg ok Some x by (auto simp: mgr_ok_put mgr_held_def)
    next
      case (Inr y)
      then have "good (po_id ops) st' \<and> kid \<in> held st \<and> held st' = held st - {kid}"
        using key_store.delete_ok [OF lawful [OF reg(1)] reg(3)] f by (cases y) blast
      then show ?thesis using res Inr reg ok Some x by (auto simp: mgr_ok_put mgr_held_def)
    qed
  qed
  then show "mgr_ok registered good m'"
    and "r = Inr () \<Longrightarrow> kid \<in> mgr_held held m pid \<and>
      (\<forall>k. bound m' k = (if k = kid then None else bound m k)) \<and>
      (\<forall>q. mgr_held held m' q = mgr_held held m q - (if q = pid then {kid} else {}))"
    and "r = Inl e \<Longrightarrow> (\<forall>k. bound m' k = bound m k) \<and> (\<forall>q. mgr_held held m' q = mgr_held held m q)"
    by blast+
qed

text \<open>A candidate whose key is deleted again leaves the manager as a rejected candidate does.\<close>

lemma generated_then_deleted:
  assumes ok: "mgr_ok registered good m"
    and g: "generate_key_on pid alg env auth (m, w) = (Inr x, (m1, w1))"
    and d: "manager_delete_key (gk_kid x) (m1, w1) = (Inr (), (m2, w2))"
  shows "candidate_rejected registered good held m m2"
proof -
  note k = generate_key_on_cases [OF ok g]
  have b: "bound m1 (gk_kid x) = Some pid" using k(3) [OF refl] by simp
  note del = delete_bound [OF k(1) b d]
  show ?thesis
    unfolding candidate_rejected_def
    using del(1) del(2) [OF refl] k(3) [OF refl] by (auto split: if_splits)
qed

lemma loop_kept:
  assumes ok: "mgr_ok registered good m"
    and g: "generate_key_on pid alg env auth (m, w) = (Inr x, (m1, w1))"
    and p: "manager_security_properties m1 (gk_kid x) = Inr props" "required \<le> sp_certification props"
  shows "loop_promise registered good held required (insert pid C) m (Inr x) m1"
  using generate_key_on_cases [OF ok g] p unfolding loop_promise_def by (auto split: if_splits)

lemma loop_cleanup_failed:
  assumes ok: "mgr_ok registered good m"
    and g: "generate_key_on pid alg env auth (m, w) = (Inr x, (m1, w1))"
    and d: "manager_delete_key (gk_kid x) (m1, w1) = (Inl de, (m2, w2))"
    and e: "is_cleanup_failure e"
  shows "loop_promise registered good held required C m (Inl e) m2"
proof -
  note k = generate_key_on_cases [OF ok g]
  have b: "bound m1 (gk_kid x) = Some pid" using k(3) [OF refl] by simp
  show ?thesis
    using delete_bound(1) [OF k(1) b d] e unfolding loop_promise_def by auto
qed

lemma loop_ended: "candidate_rejected registered good held m m2 \<Longrightarrow>
    loop_promise registered good held required C m (Inl e) m2"
  unfolding loop_promise_def candidate_rejected_def by blast

theorem try_candidates_promise:
  "mgr_ok registered good m \<Longrightarrow>
   try_candidates required last_err pids alg env auth (m, w) = (r, (m', w')) \<Longrightarrow>
   loop_promise registered good held required (set pids) m r m'"
proof (induction pids arbitrary: last_err m w)
  case Nil
  then show ?case using loop_ended [OF candidate_rejected_refl] by fastforce
next
  case (Cons pid pids)
  have later: "loop_promise registered good held required (set (pid # pids)) m r m'"
    if "candidate_rejected registered good held m m2"
      "try_candidates required le pids alg env auth (m2, w2) = (r, (m', w'))" for m2 w2 le
    using loop_promise_later [OF Cons.IH [OF _ that(2)] that(1)] that(1)
    by (auto simp: candidate_rejected_def)
  show ?case
  proof (cases "get_plugin m pid")
    case (Inl e)
    then show ?thesis using Cons.prems later [OF candidate_rejected_refl] by simp
  next
    case (Inr q)
    obtain r1 m1 w1 where g: "generate_key_on pid alg env auth (m, w) = (r1, (m1, w1))"
      by (metis prod.collapse)
    note run = Cons.prems(2) [unfolded try_candidates.simps, simplified Inr g fst_conv prod.case sum.case]
    show ?thesis
    proof (cases r1)
      case (Inl e)
      note rej = generate_key_on_cases(2) [OF Cons.prems(1) g Inl]
      show ?thesis
      proof (cases "stops_candidates e")
        case True
        then show ?thesis using run Inl loop_ended [OF rej, of required "set (pid # pids)" e] by auto
      next
        case False
        then show ?thesis using run Inl later [OF rej] by simp
      qed
    next
      case ok: (Inr x)
      obtain rd m2 w2 where d: "manager_delete_key (gk_kid x) (m1, w1) = (rd, (m2, w2))"
        by (metis prod.collapse)
      have undo: ?thesis
        if "(case rd of Inl de \<Rightarrow> (Inl (e de), (m2, w2))
               | Inr _ \<Rightarrow> try_candidates required le pids alg env auth (m2, w2)) = (r, (m', w'))"
          and "\<And>de. is_cleanup_failure (e de)" for e le
      proof (cases rd)
        case (Inl de)
        then show ?thesis using that loop_cleanup_failed [OF Cons.prems(1) g [unfolded ok]] d by auto
      next
        case (Inr u)
        then have "candidate_rejected registered good held m m2"
          using generated_then_deleted [OF Cons.prems(1) g [unfolded ok]] d by simp
        then show ?thesis using that(1) Inr later by simp
      qed
      show ?thesis
      proof (cases "manager_security_properties m1 (gk_kid x)")
        case (Inl e)
        show ?thesis
          by (rule undo [OF run [unfolded ok, simplified Inl d sum.case prod.case]])
             (rule cleanup_failures)
      next
        case (Inr props)
        show ?thesis
        proof (cases "certification_rank required \<le> certification_rank (sp_certification props)")
          case True
          then have "required \<le> sp_certification props" by (simp add: less_eq_certification_level_def)
          then have "loop_promise registered good held required (insert pid (set pids)) m (Inr x) m1"
            by (rule loop_kept [OF Cons.prems(1) g [unfolded ok] Inr])
          then show ?thesis using run ok Inr True by auto
        next
          case False
          show ?thesis
            by (rule undo [OF run [unfolded ok, simplified Inr False Let_def d sum.case prod.case if_False]])
               (rule cleanup_failures)
        qed
      qed
    qed
  qed
qed

text \<open>A generated key is bound to the plugin the generation was routed to, which holds it.\<close>

lemma generated_usable:
  assumes ok: "mgr_ok registered good m"
    and g: "manager_generate_key alg env auth (m, w) = (Inr x, (m', w'))"
  shows "\<exists>pid. resolve_for_generate m = Inr pid \<and> bound m' (gk_kid x) = Some pid \<and>
    gk_kid x \<in> mgr_held held m' pid \<and> is_ok (manager_security_properties m' (gk_kid x))"
proof -
  obtain pid where r: "resolve_for_generate m = Inr pid"
    and g': "generate_key_on pid alg env auth (m, w) = (Inr x, (m', w'))"
    using g by (auto simp: manager_generate_key_def eff_elims)
  note k = generate_key_on_cases [OF ok g']
  have b: "bound m' (gk_kid x) = Some pid" and h: "gk_kid x \<in> mgr_held held m' pid"
    using k(3) [OF refl] by auto
  obtain ops st where p: "hm_get (mg_plugins m') pid = Some (ops, st)" and st: "gk_kid x \<in> held st"
    using h by (auto simp: mgr_held_def split: option.splits)
  have reg: "ops \<in> registered" "good (po_id ops) st" using mgr_okD [OF k(1) p] by auto
  have "is_ok (manager_security_properties m' (gk_kid x))"
    using key_store.secure_iff [OF lawful [OF reg(1)] reg(2)] b p st
    by (simp add: manager_security_properties_def resolve_bound get_plugin_def hm_contains_def
        plugin_query_def)
  then show ?thesis using r b h by blast
qed

text \<open>Signing with a bound key reaches the plugin that holds it and changes no key.\<close>

lemma sign_bound:
  assumes ok: "mgr_ok registered good m" and b: "bound m kid = Some pid"
    and s: "manager_sign kid data alg env auth (m, w) = (r, (m', w'))"
  shows "mgr_held held m' q = mgr_held held m q" and "bound m' k = bound m k"
    and "r = Inr sig \<Longrightarrow> kid \<in> mgr_held held m pid"
proof -
  have "mgr_held held m' q = mgr_held held m q \<and> bound m' k = bound m k \<and>
    (r = Inr sig \<longrightarrow> kid \<in> mgr_held held m pid)"
  proof (cases "get_plugin m pid")
    case (Inl e)
    then show ?thesis using s b
      by (auto simp: manager_sign_def routed_def ebind_def get_state_def resolve_bound elift_def)
  next
    case (Inr x)
    have "x = pid" using Inr by (simp add: get_plugin_eq)
    then have "on_plugin pid (\<lambda>ops. po_sign ops kid data alg env auth) (m, w) = (r, (m', w'))"
      using s b Inr
      by (simp add: manager_sign_def routed_def ebind_def get_state_def resolve_bound elift_def)
    then show ?thesis
    proof (cases rule: on_plugin_cases)
      case missing
      then show ?thesis by simp
    next
      case (ran ops st st')
      have reg: "ops \<in> registered" "good (po_id ops) st" using mgr_okD [OF ok ran(1)] by auto
      have "st' = st" "r = Inr sig \<Longrightarrow> kid \<in> held st"
        using key_store.sign_frame [OF lawful [OF reg(1)] reg(2)]
          key_store.sign_held [OF lawful [OF reg(1)] reg(2)] ran(2) by blast+
      then show ?thesis using ran by (auto simp: mgr_held_def)
    qed
  qed
  then show "mgr_held held m' q = mgr_held held m q" and "bound m' k = bound m k"
    and "r = Inr sig \<Longrightarrow> kid \<in> mgr_held held m pid" by blast+
qed

end

text \<open>Bindings of any manager, whatever its plugins do.\<close>

lemma generate_key_on_keeps_bindings:
  assumes "generate_key_on pid alg env auth (m, w) = (r, (m', w'))" and "bound m k = Some q"
  shows "bound m' k = Some q"
proof -
  obtain r1 m1 w1 where o: "on_plugin pid (\<lambda>ops. po_generate_key ops alg env auth) (m, w) = (r1, (m1, w1))"
    by (metis prod.collapse)
  have c: "mg_config m1 = mg_config m" by (rule on_plugin_cases [OF o]) simp_all
  show ?thesis
    using assms o c
    by (cases r1) (auto simp: generate_key_on_def ebind_def get_state_def modify_state_def Let_def
      split: option.splits if_splits)
qed

lemma bind_keys_result:
  "bind_keys pid kids m = (r, m') \<Longrightarrow>
     (\<forall>k q. bound m k = Some q \<longrightarrow> bound m' k = Some q) \<and>
     (r = Inr () \<longleftrightarrow> (\<forall>k \<in> set kids. bound m k \<in> {None, Some pid})) \<and>
     (r = Inr () \<longrightarrow> (\<forall>k. bound m' k = (if k \<in> set kids then Some pid else bound m k)))"
proof (induction kids arbitrary: m)
  case (Cons kid kids)
  show ?case
  proof (cases "\<exists>q. bound m kid = Some q \<and> q \<noteq> pid")
    case True
    then show ?thesis using Cons.prems by auto
  next
    case False
    then have f: "bound m kid = None \<or> bound m kid = Some pid" by (cases "bound m kid") auto
    then have "bind_keys pid kids (bind_key kid pid m) = (r, m')" using Cons.prems by auto
    note step = Cons.IH [OF this, simplified binding_simps]
    have "\<forall>k q. bound m k = Some q \<longrightarrow> bound m' k = Some q"
      using step f by (metis option.distinct(1) option.inject)
    moreover have "r = Inr () \<longleftrightarrow> (\<forall>k \<in> set (kid # kids). bound m k \<in> {None, Some pid})"
      using step f by (auto split: if_splits)
    moreover have "r = Inr () \<longrightarrow>
        (\<forall>k. bound m' k = (if k \<in> set (kid # kids) then Some pid else bound m k))"
      using step by (auto split: if_splits)
    ultimately show ?thesis by blast
  qed
qed auto

subsection \<open>Properties\<close>

lemma try_candidates_first_fit:
  "try_candidates required le ps alg env auth s = (Inr g, t) \<Longrightarrow>
     try_candidates required le (ps @ qs) alg env auth s = (Inr g, t)"
proof (induction required le ps alg env auth s rule: try_candidates.induct)
  case (2 required last_err pid pids alg env auth s)
  show ?case
    using 2 by (auto simp: Let_def split: sum.splits prod.splits if_splits)
qed simp

text \<open>A binding never moves. Neither generating a key nor binding a list of keys changes a
  binding that exists, for any plugins at all; and binding a list succeeds exactly when none of its
  keys is bound to another plugin.\<close>

lemma bindings_never_move:
  assumes "bound m k = Some q"
  shows "(\<forall>pid alg env auth w. bound (fst (snd (generate_key_on pid alg env auth (m, w)))) k = Some q) \<and>
    (\<forall>pid kids. bound (snd (bind_keys pid kids m)) k = Some q) \<and>
    (\<forall>pid kids. fst (bind_keys pid kids m) = Inr () \<longleftrightarrow>
       {kid \<in> set kids. bound m kid \<notin> {None, Some pid}} = {})"
proof (intro conjI allI)
  fix pid alg env auth w
  show "bound (fst (snd (generate_key_on pid alg env auth (m, w)))) k = Some q"
    using generate_key_on_keeps_bindings [OF _ assms] by (metis prod.collapse)
next
  fix pid kids
  obtain r m' where b: "bind_keys pid kids m = (r, m')" by (cases "bind_keys pid kids m")
  show "bound (snd (bind_keys pid kids m)) k = Some q"
    "fst (bind_keys pid kids m) = Inr () \<longleftrightarrow> {kid \<in> set kids. bound m kid \<notin> {None, Some pid}} = {}"
    using bind_keys_result [OF b] assms b by auto
qed

lemma bindings_never_move_witness:
  "bound (snd (bind_keys ''b'' [''j'', ''k''] (bind_key ''k'' ''a'' (manager_new default_config)))) ''k'' = Some ''a''"
proof -
  have "bound (bind_key ''k'' ''a'' (manager_new default_config)) ''k'' = Some ''a''" by simp
  from bindings_never_move [OF this] show ?thesis by blast
qed

end
