(* ===== verification/Softkey.thy ===== *)
theory Softkey
  imports Plugin_Iface
begin

section \<open>The software key store: src/plugins/softkey.rs\<close>

text \<open>
  State: the \<open>HashMap\<close> of stored keys by kid and the map of lifecycle contexts. The two mutexes
  become the two fields; each method locks them in turn, so a method is one transaction here.
  Container (de)serialisation is serde's: \<open>from_container\<close> and \<open>export_container\<close> take the parsers
  and the writer as arguments.

  The invariant \<open>sk_inv\<close>: no kid is stored twice and a record is filed under its own kid. The
  plugin is an interpretation of \<open>key_store\<close>.
\<close>

record stored_key =
  sk_kid :: string
  sk_algorithm :: string
  sk_d :: string
  sk_created_at :: int

record softkey_state =
  sk_keys :: "(string, stored_key) hashmap"
  sk_lifecycle :: lifecycle_map

record exported_container =
  xc_keys :: "stored_key list"
  xc_lifecycle :: lifecycle_map

definition softkey_new :: softkey_state where
  "softkey_new = \<lparr>sk_keys = [], sk_lifecycle = []\<rparr>"

definition from_container ::
  "(bytes \<Rightarrow> string + exported_container) \<Rightarrow> (bytes \<Rightarrow> string + stored_key list) \<Rightarrow> bytes
   \<Rightarrow> softkey_state wres" where
  "from_container parse_container parse_legacy container =
     rbind (case parse_container container of
              Inr x \<Rightarrow> Inr (xc_keys x, xc_lifecycle x)
            | Inl _ \<Rightarrow>
                rbind (map_err Serialization (parse_legacy container)) (\<lambda>keys. Inr (keys, [])))
       (\<lambda>(keys, lifecycle).
          Inr \<lparr>sk_keys = hm_of_records sk_kid keys, sk_lifecycle = lifecycle\<rparr>)"

definition softkey_key_ids :: "softkey_state \<Rightarrow> key_id list" where
  "softkey_key_ids p = hm_keys (sk_keys p)"

definition exported_of :: "softkey_state \<Rightarrow> exported_container" where
  "exported_of p = \<lparr>xc_keys = hm_values (sk_keys p), xc_lifecycle = sk_lifecycle p\<rparr>"

definition export_container ::
  "(exported_container \<Rightarrow> string + bytes) \<Rightarrow> softkey_state \<Rightarrow> bytes wres" where
  "export_container to_vec p = map_err Serialization (to_vec (exported_of p))"

subsection \<open>Keys and signatures\<close>

definition public_key_jwk_p256 :: "externals \<Rightarrow> p256_point \<Rightarrow> json" where
  "public_key_jwk_p256 X p = jwk_ec X ''P-256'' (pt_x p) (pt_y p)"

definition jwk_okp :: "externals \<Rightarrow> bytes \<Rightarrow> json" where
  "jwk_okp X x = JObject [(''kty'', JString ''OKP''), (''crv'', JString ''Ed25519''),
                           (''x'', JString (b64url_enc X x))]"

text \<open>The secret scalar of a stored P-256 key.\<close>

definition load_p256_signing_key :: "externals \<Rightarrow> stored_key \<Rightarrow> bytes wres" where
  "load_p256_signing_key X stored =
     rbind (map_err Crypto (b64url_dec X (sk_d stored))) (\<lambda>scalar_bytes.
       map_err Crypto (p256_secret_from_slice X scalar_bytes))"

definition load_ed25519_key :: "externals \<Rightarrow> stored_key \<Rightarrow> bytes wres" where
  "load_ed25519_key X stored =
     rbind (map_err Crypto (b64url_dec X (sk_d stored))) (\<lambda>scalar_bytes.
       if length scalar_bytes \<noteq> 32 then Inl (Crypto ''invalid Ed25519 key length'')
       else Inr scalar_bytes)"

text \<open>The fresh key pair: the encoded secret and the public JWK.\<close>

definition fresh_key ::
  "externals \<Rightarrow> 'w env \<Rightarrow> algorithm \<Rightarrow> ('w, string \<times> json) weff" where
  "fresh_key X env alg =
     (case alg of
        Bls12381G1Schnorr \<Rightarrow> ethrow (Unsupported ''softkey'' ''generate_key(Bls12381G1Schnorr)'')
      | ES256 \<Rightarrow>
          ebind (generate_secret env) (\<lambda>secret.
            ereturn (b64url_enc X secret, public_key_jwk_p256 X (p256_public X secret)))
      | EdDSA \<Rightarrow>
          ebind (generate_secret env) (\<lambda>secret.
            ereturn (b64url_enc X secret, jwk_okp X (ed25519_public X secret))))"

definition softkey_generate_key ::
  "externals \<Rightarrow> algorithm \<Rightarrow> 'w env \<Rightarrow> 'w auth_callback \<Rightarrow> (softkey_state \<times> 'w, generated_key) weff" where
  "softkey_generate_key X alg env auth =
     ebind (started ''generate_key'' env) (\<lambda>_.
     ebind (on_snd (fresh_key X env alg)) (\<lambda>(d_encoded, jwk_value).
     ebind (elift (jwk_thumbprint X jwk_value)) (\<lambda>kid.
     ebind (on_snd (now_unix env)) (\<lambda>now.
     ebind (modify_state (\<lambda>p. p\<lparr>sk_keys := hm_insert kid
       \<lparr>sk_kid = kid, sk_algorithm = algorithm_as_str alg, sk_d = d_encoded, sk_created_at = now\<rparr>
       (sk_keys p)\<rparr>)) (\<lambda>_.
     ebind (completed env) (\<lambda>_.
       ereturn \<lparr>gk_kid = kid, gk_public_key_jwk = jwk_value\<rparr>))))))"

definition softkey_sign_with :: "externals \<Rightarrow> stored_key \<Rightarrow> bytes \<Rightarrow> bytes wres" where
  "softkey_sign_with X stored data =
     (if sk_algorithm stored = ''ES256'' then
        rbind (load_p256_signing_key X stored) (\<lambda>sk. Inr (p256_ecdsa_sign X sk data))
      else if sk_algorithm stored = ''EdDSA'' then
        rbind (load_ed25519_key X stored) (\<lambda>sk. Inr (ed25519_sign X sk data))
      else Inl (Unsupported ''softkey'' (''sign with algorithm '' @ sk_algorithm stored)))"

definition softkey_sign ::
  "externals \<Rightarrow> key_id \<Rightarrow> bytes \<Rightarrow> algorithm \<Rightarrow> 'w env \<Rightarrow> 'w auth_callback
   \<Rightarrow> (softkey_state \<times> 'w, bytes) weff" where
  "softkey_sign X kid data alg env auth =
     ebind (started ''sign'' env) (\<lambda>_.
     ebind get_state (\<lambda>p.
     ebind (elift (rbind (find_key (sk_keys p) kid) (\<lambda>stored. softkey_sign_with X stored data)))
       (\<lambda>sig_bytes.
     ebind (completed env) (\<lambda>_. ereturn sig_bytes))))"

definition softkey_list_keys :: "softkey_state \<Rightarrow> key_info list" where
  "softkey_list_keys p = map (\<lambda>k.
     \<lparr>ki_kid = sk_kid k, ki_algorithm = (if sk_algorithm k = ''EdDSA'' then EdDSA else ES256),
      ki_plugin_id = ''softkey'', ki_created_at = sk_created_at k\<rparr>) (hm_values (sk_keys p))"

definition softkey_delete_key :: "key_id \<Rightarrow> (softkey_state \<times> 'w, unit) weff" where
  "softkey_delete_key kid =
     ebind get_state (\<lambda>p.
     ebind (elift (find_key (sk_keys p) kid)) (\<lambda>_.
       modify_state (\<lambda>p. p\<lparr>sk_keys := hm_remove kid (sk_keys p)\<rparr>)))"

definition softkey_export_public_key :: "externals \<Rightarrow> key_id \<Rightarrow> softkey_state \<Rightarrow> json wres" where
  "softkey_export_public_key X kid p =
     rbind (find_key (sk_keys p) kid) (\<lambda>stored.
       if sk_algorithm stored = ''ES256'' then
         rbind (load_p256_signing_key X stored) (\<lambda>sk. Inr (public_key_jwk_p256 X (p256_public X sk)))
       else if sk_algorithm stored = ''EdDSA'' then
         rbind (load_ed25519_key X stored) (\<lambda>sk. Inr (jwk_okp X (ed25519_public X sk)))
       else Inl (Unsupported ''softkey''
         (''export_public_key for algorithm '' @ sk_algorithm stored)))"

definition softkey_import_key ::
  "externals \<Rightarrow> algorithm \<Rightarrow> 'w env \<Rightarrow> 'w auth_callback \<Rightarrow> (softkey_state \<times> 'w, migration_result) weff" where
  "softkey_import_key X alg env auth =
     ebind (softkey_generate_key X alg env auth) (\<lambda>g. ereturn (Migrated (gk_kid g)))"

definition softkey_authentication_capability :: "softkey_state \<Rightarrow> key_id \<Rightarrow> factor_capability wres" where
  "softkey_authentication_capability p kid =
     (if \<not> hm_contains (sk_keys p) kid then Inl (KeyNotFound kid)
      else Inr (capability_cannot (''a software key applies no user verification and has no TS12 ''
        @ ''possession method'')))"

definition softkey_security_properties :: "softkey_state \<Rightarrow> key_id \<Rightarrow> security_properties wres" where
  "softkey_security_properties p kid =
     (if \<not> hm_contains (sk_keys p) kid then Inl (KeyNotFound kid)
      else Inr \<lparr>sp_key_storage = Software, sp_user_authentication = [],
                sp_certification = Unattested, sp_amr = [''swk'']\<rparr>)"

subsection \<open>Lifecycle\<close>

definition softkey_lifecycle_entry ::
  "softkey_state \<Rightarrow> string \<Rightarrow> (factor_kind \<times> lifecycle_state \<times> int) option" where
  "softkey_lifecycle_entry p cid = context_entry (sk_lifecycle p) cid"

definition softkey_register_lifecycle ::
  "externals \<Rightarrow> register_request \<Rightarrow> 'w env \<Rightarrow> 'w auth_callback
   \<Rightarrow> (softkey_state \<times> 'w, lifecycle_outcome) weff" where
  "softkey_register_lifecycle X request env auth =
     ebind (softkey_generate_key X ES256 env auth) (\<lambda>generated.
     ebind (on_snd (now_unix env)) (\<lambda>now.
     ebind get_state (\<lambda>p.
       case register_lifecycle_context (sk_lifecycle p) (rr_context_id request)
              (rr_factor_kind request) (gk_kid generated) now of
         (stale_ids, lifecycle, outcome) \<Rightarrow>
           ebind (modify_state (\<lambda>p. p\<lparr>sk_keys := hm_remove_all stale_ids (sk_keys p),
                                     sk_lifecycle := lifecycle\<rparr>)) (\<lambda>_. ereturn outcome))))"

definition softkey_activate_lifecycle ::
  "context_request \<Rightarrow> 'w env \<Rightarrow> 'w auth_callback \<Rightarrow> (softkey_state \<times> 'w, lifecycle_outcome) weff" where
  "softkey_activate_lifecycle request env auth =
     ebind (on_snd (now_unix env)) (\<lambda>now.
     ebind get_state (\<lambda>p.
     ebind (elift (activate_lifecycle_context (sk_lifecycle p) (cr_context_id request) now))
       (\<lambda>lifecycle.
     ebind (modify_state (\<lambda>p. p\<lparr>sk_lifecycle := lifecycle\<rparr>)) (\<lambda>_.
       ereturn \<lparr>lo_context_id = cr_context_id request, lo_state = Active\<rparr>))))"

definition softkey_rotate_lifecycle ::
  "externals \<Rightarrow> context_request \<Rightarrow> 'w env \<Rightarrow> 'w auth_callback
   \<Rightarrow> (softkey_state \<times> 'w, lifecycle_outcome) weff" where
  "softkey_rotate_lifecycle X request env auth =
     ebind (softkey_generate_key X ES256 env auth) (\<lambda>generated.
     ebind (on_snd (now_unix env)) (\<lambda>now.
     ebind get_state (\<lambda>p.
     ebind (elift (rotate_lifecycle_push_key (sk_lifecycle p) (cr_context_id request)
       (gk_kid generated) now)) (\<lambda>(lifecycle, ctx).
     ebind (modify_state (\<lambda>p. p\<lparr>sk_lifecycle := lifecycle\<rparr>)) (\<lambda>_.
       ereturn \<lparr>lo_context_id = cr_context_id request, lo_state = lc_state ctx\<rparr>)))))"

definition softkey_destroy_lifecycle ::
  "destroy_request \<Rightarrow> 'w env \<Rightarrow> 'w auth_callback \<Rightarrow> (softkey_state \<times> 'w, destruction_outcome) weff" where
  "softkey_destroy_lifecycle request env auth =
     ebind get_state (\<lambda>p.
     ebind (elift (context_key_ids (sk_lifecycle p) (dr_context_id request))) (\<lambda>key_ids.
     ebind (modify_state (\<lambda>p. p\<lparr>sk_keys := hm_remove_all key_ids (sk_keys p)\<rparr>)) (\<lambda>_.
     ebind (on_snd (now_unix env)) (\<lambda>now.
     ebind (modify_state (\<lambda>p. p\<lparr>sk_lifecycle :=
       destroy_context (sk_lifecycle p) (dr_context_id request) now\<rparr>)) (\<lambda>_.
       ereturn \<lparr>do_context_id = dr_context_id request, do_state = Destroyed,
                do_remote_performed = False\<rparr>)))))"

subsection \<open>The method table\<close>

definition softkey_ops :: "externals \<Rightarrow> (softkey_state, 'w) plugin_ops" where
  "softkey_ops X =
     \<lparr>po_id = ''softkey'', po_auth_method = AuthNone,
      po_generate_key = softkey_generate_key X,
      po_sign = softkey_sign X,
      po_sign_with_factors = default_sign_with_factors ''softkey'' (softkey_sign X),
      po_authentication_capability = softkey_authentication_capability,
      po_list_keys = query (\<lambda>p. Inr (softkey_list_keys p)),
      po_attestation_chain = (\<lambda>kid. ereturn None),
      po_delete_key = softkey_delete_key,
      po_export_public_key = (\<lambda>kid. query (softkey_export_public_key X kid)),
      po_supports_import = True,
      po_import_key = softkey_import_key X,
      po_security_properties = softkey_security_properties,
      po_lifecycle_status = status_from_entry ''softkey'' softkey_lifecycle_entry,
      po_register_lifecycle = softkey_register_lifecycle X,
      po_activate_lifecycle = softkey_activate_lifecycle,
      po_rotate_lifecycle = softkey_rotate_lifecycle X,
      po_destroy_lifecycle = softkey_destroy_lifecycle\<rparr>"

subsection \<open>What each operation does to the state\<close>

definition sk_inv :: "softkey_state \<Rightarrow> bool" where
  "sk_inv p \<longleftrightarrow> hm_filed sk_kid (sk_keys p)"

definition sk_held :: "softkey_state \<Rightarrow> key_id set" where
  "sk_held p = {k. hm_get (sk_keys p) k \<noteq> None}"

lemma sk_held_keys: "sk_held p = set (hm_keys (sk_keys p))"
  by (simp add: sk_held_def set_hm_keys)

lemma fresh_key_ok:
  "fresh_key X env alg w = (Inr (d, jwk), w') \<Longrightarrow>
     \<exists>secret. d = b64url_enc X secret \<and>
       (alg = ES256 \<and> jwk = public_key_jwk_p256 X (p256_public X secret) \<or>
        alg = EdDSA \<and> jwk = jwk_okp X (ed25519_public X secret))"
  by (cases alg) (auto simp: fresh_key_def eff_elims)

text \<open>Generation stores exactly one record, filed under the thumbprint of the key it returns.\<close>

definition softkey_record :: "externals \<Rightarrow> algorithm \<Rightarrow> key_id \<Rightarrow> bytes \<Rightarrow> int \<Rightarrow> stored_key" where
  "softkey_record X alg kid secret t = \<lparr>sk_kid = kid, sk_algorithm = algorithm_as_str alg,
     sk_d = b64url_enc X secret, sk_created_at = t\<rparr>"

definition softkey_jwk :: "externals \<Rightarrow> algorithm \<Rightarrow> bytes \<Rightarrow> json" where
  "softkey_jwk X alg secret = (if alg = ES256 then public_key_jwk_p256 X (p256_public X secret)
     else jwk_okp X (ed25519_public X secret))"

lemma softkey_generate_ok:
  assumes "softkey_generate_key X alg env auth (p, w) = (Inr g, (p', w'))"
  obtains secret t where
    "p' = p\<lparr>sk_keys := hm_insert (gk_kid g) (softkey_record X alg (gk_kid g) secret t) (sk_keys p)\<rparr>"
    "jwk_thumbprint X (gk_public_key_jwk g) = Inr (gk_kid g)"
    "gk_public_key_jwk g = softkey_jwk X alg secret" "alg \<noteq> Bls12381G1Schnorr"
proof -
  obtain d jwk kid t w1 w2 where f: "fresh_key X env alg w1 = (Inr (d, jwk), w2)"
    and k: "jwk_thumbprint X jwk = Inr kid"
    and p': "p' = p\<lparr>sk_keys := hm_insert kid \<lparr>sk_kid = kid, sk_algorithm = algorithm_as_str alg,
      sk_d = d, sk_created_at = t\<rparr> (sk_keys p)\<rparr>"
    and g: "g = \<lparr>gk_kid = kid, gk_public_key_jwk = jwk\<rparr>"
    using assms unfolding softkey_generate_key_def by (auto simp: eff_elims)
  obtain secret where "d = b64url_enc X secret" "jwk = softkey_jwk X alg secret"
    "alg \<noteq> Bls12381G1Schnorr"
    using fresh_key_ok [OF f] by (auto simp: softkey_jwk_def)
  then show ?thesis using that [of secret t] k p' g by (simp add: softkey_record_def)
qed

lemma softkey_generate_err:
  assumes "softkey_generate_key X alg env auth (p, w) = (Inl e, (p', w'))"
  shows "p' = p"
  using assms unfolding softkey_generate_key_def by (auto simp: eff_elims)

lemma softkey_sign_frame:
  assumes "softkey_sign X kid data alg env auth (p, w) = (r, (p', w'))"
  shows "p' = p" and "r = Inr sig \<Longrightarrow> kid \<in> sk_held p"
  using assms unfolding softkey_sign_def
  by (cases r; auto simp: eff_elims rbind_eq_Inr sk_held_def)+

lemma softkey_sign_fst: "fst (snd (softkey_sign X kid data alg env auth s)) = fst s"
proof -
  obtain p w r p' w' where "s = (p, w)" "softkey_sign X kid data alg env auth (p, w) = (r, (p', w'))"
    by (metis prod.collapse)
  then show ?thesis using softkey_sign_frame(1) by simp
qed

lemma softkey_delete_cases:
  "softkey_delete_key kid (p, w) =
     (case hm_get (sk_keys p) kid of
        Some _ \<Rightarrow> (Inr (), (p\<lparr>sk_keys := hm_remove kid (sk_keys p)\<rparr>, w))
      | None \<Rightarrow> (Inl (KeyNotFound kid), (p, w)))"
  by (auto simp: softkey_delete_key_def find_key_def modify_state_def split: option.splits)

lemma softkey_list_kids: "map ki_kid (softkey_list_keys p) = map sk_kid (hm_values (sk_keys p))"
  by (simp add: softkey_list_keys_def)

lemma softkey_ops_simps [simp]:
  "po_id (softkey_ops X) = ''softkey''"
  "po_generate_key (softkey_ops X) = softkey_generate_key X"
  "po_sign (softkey_ops X) = softkey_sign X"
  "po_sign_with_factors (softkey_ops X) = default_sign_with_factors ''softkey'' (softkey_sign X)"
  "po_list_keys (softkey_ops X) = query (\<lambda>p. Inr (softkey_list_keys p))"
  "po_attestation_chain (softkey_ops X) = (\<lambda>kid. ereturn None)"
  "po_delete_key (softkey_ops X) = softkey_delete_key"
  "po_export_public_key (softkey_ops X) = (\<lambda>kid. query (softkey_export_public_key X kid))"
  "po_security_properties (softkey_ops X) = softkey_security_properties"
  by (simp_all add: softkey_ops_def)

interpretation sk: key_store "softkey_ops X" sk_inv sk_held for X
proof
  fix p :: softkey_state and alg env auth and w :: 'b and g p' w'
  assume "sk_inv p" and "po_generate_key (softkey_ops X) alg env auth (p, w) = (Inr g, (p', w'))"
  then show "sk_inv p' \<and> sk_held p' = insert (gk_kid g) (sk_held p)"
    by simp (erule softkey_generate_ok; auto simp: sk_inv_def sk_held_def softkey_record_def)
next
  fix p :: softkey_state and alg env auth and w :: 'b and e p' w'
  assume "po_generate_key (softkey_ops X) alg env auth (p, w) = (Inl e, (p', w'))"
  then show "p' = p" by (simp add: softkey_generate_err)
next
  fix p :: softkey_state and kid data alg env auth and w :: 'b and r p' w'
  assume "po_sign (softkey_ops X) kid data alg env auth (p, w) = (r, (p', w'))"
  then show "p' = p" by (simp add: softkey_sign_frame)
next
  fix p :: softkey_state and kid data alg env auth and w :: 'b and sig p' w'
  assume "po_sign (softkey_ops X) kid data alg env auth (p, w) = (Inr sig, (p', w'))"
  then show "kid \<in> sk_held p" by (simp add: softkey_sign_frame)
next
  fix p :: softkey_state and kid data alg opts env auth and w :: 'b and r p' w'
  assume "po_sign_with_factors (softkey_ops X) kid data alg opts env auth (p, w) = (r, (p', w'))"
  then have "default_sign_with_factors ''softkey'' (softkey_sign X) kid data alg opts env auth (p, w)
      = (r, (p', w'))" by simp
  then show "p' = p" by (rule default_factors_frame [rotated]) (rule softkey_sign_fst)
next
  fix p :: softkey_state and kid and w :: 'b and p' w'
  assume "sk_inv p" and "po_delete_key (softkey_ops X) kid (p, w) = (Inr (), (p', w'))"
  then show "sk_inv p' \<and> kid \<in> sk_held p \<and> sk_held p' = sk_held p - {kid}"
    by (auto simp: softkey_delete_cases sk_inv_def sk_held_def split: option.splits if_splits)
next
  fix p :: softkey_state and kid and w :: 'b and e p' w'
  assume "po_delete_key (softkey_ops X) kid (p, w) = (Inl e, (p', w'))"
  then show "p' = p" by (auto simp: softkey_delete_cases split: option.splits)
next
  fix p :: softkey_state and w :: 'b and rl p' w'
  assume "sk_inv p" and "po_list_keys (softkey_ops X) (p, w) = (rl, (p', w'))"
  then have "map ki_kid (softkey_list_keys p) = hm_keys (sk_keys p)" "hm_wf (sk_keys p)"
    and r: "p' = p" "rl = Inr (softkey_list_keys p)"
    by (auto simp: softkey_list_kids sk_inv_def hm_filed_values hm_filed_def query_def)
  note l = listing_covers [OF this(1,2)]
  have "\<forall>i \<in> set (softkey_list_keys p). ki_plugin_id i = ''softkey''"
    by (simp add: softkey_list_keys_def)
  then show "p' = p \<and> (\<exists>infos. rl = Inr infos \<and> ki_kid ` set infos = sk_held p \<and>
      distinct (map ki_kid infos) \<and> (\<forall>i \<in> set infos. ki_plugin_id i = po_id (softkey_ops X)))"
    using l r by (simp add: sk_held_def)
next
  fix p :: softkey_state and kid and w :: 'b and ra p' w'
  assume "po_attestation_chain (softkey_ops X) kid (p, w) = (ra, (p', w'))"
  then show "p' = p" by simp
next
  fix p :: softkey_state and kid and w :: 'b and re p' w'
  assume "po_export_public_key (softkey_ops X) kid (p, w) = (re, (p', w'))"
  then show "p' = p" by (simp add: query_def)
next
  fix p kid
  show "is_ok (po_security_properties (softkey_ops X) p kid) = (kid \<in> sk_held p)"
    by (simp add: softkey_security_properties_def sk_held_def hm_contains_def)
qed

subsection \<open>Properties\<close>

text \<open>A generated secret, as the curve packages produce it: it loads back, and has 32 bytes.\<close>

definition secrets_ok :: "externals \<Rightarrow> 'w env \<Rightarrow> bool" where
  "secrets_ok X env \<longleftrightarrow>
     (\<forall>w. length (fst (env_generate_secret env w)) = 32 \<and>
        p256_secret_from_slice X (fst (env_generate_secret env w)) = Inr (fst (env_generate_secret env w)))"

lemma softkey_generate_secret:
  assumes "softkey_generate_key X alg env auth (p, w) = (Inr g, (p', w'))"
  shows "\<exists>secret t w0. secret = fst (env_generate_secret env w0) \<and> alg \<noteq> Bls12381G1Schnorr \<and>
    p' = p\<lparr>sk_keys := hm_insert (gk_kid g) (softkey_record X alg (gk_kid g) secret t) (sk_keys p)\<rparr> \<and>
    gk_public_key_jwk g = softkey_jwk X alg secret"
proof -
  let ?w0 = "env_progress env (Started ''generate_key'') w"
  let ?s = "fst (env_generate_secret env ?w0)"
  let ?t = "fst (env_now env (snd (env_generate_secret env ?w0)))"
  have "alg \<noteq> Bls12381G1Schnorr \<and>
    p' = p\<lparr>sk_keys := hm_insert (gk_kid g) (softkey_record X alg (gk_kid g) ?s ?t) (sk_keys p)\<rparr> \<and>
    gk_public_key_jwk g = softkey_jwk X alg ?s"
    using assms unfolding softkey_generate_key_def fresh_key_def
    by (cases alg) (auto simp: eff_elims softkey_record_def softkey_jwk_def)
  then show ?thesis by blast
qed

text \<open>A generated software key works. Exporting it gives the public key generation returned, and
  signing any data with it succeeds with the signature of the generated secret.\<close>

lemma generated_software_key_works:
  assumes "base64_ok X" and "secrets_ok X env"
    and "softkey_generate_key X alg env auth (p, w) = (Inr g, (p', w'))"
  shows "softkey_export_public_key X (gk_kid g) p' = Inr (gk_public_key_jwk g) \<and>
    (\<exists>secret. softkey_sign X (gk_kid g) data alg' env auth (p', v) =
       (Inr (if alg = ES256 then p256_ecdsa_sign X secret data else ed25519_sign X secret data),
        (p', env_progress env Complete (env_progress env (Started ''sign'') v))))"
proof -
  obtain secret t w0 where s: "secret = fst (env_generate_secret env w0)" and alg: "alg \<noteq> Bls12381G1Schnorr"
    and p': "p' = p\<lparr>sk_keys := hm_insert (gk_kid g) (softkey_record X alg (gk_kid g) secret t) (sk_keys p)\<rparr>"
    and j: "gk_public_key_jwk g = softkey_jwk X alg secret"
    using softkey_generate_secret [OF assms(3)] by blast
  have ok: "length secret = 32" "p256_secret_from_slice X secret = Inr secret"
    "b64url_dec X (b64url_enc X secret) = Inr secret"
    using assms(1,2) s by (simp_all add: secrets_ok_def base64_ok_def)
  have k: "find_key (sk_keys p') (gk_kid g) = Inr (softkey_record X alg (gk_kid g) secret t)"
    using p' by (simp add: find_key_def)
  have "softkey_export_public_key X (gk_kid g) p' = Inr (gk_public_key_jwk g)"
    using alg ok j
    by (cases alg) (simp_all add: softkey_export_public_key_def k softkey_record_def softkey_jwk_def
        load_p256_signing_key_def load_ed25519_key_def)
  moreover have "softkey_sign X (gk_kid g) data alg' env auth (p', v) =
       (Inr (if alg = ES256 then p256_ecdsa_sign X secret data else ed25519_sign X secret data),
        (p', env_progress env Complete (env_progress env (Started ''sign'') v)))"
    using alg ok
    by (cases alg) (simp_all add: softkey_sign_def k softkey_sign_with_def softkey_record_def
        load_p256_signing_key_def load_ed25519_key_def)
  ultimately show ?thesis by blast
qed

lemma ref_secrets_ok: "secrets_ok ref_externals ref_env"
  by (simp add: secrets_ok_def ref_externals_def)

lemma ref_softkey_generates:
  "\<exists>g p' w'. softkey_generate_key ref_externals ES256 ref_env auth (p, w) = (Inr g, (p', w'))"
  by (simp add: softkey_generate_key_def fresh_key_def public_key_jwk_p256_def jwk_ec_thumbprint
      generate_secret_def now_unix_def on_snd_def ebind_def etotal_def started_def completed_def
      on_progress_def modify_state_def)

lemma generated_software_key_works_witness:
  "\<exists>g p' w' sig. softkey_generate_key ref_externals ES256 ref_env (ref_auth []) (softkey_new, 0) = (Inr g, (p', w')) \<and>
     softkey_sign ref_externals (gk_kid g) [1, 2] ES256 ref_env (ref_auth []) (p', w') = (Inr sig, (p', w'))"
proof -
  obtain g p' w' where run: "softkey_generate_key ref_externals ES256 ref_env (ref_auth []) (softkey_new, 0)
      = (Inr g, (p', w'))" using ref_softkey_generates by blast
  show ?thesis
    using generated_software_key_works [OF ref_base64_ok ref_secrets_ok run, of "[1, 2]" ES256 w'] run
    by auto
qed

text \<open>A container restores. For any serialiser and its parser, loading an exported container gives
  back every key record under its kid and the lifecycle contexts unchanged.\<close>

lemma container_restores_the_store:
  assumes "sk_inv p" and "\<And>x bs. to_vec x = Inr bs \<Longrightarrow> parse bs = Inr x"
    and "export_container to_vec p = Inr bytes"
  shows "\<exists>q. from_container parse parse_legacy bytes = Inr q \<and>
    hm_get (sk_keys q) = hm_get (sk_keys p) \<and> sk_lifecycle q = sk_lifecycle p"
proof -
  have "parse bytes = Inr (exported_of p)"
    using assms(2,3) by (auto simp: export_container_def)
  then show ?thesis
    using hm_rebuild [of sk_kid "sk_keys p"] assms(1)
    by (auto simp: from_container_def exported_of_def sk_inv_def)
qed

definition one_key_store :: softkey_state where
  "one_key_store = \<lparr>sk_keys = [(''k'', \<lparr>sk_kid = ''k'', sk_algorithm = ''ES256'', sk_d = ''d'',
     sk_created_at = 0\<rparr>)], sk_lifecycle = []\<rparr>"

lemma container_restores_the_store_witness:
  "\<exists>q. from_container (\<lambda>bs. Inr (exported_of one_key_store)) (\<lambda>bs. Inl '''') [1] = Inr q \<and>
     hm_get (sk_keys q) ''k'' \<noteq> None"
proof -
  define to_vec where "to_vec x = (if x = exported_of one_key_store then Inr [1 :: byte] else Inl ''no'')"
    for x :: exported_container
  have inv: "sk_inv one_key_store"
    by (auto simp: sk_inv_def one_key_store_def hm_filed_def hm_wf_def hm_get_def)
  have ex: "export_container to_vec one_key_store = Inr [1]"
    by (simp add: export_container_def to_vec_def)
  have "hm_get (sk_keys one_key_store) ''k'' \<noteq> None" by (simp add: one_key_store_def hm_get_def)
  have "\<exists>q. from_container (\<lambda>bs. Inr (exported_of one_key_store)) (\<lambda>bs. Inl '''') [1] = Inr q \<and>
      hm_get (sk_keys q) = hm_get (sk_keys one_key_store) \<and> sk_lifecycle q = sk_lifecycle one_key_store"
  proof (rule container_restores_the_store [OF inv _ ex])
    show "Inr (exported_of one_key_store) = (Inr x :: string + exported_container)" if "to_vec x = Inr bs"
      for x bs using that by (simp add: to_vec_def split: if_splits)
  qed
  then show ?thesis using \<open>hm_get (sk_keys one_key_store) ''k'' \<noteq> None\<close> by auto
qed

text \<open>The steps that change the store, and the states they reach.\<close>

inductive softkey_step :: "externals \<Rightarrow> 'w env \<Rightarrow> softkey_state \<Rightarrow> softkey_state \<Rightarrow> bool"
  for X :: externals and env :: "'w env" where
  generate: "softkey_generate_key X alg env auth (p, w) = (r, (p', w')) \<Longrightarrow> softkey_step X env p p'"
| delete: "softkey_delete_key kid (p, w :: 'w) = (r, (p', w')) \<Longrightarrow> softkey_step X env p p'"
| register: "softkey_register_lifecycle X rq env auth (p, w) = (r, (p', w')) \<Longrightarrow> softkey_step X env p p'"
| activate: "softkey_activate_lifecycle cq env auth (p, w) = (r, (p', w')) \<Longrightarrow> softkey_step X env p p'"
| rotate: "softkey_rotate_lifecycle X cq env auth (p, w) = (r, (p', w')) \<Longrightarrow> softkey_step X env p p'"
| destroy: "softkey_destroy_lifecycle dq env auth (p, w) = (r, (p', w')) \<Longrightarrow> softkey_step X env p p'"

definition softkey_ok :: "softkey_state \<Rightarrow> bool" where
  "softkey_ok p \<longleftrightarrow> sk_inv p \<and> hm_wf (sk_lifecycle p) \<and>
     (\<forall>cid c. hm_get (sk_lifecycle p) cid = Some c \<longrightarrow> lc_state c \<in> {Registered, Active, Destroyed})"

lemma softkey_ok_generate:
  "softkey_ok p \<Longrightarrow> softkey_generate_key X alg env auth (p, w) = (r, (p', w')) \<Longrightarrow> softkey_ok p'"
  using softkey_generate_secret [of X alg env auth p w] softkey_generate_err [of X alg env auth p w]
  by (cases r) (fastforce simp: softkey_ok_def sk_inv_def softkey_record_def)+

lemma softkey_ok_context:
  assumes "softkey_ok p" and "lc_state c \<in> {Registered, Active, Destroyed}"
  shows "softkey_ok (p\<lparr>sk_lifecycle := hm_insert cid c (sk_lifecycle p)\<rparr>)"
  using assms by (auto simp: softkey_ok_def sk_inv_def)

lemma softkey_ok_keys:
  "softkey_ok p \<Longrightarrow> softkey_ok (p\<lparr>sk_keys := hm_remove_all ks (sk_keys p)\<rparr>)"
  "softkey_ok p \<Longrightarrow> softkey_ok (p\<lparr>sk_keys := hm_remove kid (sk_keys p)\<rparr>)"
  by (simp_all add: softkey_ok_def sk_inv_def)

lemma softkey_ok_delete:
  "softkey_ok p \<Longrightarrow> softkey_delete_key kid (p, w) = (r, (p', w')) \<Longrightarrow> softkey_ok p'"
  using softkey_ok_keys(2) [of p kid] by (auto simp: softkey_delete_cases split: option.splits)

text \<open>Registering: the new key is stored, the keys of the context it replaces are purged.\<close>

lemma softkey_register_run:
  assumes "softkey_register_lifecycle X rq env auth (p, w) = (Inr out, (p', w'))"
  shows "\<exists>g p1 w1 t. softkey_generate_key X ES256 env auth (p, w) = (Inr g, (p1, w1)) \<and>
    p' = p1\<lparr>sk_keys := hm_remove_all (case hm_get (sk_lifecycle p1) (rr_context_id rq) of
             Some old \<Rightarrow> lc_key_ids old | None \<Rightarrow> []) (sk_keys p1),
           sk_lifecycle := hm_insert (rr_context_id rq) \<lparr>lc_factor_kind = rr_factor_kind rq,
             lc_state = Registered, lc_updated_at = t, lc_key_ids = [gk_kid g]\<rparr> (sk_lifecycle p1)\<rparr>"
  using assms unfolding softkey_register_lifecycle_def register_lifecycle_context_def
  by (force simp: eff_elims)

lemma softkey_ok_register:
  assumes "softkey_ok p" and run: "softkey_register_lifecycle X rq env auth (p, w) = (r, (p', w'))"
  shows "softkey_ok p'"
proof (cases r)
  case (Inl e)
  then have "p' = p"
    using run softkey_generate_err unfolding softkey_register_lifecycle_def register_lifecycle_context_def
    by (auto simp: eff_elims)
  then show ?thesis using assms(1) by simp
next
  case (Inr out)
  obtain g p1 w1 t where g: "softkey_generate_key X ES256 env auth (p, w) = (Inr g, (p1, w1))"
    and p': "p' = p1\<lparr>sk_keys := hm_remove_all (case hm_get (sk_lifecycle p1) (rr_context_id rq) of
             Some old \<Rightarrow> lc_key_ids old | None \<Rightarrow> []) (sk_keys p1),
           sk_lifecycle := hm_insert (rr_context_id rq) \<lparr>lc_factor_kind = rr_factor_kind rq,
             lc_state = Registered, lc_updated_at = t, lc_key_ids = [gk_kid g]\<rparr> (sk_lifecycle p1)\<rparr>"
    using softkey_register_run [OF run [unfolded Inr]] by blast
  have "softkey_ok p1" by (rule softkey_ok_generate [OF assms(1) g])
  then show ?thesis using softkey_ok_context [OF softkey_ok_keys(1), of p1] unfolding p' by simp
qed

lemma softkey_ok_activate:
  assumes "softkey_ok p" and "softkey_activate_lifecycle cq env auth (p, w) = (r, (p', w'))"
  shows "softkey_ok p'"
  using assms softkey_ok_context [OF assms(1)]
  unfolding softkey_activate_lifecycle_def activate_lifecycle_context_def
  by (cases r) (auto simp: eff_elims rbind_eq_Inr)

lemma softkey_ok_rotate:
  assumes "softkey_ok p" and run: "softkey_rotate_lifecycle X cq env auth (p, w) = (r, (p', w'))"
  shows "softkey_ok p'"
proof -
  obtain rg p1 w1 where g: "softkey_generate_key X ES256 env auth (p, w) = (rg, (p1, w1))"
    by (metis prod.collapse)
  have ok: "softkey_ok p1" by (rule softkey_ok_generate [OF assms(1) g])
  have "lc_state c \<in> {Registered, Active, Destroyed}"
    if "hm_get (sk_lifecycle p1) cid = Some c" for cid c
    using ok that unfolding softkey_ok_def by blast
  then show ?thesis
    using run g ok softkey_ok_context [OF ok]
    unfolding softkey_rotate_lifecycle_def rotate_lifecycle_push_key_def Let_def
    by (cases rg; cases r) (auto simp: eff_elims rbind_eq_Inr)
qed

lemma softkey_destroy_run:
  assumes "softkey_destroy_lifecycle dq env auth (p, w) = (r, (p', w'))"
  shows "case hm_get (sk_lifecycle p) (dr_context_id dq) of
      None \<Rightarrow> r = Inl (KeyNotFound (dr_context_id dq)) \<and> p' = p
    | Some c \<Rightarrow> is_ok r \<and> p' = p\<lparr>sk_keys := hm_remove_all (lc_key_ids c) (sk_keys p),
        sk_lifecycle := hm_insert (dr_context_id dq) (c\<lparr>lc_state := Destroyed,
          lc_updated_at := fst (env_now env w), lc_key_ids := []\<rparr>) (sk_lifecycle p)\<rparr>"
  using assms unfolding softkey_destroy_lifecycle_def context_key_ids_def destroy_context_def
  by (auto simp: ebind_def get_state_def on_snd_def now_unix_def etotal_def modify_state_def
      split: option.splits prod.splits)

lemma softkey_ok_destroy:
  assumes "softkey_ok p" and run: "softkey_destroy_lifecycle dq env auth (p, w) = (r, (p', w'))"
  shows "softkey_ok p'"
  using softkey_destroy_run [OF run] softkey_ok_context [OF softkey_ok_keys(1) [OF assms(1)]] assms(1)
  by (auto split: option.splits)

lemmas softkey_ok_steps = softkey_ok_generate softkey_ok_delete softkey_ok_register
  softkey_ok_activate softkey_ok_rotate softkey_ok_destroy

lemma softkey_step_ok: "softkey_step X env p p' \<Longrightarrow> softkey_ok p \<Longrightarrow> softkey_ok p'"
  by (induction rule: softkey_step.induct) (blast intro: softkey_ok_steps)+

subsection \<open>What import and lifecycle do to the keys\<close>

text \<open>A context's keys, which registering it anew or destroying it removes.\<close>

definition sk_context_keys :: "softkey_state \<Rightarrow> string \<Rightarrow> key_id set" where
  "sk_context_keys p cid = (case hm_get (sk_lifecycle p) cid of Some c \<Rightarrow> set (lc_key_ids c) | None \<Rightarrow> {})"

lemma softkey_generate_effect:
  assumes "sk_inv p" and "softkey_generate_key X alg env auth (p, w) = (r, (p', w'))"
  shows "sk_inv p'" and "sk_held p' = sk_held p \<union> new_key r" and "sk_lifecycle p' = sk_lifecycle p"
proof -
  have "sk_inv p' \<and> sk_held p' = sk_held p \<union> new_key r \<and> sk_lifecycle p' = sk_lifecycle p"
  proof (cases r)
    case (Inl e)
    then have "p' = p" using softkey_generate_err assms(2) by simp
    then show ?thesis using Inl assms(1) by (simp add: new_key_def)
  next
    case (Inr g)
    obtain secret t where
      "p' = p\<lparr>sk_keys := hm_insert (gk_kid g) (softkey_record X alg (gk_kid g) secret t) (sk_keys p)\<rparr>"
      using assms(2) unfolding Inr by (rule softkey_generate_ok)
    then show ?thesis
      using Inr assms(1) by (auto simp: new_key_def sk_inv_def sk_held_def softkey_record_def)
  qed
  then show "sk_inv p'" "sk_held p' = sk_held p \<union> new_key r" "sk_lifecycle p' = sk_lifecycle p" by blast+
qed

lemma softkey_register_effect:
  assumes "sk_inv p" and run: "softkey_register_lifecycle X rq env auth (p, w) = (r, (p', w'))"
  shows "sk_inv p' \<and> sk_held p' =
    (if is_ok r then sk_held p \<union> new_key (fst (softkey_generate_key X ES256 env auth (p, w)))
       - sk_context_keys p (rr_context_id rq) else sk_held p)"
proof (cases r)
  case (Inl e)
  then have "p' = p"
    using run softkey_generate_err unfolding softkey_register_lifecycle_def register_lifecycle_context_def
    by (auto simp: eff_elims)
  then show ?thesis using Inl assms(1) by simp
next
  case (Inr out)
  obtain g p1 w1 t where g: "softkey_generate_key X ES256 env auth (p, w) = (Inr g, (p1, w1))"
    and p': "p' = p1\<lparr>sk_keys := hm_remove_all (case hm_get (sk_lifecycle p1) (rr_context_id rq) of
             Some old \<Rightarrow> lc_key_ids old | None \<Rightarrow> []) (sk_keys p1),
           sk_lifecycle := hm_insert (rr_context_id rq) \<lparr>lc_factor_kind = rr_factor_kind rq,
             lc_state = Registered, lc_updated_at = t, lc_key_ids = [gk_kid g]\<rparr> (sk_lifecycle p1)\<rparr>"
    using softkey_register_run [OF run [unfolded Inr]] by blast
  note e = softkey_generate_effect [OF assms(1) g]
  have "sk_held p' = sk_held p1 - sk_context_keys p (rr_context_id rq)" "sk_inv p'"
    using e(1,3) by (auto simp: p' sk_held_def sk_context_keys_def sk_inv_def split: option.splits)
  then show ?thesis using Inr e(2) g by simp
qed

lemma softkey_rotate_effect:
  assumes "sk_inv p" and run: "softkey_rotate_lifecycle X cq env auth (p, w) = (r, (p', w'))"
  shows "sk_inv p' \<and> sk_held p' =
    (if not_supported r then sk_held p
     else sk_held p \<union> new_key (fst (softkey_generate_key X ES256 env auth (p, w))))"
proof -
  obtain q p1 w1 where g: "softkey_generate_key X ES256 env auth (p, w) = (q, (p1, w1))"
    by (metis prod.collapse)
  note e = softkey_generate_effect [OF assms(1) g]
  show ?thesis
  proof (cases q)
    case (Inl err)
    then have "p' = p" using run g softkey_generate_err unfolding softkey_rotate_lifecycle_def
      by (cases r) (auto simp: ebind_Inl)
    then show ?thesis using Inl assms(1) g by (simp add: new_key_def)
  next
    case (Inr x)
    have "sk_keys p' = sk_keys p1 \<and> \<not> not_supported r"
      using run g Inr unfolding softkey_rotate_lifecycle_def rotate_lifecycle_push_key_def
      by (cases r) (auto simp: eff_elims rbind_eq_Inr rbind_eq_Inl Let_def)
    then show ?thesis using e(1,2) g by (simp add: sk_inv_def sk_held_def)
  qed
qed

lemma softkey_activate_effect:
  assumes "softkey_activate_lifecycle cq env auth (p, w) = (r, (p', w'))"
  shows "sk_keys p' = sk_keys p"
  using assms unfolding softkey_activate_lifecycle_def by (cases r) (auto simp: eff_elims)

interpretation skm: managed_store "softkey_ops X" sk_inv sk_held sk_context_keys sk_context_keys for X
proof (unfold_locales, goal_cases)
  case (1 p alg env auth w r p' w')
  then obtain q where q: "softkey_generate_key X alg env auth (p, w) = (q, (p', w'))"
      "imported_key r = new_key q"
    by (cases r) (auto simp: softkey_ops_def softkey_import_key_def eff_elims imported_key_def new_key_def)
  show ?case using softkey_generate_effect [OF 1(1) q(1)] q(2) by simp
next
  case (2 p rq env auth w r p' w')
  then show ?case using softkey_register_effect [OF 2(1)] by (simp only: softkey_ops_def plugin_ops.simps)
next
  case (3 p cq env auth w r p' w')
  then have "sk_keys p' = sk_keys p" using softkey_activate_effect by (simp add: softkey_ops_def)
  then show ?case using 3(1) by (simp add: sk_inv_def sk_held_def)
next
  case (4 p cq env auth w r p' w')
  then show ?case using softkey_rotate_effect [OF 4(1)] by (simp only: softkey_ops_def plugin_ops.simps)
next
  case (5 p dq env auth w r p' w')
  then have "softkey_destroy_lifecycle dq env auth (p, w) = (r, (p', w'))" by (simp add: softkey_ops_def)
  from softkey_destroy_run [OF this] 5(1) show ?case
    by (auto simp: sk_inv_def sk_held_def sk_context_keys_def split: option.splits if_splits)
qed

text \<open>C31: every reachable store is well formed. From the empty store, no sequence of generations,
  deletions and lifecycle operations, failing or not, stores a kid twice or files a record under
  another kid, and every context is registered, active or destroyed.\<close>

theorem reachable_store_well_formed:
  assumes "(softkey_step X env)\<^sup>*\<^sup>* softkey_new p"
  shows "sk_inv p \<and> hm_wf (sk_lifecycle p) \<and>
    lc_state ` {c. \<exists>cid. hm_get (sk_lifecycle p) cid = Some c} \<subseteq> {Registered, Active, Destroyed}"
proof -
  have "softkey_ok p" using assms
  proof (induction rule: rtranclp_induct)
    case base
    show ?case by (simp add: softkey_ok_def softkey_new_def sk_inv_def)
  next
    case (step p q)
    then show ?case by (blast intro: softkey_step_ok)
  qed
  then show ?thesis unfolding softkey_ok_def by blast
qed

theorem reachable_store_well_formed_witness:
  "\<exists>p. (softkey_step ref_externals ref_env)\<^sup>*\<^sup>* softkey_new p \<and> sk_keys p \<noteq> [] \<and> sk_inv p"
proof -
  obtain g p' w' where run: "softkey_generate_key ref_externals ES256 ref_env (ref_auth []) (softkey_new, 0)
      = (Inr g, (p', w'))" using ref_softkey_generates by blast
  then have "(softkey_step ref_externals ref_env)\<^sup>*\<^sup>* softkey_new p'"
    by (blast intro: softkey_step.generate)
  moreover have "sk_keys p' \<noteq> []"
    using softkey_generate_secret [OF run] by (auto simp: hm_insert_def)
  ultimately show ?thesis using reachable_store_well_formed by blast
qed

text \<open>C32: destroying a software context removes its keys and no others. The keys it lists are gone,
  every other key and every other context is as before, and the context is left destroyed with no
  keys; an unknown context changes nothing.\<close>

theorem destroy_removes_exactly_the_context:
  assumes "softkey_destroy_lifecycle dq env auth (p, w) = (r, (p', w'))"
  shows "case hm_get (sk_lifecycle p) (dr_context_id dq) of
      None \<Rightarrow> r = Inl (KeyNotFound (dr_context_id dq)) \<and> p' = p
    | Some c \<Rightarrow> is_ok r \<and> sk_held p' = sk_held p - set (lc_key_ids c) \<and>
        (\<exists>d. hm_get (sk_lifecycle p') (dr_context_id dq) = Some d \<and> lc_state d = Destroyed \<and>
           lc_key_ids d = []) \<and>
        (\<forall>cid \<in> - {dr_context_id dq}. hm_get (sk_lifecycle p') cid = hm_get (sk_lifecycle p) cid)"
  using softkey_destroy_run [OF assms] by (auto simp: sk_held_def split: option.splits if_splits)

theorem destroy_removes_exactly_the_context_witness:
  "\<exists>r p' w'. softkey_destroy_lifecycle \<lparr>dr_plugin_id = ''softkey'', dr_context_id = ''a'',
      dr_mode = LocalOnly, dr_reason = None\<rparr> ref_env (ref_auth []) (softkey_new, 0) = (r, (p', w')) \<and>
     p' = softkey_new"
proof -
  obtain r p' w' where run: "softkey_destroy_lifecycle \<lparr>dr_plugin_id = ''softkey'', dr_context_id = ''a'',
      dr_mode = LocalOnly, dr_reason = None\<rparr> ref_env (ref_auth []) (softkey_new, 0) = (r, (p', w'))"
    by (metis prod.collapse)
  show ?thesis
    using destroy_removes_exactly_the_context [OF run] run by (simp add: softkey_new_def)
qed

end
