(* ===== verification/Apple_Secure_Enclave.thy ===== *)
theory Apple_Secure_Enclave
  imports Plugin_Iface
begin

section \<open>The Secure Enclave store: src/plugins/apple\_secure\_enclave.rs\<close>

text \<open>
  Keys live in the Secure Enclave behind the host's \<open>SecureEnclaveCallback\<close>; the plugin keeps a
  registry from kid to Keychain tag. Deletion asks the host first and treats \<open>KeyNotFound\<close> from the
  host as deleted, so the registry can always be cleaned up. The registry is exported and restored
  as a map. The plugin is an interpretation of \<open>key_store\<close>.
\<close>

record se_stored_key =
  es_key_tag :: string
  es_pub_x :: bytes
  es_pub_y :: bytes
  es_created_at :: int

record apple_state =
  es_keys :: "(string, se_stored_key) hashmap"

definition apple_new :: apple_state where
  "apple_new = \<lparr>es_keys = []\<rparr>"

definition apple_from_container ::
  "(bytes \<Rightarrow> string + (string, se_stored_key) hashmap) \<Rightarrow> bytes \<Rightarrow> apple_state wres" where
  "apple_from_container parse container =
     rbind (map_err Serialization (parse container)) (\<lambda>keys. Inr \<lparr>es_keys = keys\<rparr>)"

definition apple_export_container ::
  "((string, se_stored_key) hashmap \<Rightarrow> string + bytes) \<Rightarrow> apple_state \<Rightarrow> bytes wres" where
  "apple_export_container to_vec p = map_err Serialization (to_vec (es_keys p))"

definition apple_key_ids :: "apple_state \<Rightarrow> key_id list" where
  "apple_key_ids p = hm_keys (es_keys p)"

definition apple_public_key_jwk :: "externals \<Rightarrow> bytes \<Rightarrow> bytes \<Rightarrow> json" where
  "apple_public_key_jwk X x y = jwk_ec X ''P-256'' x y"

definition random_key_tag :: "'w env \<Rightarrow> ('w, string) weff" where
  "random_key_tag env =
     ebind (rand_fill env 16) (\<lambda>bs. ereturn (''apple-se-tag-'' @ concat (map hex2 bs)))"

definition apple_generate_key ::
  "externals \<Rightarrow> 'w secure_enclave_callback \<Rightarrow> algorithm \<Rightarrow> 'w env \<Rightarrow> 'w auth_callback
   \<Rightarrow> (apple_state \<times> 'w, generated_key) weff" where
  "apple_generate_key X cb alg env auth =
     (if alg \<noteq> ES256
      then ethrow (Unsupported ''apple-se'' (''generate_key('' @ algorithm_as_str alg @ '')''))
      else
        ebind (started ''generate_key'' env) (\<lambda>_.
        ebind (on_snd (random_key_tag env)) (\<lambda>key_tag.
        ebind (on_snd (se_generate_key cb key_tag)) (\<lambda>(x, y).
        ebind (elift (jwk_thumbprint X (apple_public_key_jwk X x y))) (\<lambda>kid.
        ebind (on_snd (now_unix env)) (\<lambda>now.
        ebind (modify_state (\<lambda>p. p\<lparr>es_keys := hm_insert kid
          \<lparr>es_key_tag = key_tag, es_pub_x = x, es_pub_y = y, es_created_at = now\<rparr> (es_keys p)\<rparr>)) (\<lambda>_.
        ebind (completed env) (\<lambda>_.
          ereturn \<lparr>gk_kid = kid, gk_public_key_jwk = apple_public_key_jwk X x y\<rparr>))))))))"

definition apple_sign ::
  "'w secure_enclave_callback \<Rightarrow> key_id \<Rightarrow> bytes \<Rightarrow> algorithm \<Rightarrow> 'w env \<Rightarrow> 'w auth_callback
   \<Rightarrow> (apple_state \<times> 'w, bytes) weff" where
  "apple_sign cb kid data alg env auth =
     (if alg \<noteq> ES256
      then ethrow (Unsupported ''apple-se'' (''sign('' @ algorithm_as_str alg @ '')''))
      else
        ebind (started ''sign'' env) (\<lambda>_.
        ebind get_state (\<lambda>p.
        ebind (elift (find_key (es_keys p) kid)) (\<lambda>k.
        ebind (on_snd (se_sign cb (es_key_tag k) data)) (\<lambda>sig_bytes.
        ebind (completed env) (\<lambda>_. ereturn sig_bytes))))))"

definition apple_list_keys :: "apple_state \<Rightarrow> key_info list" where
  "apple_list_keys p = map (\<lambda>(kid, stored). \<lparr>ki_kid = kid, ki_algorithm = ES256,
     ki_plugin_id = ''apple-se'', ki_created_at = es_created_at stored\<rparr>) (es_keys p)"

text \<open>The host's verdict on a deletion: \<open>KeyNotFound\<close> counts as gone.\<close>

definition apple_delete_key ::
  "'w secure_enclave_callback \<Rightarrow> key_id \<Rightarrow> (apple_state \<times> 'w, unit) weff" where
  "apple_delete_key cb kid =
     ebind get_state (\<lambda>p.
     ebind (elift (find_key (es_keys p) kid)) (\<lambda>k.
     ebind (ecatch (on_snd (se_delete_key cb (es_key_tag k)))
              (\<lambda>e. case e of KeyNotFound _ \<Rightarrow> ereturn () | _ \<Rightarrow> ethrow e)) (\<lambda>_.
       modify_state (\<lambda>p. p\<lparr>es_keys := hm_remove kid (es_keys p)\<rparr>))))"

definition apple_export_public_key :: "externals \<Rightarrow> key_id \<Rightarrow> apple_state \<Rightarrow> json wres" where
  "apple_export_public_key X kid p =
     rbind (find_key (es_keys p) kid) (\<lambda>k. Inr (apple_public_key_jwk X (es_pub_x k) (es_pub_y k)))"

definition apple_security_properties :: "apple_state \<Rightarrow> key_id \<Rightarrow> security_properties wres" where
  "apple_security_properties p kid =
     (if \<not> hm_contains (es_keys p) kid then Inl (KeyNotFound kid)
      else Inr \<lparr>sp_key_storage = Hardware, sp_user_authentication = [],
                sp_certification = Unattested, sp_amr = [''hwk'']\<rparr>)"

definition apple_ops :: "externals \<Rightarrow> 'w secure_enclave_callback \<Rightarrow> (apple_state, 'w) plugin_ops" where
  "apple_ops X cb =
     \<lparr>po_id = ''apple-se'', po_auth_method = AuthNone,
      po_generate_key = apple_generate_key X cb,
      po_sign = apple_sign cb,
      po_sign_with_factors = default_sign_with_factors ''apple-se'' (apple_sign cb),
      po_authentication_capability = default_authentication_capability ''apple-se'',
      po_list_keys = query (\<lambda>p. Inr (apple_list_keys p)),
      po_attestation_chain = (\<lambda>kid. ereturn None),
      po_delete_key = apple_delete_key cb,
      po_export_public_key = (\<lambda>kid. query (apple_export_public_key X kid)),
      po_supports_import = False,
      po_import_key = unsupported_op ''apple-se'' ''import_key'',
      po_security_properties = apple_security_properties,
      po_lifecycle_status = unsupported_status ''apple-se'',
      po_register_lifecycle = unsupported_op ''apple-se'' ''register_lifecycle'',
      po_activate_lifecycle = unsupported_op ''apple-se'' ''activate_lifecycle'',
      po_rotate_lifecycle = unsupported_op ''apple-se'' ''rotate_lifecycle'',
      po_destroy_lifecycle = unsupported_op ''apple-se'' ''destroy_lifecycle''\<rparr>"

subsection \<open>What each operation does to the registry\<close>

definition se_inv :: "apple_state \<Rightarrow> bool" where
  "se_inv p \<longleftrightarrow> hm_wf (es_keys p)"

definition se_held :: "apple_state \<Rightarrow> key_id set" where
  "se_held p = {k. hm_get (es_keys p) k \<noteq> None}"

lemma apple_generate_ok:
  assumes "apple_generate_key X cb alg env auth (p, w) = (Inr g, (p', w'))"
  obtains key_tag x y t w1 w2 where "alg = ES256"
    "se_generate_key cb key_tag w1 = (Inr (x, y), w2)"
    "p' = p\<lparr>es_keys := hm_insert (gk_kid g)
      \<lparr>es_key_tag = key_tag, es_pub_x = x, es_pub_y = y, es_created_at = t\<rparr> (es_keys p)\<rparr>"
    "gk_public_key_jwk g = apple_public_key_jwk X x y"
    "jwk_thumbprint X (gk_public_key_jwk g) = Inr (gk_kid g)"
  using assms unfolding apple_generate_key_def
  by (auto simp: eff_elims split: if_splits)

lemma apple_generate_err:
  "apple_generate_key X cb alg env auth (p, w) = (Inl e, (p', w')) \<Longrightarrow> p' = p"
  unfolding apple_generate_key_def by (auto simp: eff_elims split: if_splits)

lemma apple_sign_frame:
  assumes "apple_sign cb kid data alg env auth (p, w) = (r, (p', w'))"
  shows "p' = p" and "r = Inr sig \<Longrightarrow> kid \<in> se_held p"
  using assms unfolding apple_sign_def
  by (cases r; auto simp: eff_elims se_held_def split: if_splits)+

lemma apple_sign_fst: "fst (snd (apple_sign cb kid data alg env auth s)) = fst s"
proof -
  obtain p w r p' w' where "s = (p, w)" "apple_sign cb kid data alg env auth (p, w) = (r, (p', w'))"
    by (metis prod.collapse)
  then show ?thesis using apple_sign_frame(1) by simp
qed

text \<open>A record goes away exactly when the host says the key is gone.\<close>

lemma apple_delete_cases:
  "apple_delete_key cb kid (p, w) =
     (case hm_get (es_keys p) kid of
        None \<Rightarrow> (Inl (KeyNotFound kid), (p, w))
      | Some k \<Rightarrow>
          (case se_delete_key cb (es_key_tag k) w of
             (Inr _, w') \<Rightarrow> (Inr (), (p\<lparr>es_keys := hm_remove kid (es_keys p)\<rparr>, w'))
           | (Inl (KeyNotFound _), w') \<Rightarrow> (Inr (), (p\<lparr>es_keys := hm_remove kid (es_keys p)\<rparr>, w'))
           | (Inl e, w') \<Rightarrow> (Inl e, (p, w'))))"
  by (auto simp: apple_delete_key_def find_key_def ebind_def ecatch_def on_snd_def modify_state_def
      get_state_def split: option.splits prod.splits sum.splits wscd_error.splits)

lemma apple_ops_simps [simp]:
  "po_id (apple_ops X cb) = ''apple-se''"
  "po_generate_key (apple_ops X cb) = apple_generate_key X cb"
  "po_sign (apple_ops X cb) = apple_sign cb"
  "po_sign_with_factors (apple_ops X cb) = default_sign_with_factors ''apple-se'' (apple_sign cb)"
  "po_list_keys (apple_ops X cb) = query (\<lambda>p. Inr (apple_list_keys p))"
  "po_attestation_chain (apple_ops X cb) = (\<lambda>kid. ereturn None)"
  "po_delete_key (apple_ops X cb) = apple_delete_key cb"
  "po_export_public_key (apple_ops X cb) = (\<lambda>kid. query (apple_export_public_key X kid))"
  "po_security_properties (apple_ops X cb) = apple_security_properties"
  by (simp_all add: apple_ops_def)

interpretation se: key_store "apple_ops X cb" se_inv se_held for X cb
proof
  fix p :: apple_state and alg env auth and w :: 'a and g p' w'
  assume "se_inv p" and "po_generate_key (apple_ops X cb) alg env auth (p, w) = (Inr g, (p', w'))"
  then show "se_inv p' \<and> se_held p' = insert (gk_kid g) (se_held p)"
    by simp (erule apple_generate_ok; auto simp: se_inv_def se_held_def)
next
  fix p :: apple_state and alg env auth and w :: 'a and e p' w'
  assume "po_generate_key (apple_ops X cb) alg env auth (p, w) = (Inl e, (p', w'))"
  then show "p' = p" by (simp add: apple_generate_err)
next
  fix p :: apple_state and kid data alg env auth and w :: 'a and r p' w'
  assume "po_sign (apple_ops X cb) kid data alg env auth (p, w) = (r, (p', w'))"
  then show "p' = p" by (simp add: apple_sign_frame)
next
  fix p :: apple_state and kid data alg env auth and w :: 'a and sig p' w'
  assume "po_sign (apple_ops X cb) kid data alg env auth (p, w) = (Inr sig, (p', w'))"
  then show "kid \<in> se_held p" by (simp add: apple_sign_frame)
next
  fix p :: apple_state and kid data alg opts env auth and w :: 'a and r p' w'
  assume "po_sign_with_factors (apple_ops X cb) kid data alg opts env auth (p, w) = (r, (p', w'))"
  then have "default_sign_with_factors ''apple-se'' (apple_sign cb) kid data alg opts env auth (p, w)
      = (r, (p', w'))" by simp
  then show "p' = p" by (rule default_factors_frame [rotated]) (rule apple_sign_fst)
next
  fix p :: apple_state and kid and w :: 'a and p' w'
  assume "se_inv p" and "po_delete_key (apple_ops X cb) kid (p, w) = (Inr (), (p', w'))"
  then show "se_inv p' \<and> kid \<in> se_held p \<and> se_held p' = se_held p - {kid}"
    by (auto simp: apple_delete_cases se_inv_def se_held_def
        split: option.splits prod.splits sum.splits wscd_error.splits if_splits)
next
  fix p :: apple_state and kid and w :: 'a and e p' w'
  assume "po_delete_key (apple_ops X cb) kid (p, w) = (Inl e, (p', w'))"
  then show "p' = p"
    by (auto simp: apple_delete_cases split: option.splits prod.splits sum.splits wscd_error.splits)
next
  fix p :: apple_state and w :: 'a and rl p' w'
  assume "se_inv p" and "po_list_keys (apple_ops X cb) (p, w) = (rl, (p', w'))"
  then have "map ki_kid (apple_list_keys p) = hm_keys (es_keys p)" "hm_wf (es_keys p)"
    and r: "p' = p" "rl = Inr (apple_list_keys p)"
    by (auto simp: apple_list_keys_def hm_keys_def se_inv_def query_def split_beta)
  note l = listing_covers [OF this(1,2)]
  have "\<forall>i \<in> set (apple_list_keys p). ki_plugin_id i = ''apple-se''"
    by (auto simp: apple_list_keys_def)
  then show "p' = p \<and> (\<exists>infos. rl = Inr infos \<and> ki_kid ` set infos = se_held p \<and>
      distinct (map ki_kid infos) \<and> (\<forall>i \<in> set infos. ki_plugin_id i = po_id (apple_ops X cb)))"
    using l r by (simp add: se_held_def)
next
  fix p :: apple_state and kid and w :: 'a and ra p' w'
  assume "po_attestation_chain (apple_ops X cb) kid (p, w) = (ra, (p', w'))"
  then show "p' = p" by simp
next
  fix p :: apple_state and kid and w :: 'a and re p' w'
  assume "po_export_public_key (apple_ops X cb) kid (p, w) = (re, (p', w'))"
  then show "p' = p" by (simp add: query_def)
next
  fix p kid
  show "is_ok (po_security_properties (apple_ops X cb) p kid) = (kid \<in> se_held p)"
    by (simp add: apple_security_properties_def se_held_def hm_contains_def)
qed

text \<open>The plugin has neither lifecycle nor import: these requests are refused and change nothing.\<close>

interpretation sem: managed_store "apple_ops X cb" se_inv se_held "\<lambda>p cid. {}" "\<lambda>p cid. {}" for X cb
  by unfold_locales
    (auto simp: apple_ops_def unsupported_op_def imported_key_def)

subsection \<open>Properties\<close>

text \<open>Deleting from the Secure Enclave. The record of a key disappears exactly when the host
  reports the key deleted or not found; after any other error the record stays, so that the deletion
  can be tried again, and the error reaches the caller.\<close>

lemma enclave_record_follows_the_key:
  assumes "hm_get (es_keys p) kid = Some k"
    and "se_delete_key cb (es_key_tag k) w = (dev, w')"
    and "apple_delete_key cb kid (p, w) = (r, (p', w''))"
  shows "(kid \<notin> se_held p' \<longleftrightarrow> dev = Inr () \<or> (\<exists>n. dev = Inl (KeyNotFound n))) \<and>
    (r = Inr () \<longleftrightarrow> kid \<notin> se_held p') \<and> (\<forall>e. r = Inl e \<longrightarrow> dev = Inl e \<and> p' = p) \<and>
    se_held p' - {kid} = se_held p - {kid}"
  using assms
  by (auto simp: apple_delete_cases se_held_def split: sum.splits wscd_error.splits if_splits)

definition ref_enclave :: "wscd_error \<Rightarrow> nat secure_enclave_callback" where
  "ref_enclave e = \<lparr>se_generate_key = (\<lambda>t w. (Inr ([1], [2]), Suc w)),
     se_sign = (\<lambda>t d w. (Inr d, w)), se_delete_key = (\<lambda>t w. (Inl e, w))\<rparr>"

lemma enclave_record_follows_the_key_witness:
  "\<exists>p'. apple_delete_key (ref_enclave (KeyNotFound ''t'')) ''k'' (\<lparr>es_keys = [(''k'',
     \<lparr>es_key_tag = ''t'', es_pub_x = [1], es_pub_y = [2], es_created_at = 0\<rparr>)]\<rparr>, 0) =
     (Inr (), (p', 0)) \<and> ''k'' \<notin> se_held p'"
proof -
  let ?k = "\<lparr>es_key_tag = ''t'', es_pub_x = [1], es_pub_y = [2], es_created_at = 0\<rparr>"
  let ?p = "\<lparr>es_keys = [(''k'', ?k)]\<rparr>"
  have g: "hm_get (es_keys ?p) ''k'' = Some ?k" by (simp add: hm_get_def)
  have d: "se_delete_key (ref_enclave (KeyNotFound ''t'')) (es_key_tag ?k) 0 =
      (Inl (KeyNotFound ''t''), 0)" by (simp add: ref_enclave_def)
  obtain r p' w'' where run: "apple_delete_key (ref_enclave (KeyNotFound ''t'')) ''k'' (?p, 0) =
      (r, (p', w''))" by (metis prod.collapse)
  then have "w'' = 0" using g d by (auto simp: apple_delete_cases)
  then show ?thesis using enclave_record_follows_the_key [OF g d run] run by auto
qed

end
