(* ===== verification/Android_Keystore.thy ===== *)
theory Android_Keystore
  imports Plugin_Iface
begin

section \<open>The Android Keystore store: src/plugins/android\_keystore.rs\<close>

text \<open>
  Keys live in the device's TEE or StrongBox behind \<open>AndroidKeystoreCallback\<close>, under a random alias;
  the plugin records kid, alias, certificate chain and the security level the device confirmed.
  Generation tries StrongBox first and the TEE only when StrongBox is unavailable; whenever it
  fails, whatever may exist under the alias is deleted, and a failed deletion is reported as
  \<open>UnconfirmedCleanup\<close>, which stops every retry.
\<close>

definition PLUGIN_ID :: string where
  "PLUGIN_ID = ''android-keystore''"

record stored_android_key =
  an_kid :: string
  an_alias :: string
  an_public_key_jwk :: json
  an_certificates :: "bytes list"
  an_client_data_hash :: bytes
  an_security_level :: android_level
  an_user_authentication_methods :: "string list"
  an_created_at :: int

record android_state =
  an_keys :: "(string, stored_android_key) hashmap"

definition android_new :: android_state where
  "android_new = \<lparr>an_keys = []\<rparr>"

definition android_from_state ::
  "(bytes \<Rightarrow> string + stored_android_key list) \<Rightarrow> bytes \<Rightarrow> android_state wres" where
  "android_from_state parse state_bytes =
     rbind (map_err Serialization (parse state_bytes)) (\<lambda>keys.
       Inr \<lparr>an_keys = hm_first_of_records an_kid keys\<rparr>)"

definition android_exported :: "android_state \<Rightarrow> stored_android_key list" where
  "android_exported p = sort_key (\<lambda>k. (an_created_at k, an_kid k)) (hm_values (an_keys p))"

definition android_export_state ::
  "(stored_android_key list \<Rightarrow> string + bytes) \<Rightarrow> android_state \<Rightarrow> bytes wres" where
  "android_export_state to_vec p = map_err Serialization (to_vec (android_exported p))"

definition android_key_ids :: "android_state \<Rightarrow> key_id list" where
  "android_key_ids p = hm_keys (an_keys p)"

subsection \<open>Generation\<close>

definition new_alias :: "externals \<Rightarrow> 'w env \<Rightarrow> ('w, string) weff" where
  "new_alias X env =
     ebind (rand_fill env 16) (\<lambda>buf.
       ereturn (''org.siros.wscd.android-keystore.'' @ b64url_enc X buf))"

definition delete_after_failed_generate ::
  "'w android_callback \<Rightarrow> string \<Rightarrow> wscd_error \<Rightarrow> 'w \<Rightarrow> wscd_error \<times> 'w" where
  "delete_after_failed_generate cb alias original_err w =
     (case ak_delete cb alias w of
        (Inr _, w') \<Rightarrow> (original_err, w')
      | (Inl delete_err, w') \<Rightarrow>
          (UnconfirmedCleanup PLUGIN_ID (show_error original_err @ '', and cleanup also failed (''
             @ show_error delete_err @ '')''), w'))"

text \<open>\<open>Err(delete_after_failed_generate(..))\<close>.\<close>

definition fail_and_clean ::
  "'w android_callback \<Rightarrow> string \<Rightarrow> wscd_error \<Rightarrow> ('w, 'a) weff" where
  "fail_and_clean cb alias e w =
     (case delete_after_failed_generate cb alias e w of (e', w') \<Rightarrow> (Inl e', w'))"

definition best_effort_generate ::
  "externals \<Rightarrow> 'w env \<Rightarrow> 'w android_callback \<Rightarrow> bytes \<Rightarrow> ('w, string \<times> android_level) weff" where
  "best_effort_generate X env cb challenge =
     ebind (new_alias X env) (\<lambda>alias w.
       case ak_generate cb alias (Some challenge) True [] False w of
         (Inr level, w') \<Rightarrow> (Inr (alias, level), w')
       | (Inl StrongBoxUnavailable, w') \<Rightarrow>
           (case ak_delete cb alias w' of
              (Inl delete_err, w'') \<Rightarrow>
                (Inl (UnconfirmedCleanup PLUGIN_ID
                   (''StrongBox unavailable, and cleanup of the attempted alias also failed (''
                    @ show_error delete_err @ '')'')), w'')
            | (Inr _, w'') \<Rightarrow>
                ebind (new_alias X env) (\<lambda>tee_alias w.
                  case ak_generate cb tee_alias (Some challenge) False [] False w of
                    (Inr level, w') \<Rightarrow> (Inr (tee_alias, level), w')
                  | (Inl e, w') \<Rightarrow> fail_and_clean cb tee_alias e w') w'')
       | (Inl e, w') \<Rightarrow> fail_and_clean cb alias e w')"

definition finish_generate_key ::
  "externals \<Rightarrow> 'w env \<Rightarrow> 'w android_callback \<Rightarrow> string \<Rightarrow> android_level \<Rightarrow> bytes
   \<Rightarrow> (android_state \<times> 'w, generated_key) weff" where
  "finish_generate_key X env cb alias level challenge =
     ebind (on_snd (ak_certificate_chain cb alias)) (\<lambda>certificates.
     ebind (on_snd (ak_public_key_jwk cb alias)) (\<lambda>public_key_jwk.
     ebind (elift (jwk_thumbprint X public_key_jwk)) (\<lambda>kid.
     ebind (on_snd (now_unix env)) (\<lambda>now.
     ebind (modify_state (\<lambda>p. p\<lparr>an_keys := hm_insert kid
       \<lparr>an_kid = kid, an_alias = alias, an_public_key_jwk = public_key_jwk,
        an_certificates = certificates, an_client_data_hash = challenge,
        an_security_level = level, an_user_authentication_methods = [], an_created_at = now\<rparr>
       (an_keys p)\<rparr>)) (\<lambda>_.
       ereturn \<lparr>gk_kid = kid, gk_public_key_jwk = public_key_jwk\<rparr>)))))"

definition generate_key_with_challenge ::
  "externals \<Rightarrow> 'w android_callback \<Rightarrow> algorithm \<Rightarrow> bytes \<Rightarrow> 'w env
   \<Rightarrow> (android_state \<times> 'w, generated_key) weff" where
  "generate_key_with_challenge X cb alg challenge env =
     (if alg \<noteq> ES256
      then ethrow (Unsupported PLUGIN_ID (''generate_key('' @ algorithm_as_str alg @ '')''))
      else if challenge = [] then ethrow (Plugin ''attestation challenge must not be empty'')
      else
        ebind (started ''generate_key'' env) (\<lambda>_.
        ebind (on_snd (best_effort_generate X env cb challenge)) (\<lambda>(alias, level).
        ebind (ecatch (finish_generate_key X env cb alias level challenge)
                 (\<lambda>e. on_snd (fail_and_clean cb alias e))) (\<lambda>result.
        ebind (completed env) (\<lambda>_. ereturn result)))))"

definition android_generate_key ::
  "externals \<Rightarrow> 'w android_callback \<Rightarrow> algorithm \<Rightarrow> 'w env \<Rightarrow> 'w auth_callback
   \<Rightarrow> (android_state \<times> 'w, generated_key) weff" where
  "android_generate_key X cb alg env auth =
     ebind (on_snd (rand_fill env 32)) (\<lambda>challenge.
       generate_key_with_challenge X cb alg challenge env)"

definition amr_for :: "android_level \<Rightarrow> string list" where
  "amr_for level =
     (case level of
        LvStrongBox \<Rightarrow> [''hwk'', ''pop''] | LvTrustedExecution \<Rightarrow> [''hwk'', ''pop'']
      | LvSoftware \<Rightarrow> [''swk''] | LvUnknown \<Rightarrow> [''swk''])"

subsection \<open>The other methods\<close>

definition android_sign ::
  "'w android_callback \<Rightarrow> key_id \<Rightarrow> bytes \<Rightarrow> algorithm \<Rightarrow> 'w env \<Rightarrow> 'w auth_callback
   \<Rightarrow> (android_state \<times> 'w, bytes) weff" where
  "android_sign cb kid data alg env auth =
     ebind get_state (\<lambda>p.
     ebind (elift (find_key (an_keys p) kid)) (\<lambda>k.
     ebind (started ''sign'' env) (\<lambda>_.
     ebind (on_snd (ak_sign cb (an_alias k) data)) (\<lambda>sig.
     ebind (completed env) (\<lambda>_. ereturn sig)))))"

definition android_list_keys :: "android_state \<Rightarrow> key_info list" where
  "android_list_keys p = map (\<lambda>k. \<lparr>ki_kid = an_kid k, ki_algorithm = ES256,
     ki_plugin_id = PLUGIN_ID, ki_created_at = an_created_at k\<rparr>) (hm_values (an_keys p))"

definition android_attestation_chain ::
  "key_id \<Rightarrow> android_state \<Rightarrow> attestation_chain option wres" where
  "android_attestation_chain kid p =
     rbind (find_key (an_keys p) kid) (\<lambda>k.
       if length (an_certificates k) < 2 then Inr None
       else Inr (Some \<lparr>ac_format = X509Chain, ac_certificates = an_certificates k,
                       ac_client_data_hash = an_client_data_hash k, ac_opaque_attestation = []\<rparr>))"

text \<open>Look up, delete through the host, and only then forget the record.\<close>

definition android_delete_key ::
  "'w android_callback \<Rightarrow> key_id \<Rightarrow> (android_state \<times> 'w, unit) weff" where
  "android_delete_key cb kid =
     ebind get_state (\<lambda>p.
     ebind (elift (find_key (an_keys p) kid)) (\<lambda>k.
     ebind (on_snd (ak_delete cb (an_alias k))) (\<lambda>_.
       modify_state (\<lambda>p. p\<lparr>an_keys := hm_remove kid (an_keys p)\<rparr>))))"

definition android_export_public_key :: "key_id \<Rightarrow> android_state \<Rightarrow> json wres" where
  "android_export_public_key kid p =
     rbind (find_key (an_keys p) kid) (\<lambda>k. Inr (an_public_key_jwk k))"

definition android_security_properties :: "android_state \<Rightarrow> key_id \<Rightarrow> security_properties wres" where
  "android_security_properties p kid =
     rbind (find_key (an_keys p) kid) (\<lambda>k.
       Inr \<lparr>sp_key_storage = as_key_storage_type (an_security_level k),
            sp_user_authentication = an_user_authentication_methods k,
            sp_certification = (if length (an_certificates k) < 2 then Unattested
                                else as_certification_level (an_security_level k)),
            sp_amr = amr_for (an_security_level k)\<rparr>)"

definition android_ops :: "externals \<Rightarrow> 'w android_callback \<Rightarrow> (android_state, 'w) plugin_ops" where
  "android_ops X cb =
     \<lparr>po_id = PLUGIN_ID, po_auth_method = AuthNone,
      po_generate_key = android_generate_key X cb,
      po_sign = android_sign cb,
      po_sign_with_factors = default_sign_with_factors PLUGIN_ID (android_sign cb),
      po_authentication_capability = default_authentication_capability PLUGIN_ID,
      po_list_keys = query (\<lambda>p. Inr (android_list_keys p)),
      po_attestation_chain = (\<lambda>kid. query (android_attestation_chain kid)),
      po_delete_key = android_delete_key cb,
      po_export_public_key = (\<lambda>kid. query (android_export_public_key kid)),
      po_supports_import = False,
      po_import_key = unsupported_op PLUGIN_ID ''import_key'',
      po_security_properties = android_security_properties,
      po_lifecycle_status = unsupported_status PLUGIN_ID,
      po_register_lifecycle = unsupported_op PLUGIN_ID ''register_lifecycle'',
      po_activate_lifecycle = unsupported_op PLUGIN_ID ''activate_lifecycle'',
      po_rotate_lifecycle = unsupported_op PLUGIN_ID ''rotate_lifecycle'',
      po_destroy_lifecycle = unsupported_op PLUGIN_ID ''destroy_lifecycle''\<rparr>"

subsection \<open>What each operation does to the records\<close>

definition an_inv :: "android_state \<Rightarrow> bool" where
  "an_inv p \<longleftrightarrow> hm_filed an_kid (an_keys p)"

definition an_held :: "android_state \<Rightarrow> key_id set" where
  "an_held p = {k. hm_get (an_keys p) k \<noteq> None}"

lemma fail_and_clean_Inl: "\<exists>e' w'. fail_and_clean cb al e w = (Inl e', w')"
  by (simp add: fail_and_clean_def split: prod.splits)

lemma on_snd_fail [simp]: "on_snd (fail_and_clean cb al e) s = (Inr x, t) \<longleftrightarrow> False"
  by (auto simp: on_snd_def fail_and_clean_def split: prod.splits)

lemma fail_and_clean_ok [simp]: "fail_and_clean cb al e w = (Inr x, t) \<longleftrightarrow> False"
  by (auto simp: fail_and_clean_def split: prod.splits)

lemma finish_generate_ok:
  assumes "finish_generate_key X env cb al level challenge (p, w) = (Inr g, (p', w'))"
  obtains certs t w1 w2 where "ak_certificate_chain cb al w = (Inr certs, w1)"
    "ak_public_key_jwk cb al w1 = (Inr (gk_public_key_jwk g), w2)" "w' = snd (env_now env w2)"
    "jwk_thumbprint X (gk_public_key_jwk g) = Inr (gk_kid g)"
    "p' = p\<lparr>an_keys := hm_insert (gk_kid g)
       \<lparr>an_kid = gk_kid g, an_alias = al, an_public_key_jwk = gk_public_key_jwk g,
        an_certificates = certs, an_client_data_hash = challenge,
        an_security_level = level, an_user_authentication_methods = [], an_created_at = t\<rparr>
       (an_keys p)\<rparr>"
  using assms unfolding finish_generate_key_def by (auto simp: eff_elims)

lemma finish_generate_err:
  assumes "finish_generate_key X env cb al level challenge (p, w) = (Inl e, (p', w'))"
  shows "p' = p" and "\<exists>r1 w1. ak_certificate_chain cb al w = (r1, w1) \<and>
    (w' = w1 \<or> (\<exists>r2. ak_public_key_jwk cb al w1 = (r2, w')))"
  using assms unfolding finish_generate_key_def by (auto simp: eff_elims)

lemma android_generate_ok:
  assumes "generate_key_with_challenge X cb alg challenge env (p, w) = (Inr g, (p', w'))"
  obtains al level w1 w2 w3 where "alg = ES256" "challenge \<noteq> []"
    "w1 = env_progress env (Started ''generate_key'') w"
    "best_effort_generate X env cb challenge w1 = (Inr (al, level), w2)"
    "finish_generate_key X env cb al level challenge (p, w2) = (Inr g, (p', w3))"
    "w' = env_progress env Complete w3"
  using assms unfolding generate_key_with_challenge_def
  by (auto simp: eff_elims split: if_splits)

lemma android_generate_err:
  "generate_key_with_challenge X cb alg challenge env (p, w) = (Inl e, (p', w')) \<Longrightarrow> p' = p"
  unfolding generate_key_with_challenge_def
  by (auto simp: eff_elims split: if_splits dest: finish_generate_err(1))

lemma android_sign_frame:
  assumes "android_sign cb kid data alg env auth (p, w) = (r, (p', w'))"
  shows "p' = p" and "r = Inr sig \<Longrightarrow> kid \<in> an_held p"
  using assms unfolding android_sign_def by (cases r; auto simp: eff_elims an_held_def)+

lemma android_sign_fst: "fst (snd (android_sign cb kid data alg env auth s)) = fst s"
proof -
  obtain p w r p' w' where "s = (p, w)" "android_sign cb kid data alg env auth (p, w) = (r, (p', w'))"
    by (metis prod.collapse)
  then show ?thesis using android_sign_frame(1) by simp
qed

lemma android_delete_cases:
  "android_delete_key cb kid (p, w) =
     (case hm_get (an_keys p) kid of
        None \<Rightarrow> (Inl (KeyNotFound kid), (p, w))
      | Some k \<Rightarrow>
          (case ak_delete cb (an_alias k) w of
             (Inr _, w') \<Rightarrow> (Inr (), (p\<lparr>an_keys := hm_remove kid (an_keys p)\<rparr>, w'))
           | (Inl e, w') \<Rightarrow> (Inl e, (p, w'))))"
  by (auto simp: android_delete_key_def find_key_def ebind_def on_snd_def modify_state_def
      get_state_def split: option.splits prod.splits sum.splits)

lemma android_ops_simps [simp]:
  "po_id (android_ops X cb) = PLUGIN_ID"
  "po_generate_key (android_ops X cb) = android_generate_key X cb"
  "po_sign (android_ops X cb) = android_sign cb"
  "po_sign_with_factors (android_ops X cb) = default_sign_with_factors PLUGIN_ID (android_sign cb)"
  "po_list_keys (android_ops X cb) = query (\<lambda>p. Inr (android_list_keys p))"
  "po_attestation_chain (android_ops X cb) = (\<lambda>kid. query (android_attestation_chain kid))"
  "po_delete_key (android_ops X cb) = android_delete_key cb"
  "po_export_public_key (android_ops X cb) = (\<lambda>kid. query (android_export_public_key kid))"
  "po_security_properties (android_ops X cb) = android_security_properties"
  by (simp_all add: android_ops_def)

lemma android_generate_key_steps:
  "android_generate_key X cb alg env auth (p, w) =
     generate_key_with_challenge X cb alg (fst (env_rand env 32 w)) env (p, snd (env_rand env 32 w))"
  by (simp add: android_generate_key_def ebind_apply on_snd_def rand_fill_def etotal_apply)

interpretation ak: key_store "android_ops X cb" an_inv an_held for X cb
proof
  fix p :: android_state and alg env auth and w :: 'a and g p' w'
  assume "an_inv p" and "po_generate_key (android_ops X cb) alg env auth (p, w) = (Inr g, (p', w'))"
  then show "an_inv p' \<and> an_held p' = insert (gk_kid g) (an_held p)"
    by (simp add: android_generate_key_steps)
       (erule android_generate_ok, erule finish_generate_ok, auto simp: an_inv_def an_held_def)
next
  fix p :: android_state and alg env auth and w :: 'a and e p' w'
  assume "po_generate_key (android_ops X cb) alg env auth (p, w) = (Inl e, (p', w'))"
  then show "p' = p" by (simp add: android_generate_key_steps android_generate_err)
next
  fix p :: android_state and kid data alg env auth and w :: 'a and r p' w'
  assume "po_sign (android_ops X cb) kid data alg env auth (p, w) = (r, (p', w'))"
  then show "p' = p" by (simp add: android_sign_frame)
next
  fix p :: android_state and kid data alg env auth and w :: 'a and sig p' w'
  assume "po_sign (android_ops X cb) kid data alg env auth (p, w) = (Inr sig, (p', w'))"
  then show "kid \<in> an_held p" by (simp add: android_sign_frame)
next
  fix p :: android_state and kid data alg opts env auth and w :: 'a and r p' w'
  assume "po_sign_with_factors (android_ops X cb) kid data alg opts env auth (p, w) = (r, (p', w'))"
  then have "default_sign_with_factors PLUGIN_ID (android_sign cb) kid data alg opts env auth (p, w)
      = (r, (p', w'))" by simp
  then show "p' = p" by (rule default_factors_frame [rotated]) (rule android_sign_fst)
next
  fix p :: android_state and kid and w :: 'a and p' w'
  assume "an_inv p" and "po_delete_key (android_ops X cb) kid (p, w) = (Inr (), (p', w'))"
  then show "an_inv p' \<and> kid \<in> an_held p \<and> an_held p' = an_held p - {kid}"
    by (auto simp: android_delete_cases an_inv_def an_held_def
        split: option.splits prod.splits sum.splits if_splits)
next
  fix p :: android_state and kid and w :: 'a and e p' w'
  assume "po_delete_key (android_ops X cb) kid (p, w) = (Inl e, (p', w'))"
  then show "p' = p" by (auto simp: android_delete_cases split: option.splits prod.splits sum.splits)
next
  fix p :: android_state and w :: 'a and rl p' w'
  assume "an_inv p" and "po_list_keys (android_ops X cb) (p, w) = (rl, (p', w'))"
  then have "map ki_kid (android_list_keys p) = hm_keys (an_keys p)" "hm_wf (an_keys p)"
    and r: "p' = p" "rl = Inr (android_list_keys p)"
    using hm_filed_values [of an_kid "an_keys p"]
    by (auto simp: android_list_keys_def an_inv_def hm_filed_def query_def o_def)
  note l = listing_covers [OF this(1,2)]
  have "\<forall>i \<in> set (android_list_keys p). ki_plugin_id i = PLUGIN_ID"
    by (auto simp: android_list_keys_def)
  then show "p' = p \<and> (\<exists>infos. rl = Inr infos \<and> ki_kid ` set infos = an_held p \<and>
      distinct (map ki_kid infos) \<and> (\<forall>i \<in> set infos. ki_plugin_id i = po_id (android_ops X cb)))"
    using l r by (simp add: an_held_def)
next
  fix p :: android_state and kid and w :: 'a and ra p' w'
  assume "po_attestation_chain (android_ops X cb) kid (p, w) = (ra, (p', w'))"
  then show "p' = p" by (simp add: query_def)
next
  fix p :: android_state and kid and w :: 'a and re p' w'
  assume "po_export_public_key (android_ops X cb) kid (p, w) = (re, (p', w'))"
  then show "p' = p" by (simp add: query_def)
next
  fix p kid
  show "is_ok (po_security_properties (android_ops X cb) p kid) = (kid \<in> an_held p)"
    by (cases "hm_get (an_keys p) kid")
       (simp_all add: android_security_properties_def an_held_def find_key_def)
qed

text \<open>The plugin has neither lifecycle nor import: these requests are refused and change nothing.\<close>

interpretation akm: managed_store "android_ops X cb" an_inv an_held "\<lambda>p cid. {}" "\<lambda>p cid. {}" for X cb
  by unfold_locales
    (auto simp: android_ops_def unsupported_op_def imported_key_def)

subsection \<open>No key is left behind on the device\<close>

text \<open>
  What the host's callback documents, over the set of aliases the device holds: \<open>generate\<close> may leave
  only its own alias behind, a successful \<open>delete\<close> removes the alias, a failed one removes at most
  that alias, and the other calls leave the aliases alone.
\<close>

definition keystore_ok :: "'w android_callback \<Rightarrow> 'w env \<Rightarrow> ('w \<Rightarrow> string set) \<Rightarrow> bool" where
  "keystore_ok cb env present \<longleftrightarrow>
     (\<forall>a c b m u w. present (snd (ak_generate cb a c b m u w)) \<subseteq> insert a (present w)) \<and>
     (\<forall>a w. present (snd (ak_delete cb a w)) \<subseteq> present w \<and>
        (is_ok (fst (ak_delete cb a w)) \<longrightarrow> a \<notin> present (snd (ak_delete cb a w)))) \<and>
     (\<forall>a w. present (snd (ak_certificate_chain cb a w)) = present w) \<and>
     (\<forall>a w. present (snd (ak_public_key_jwk cb a w)) = present w) \<and>
     (\<forall>p w. present (env_progress env p w) = present w) \<and>
     (\<forall>n w. present (snd (env_rand env n w)) = present w) \<and>
     (\<forall>w. present (snd (env_now env w)) = present w)"

definition is_unconfirmed :: "wscd_error \<Rightarrow> bool" where
  "is_unconfirmed e = (case e of UnconfirmedCleanup _ _ \<Rightarrow> True | _ \<Rightarrow> False)"

lemma keystore_steps:
  assumes "keystore_ok cb env present"
  shows "ak_generate cb a c b m u w = (r, w1) \<Longrightarrow> present w1 \<subseteq> insert a (present w)"
    and "ak_delete cb a w = (r', w2) \<Longrightarrow> present w2 \<subseteq> present w"
    and "ak_delete cb a w = (Inr x, w3) \<Longrightarrow> a \<notin> present w3"
    and "ak_certificate_chain cb a w = (rc, w4) \<Longrightarrow> present w4 = present w"
    and "ak_public_key_jwk cb a w = (rj, w5) \<Longrightarrow> present w5 = present w"
    and "new_alias X env w = (ra, w6) \<Longrightarrow> present w6 = present w"
    and "present (env_progress env pr w) = present w"
    and "present (snd (env_now env w)) = present w"
    and "present (snd (env_rand env n w)) = present w"
proof -
  note k = assms [unfolded keystore_ok_def]
  show "ak_generate cb a c b m u w = (r, w1) \<Longrightarrow> present w1 \<subseteq> insert a (present w)"
    using k by (metis snd_conv)
  show "ak_delete cb a w = (r', w2) \<Longrightarrow> present w2 \<subseteq> present w" using k by (metis snd_conv)
  show "ak_delete cb a w = (Inr x, w3) \<Longrightarrow> a \<notin> present w3"
    using k by (metis fst_conv snd_conv is_ok_simps(2))
  show "ak_certificate_chain cb a w = (rc, w4) \<Longrightarrow> present w4 = present w" using k by (metis snd_conv)
  show "ak_public_key_jwk cb a w = (rj, w5) \<Longrightarrow> present w5 = present w" using k by (metis snd_conv)
  show "new_alias X env w = (ra, w6) \<Longrightarrow> present w6 = present w"
    using k by (auto simp: new_alias_def ebind_apply rand_fill_def etotal_apply)
  show "present (env_progress env pr w) = present w" "present (snd (env_now env w)) = present w"
    "present (snd (env_rand env n w)) = present w" using k by blast+
qed

lemma fail_and_clean_present:
  assumes k: "keystore_ok cb env present" and f: "fail_and_clean cb a e w = (Inl e', w')"
  shows "present w' \<subseteq> present w - {a} \<or> is_unconfirmed e'"
  using f keystore_steps(2,3) [OF k, of a w]
  by (auto simp: fail_and_clean_def delete_after_failed_generate_def is_unconfirmed_def
      split: prod.splits sum.splits)

lemma new_alias_total: "\<exists>a w'. new_alias X env w = (Inr a, w')"
  by (simp add: new_alias_def ebind_apply rand_fill_def etotal_apply)

text \<open>
  Best-effort generation: on success only the returned alias is new; on failure nothing is, unless
  the error says the cleanup could not be confirmed.
\<close>

lemma best_effort_present:
  assumes k: "keystore_ok cb env present"
    and b: "best_effort_generate X env cb challenge w = (r, w')"
  shows "case r of Inr (al, level) \<Rightarrow> present w' \<subseteq> insert al (present w)
    | Inl e \<Rightarrow> present w' \<subseteq> present w \<or> is_unconfirmed e"
proof -
  obtain a w1 where a: "new_alias X env w = (Inr a, w1)" using new_alias_total [of X env w] by auto
  obtain g w2 where g: "ak_generate cb a (Some challenge) True [] False w1 = (g, w2)"
    by (metis prod.collapse)
  have p2: "present w2 \<subseteq> insert a (present w)"
    using keystore_steps(1) [OF k g] keystore_steps(6) [OF k a] by simp
  show ?thesis
  proof (cases g)
    case (Inr level)
    then show ?thesis using b a g p2 by (auto simp: best_effort_generate_def ebind_Inr)
  next
    case (Inl e)
    show ?thesis
    proof (cases "e = StrongBoxUnavailable")
      case False
      then have "(r, w') = fail_and_clean cb a e w2"
        using b a g Inl by (simp add: best_effort_generate_def ebind_Inr split: wscd_error.splits)
      then show ?thesis
        using fail_and_clean_present [OF k, of a e w2] p2
        by (cases r) (auto dest!: sym [of "(_, _)"])
    next
      case True
      obtain d w3 where d: "ak_delete cb a w2 = (d, w3)" by (metis prod.collapse)
      show ?thesis
      proof (cases d)
        case (Inl de)
        then show ?thesis using b a g \<open>g = Inl e\<close> True d
          by (auto simp: best_effort_generate_def ebind_Inr is_unconfirmed_def)
      next
        case (Inr u)
        have p3: "present w3 \<subseteq> present w"
          using keystore_steps(2,3) [OF k] d Inr p2 by blast
        obtain t w4 where t: "new_alias X env w3 = (Inr t, w4)"
          using new_alias_total [of X env w3] by auto
        obtain g2 w5 where g2: "ak_generate cb t (Some challenge) False [] False w4 = (g2, w5)"
          by (metis prod.collapse)
        have p5: "present w5 \<subseteq> insert t (present w)"
          using keystore_steps(1) [OF k g2] keystore_steps(6) [OF k t] p3 by blast
        have run: "(r, w') = (case g2 of Inr level \<Rightarrow> (Inr (t, level), w5)
            | Inl e \<Rightarrow> fail_and_clean cb t e w5)"
          using b a g \<open>g = Inl e\<close> True d Inr t g2
          by (simp add: best_effort_generate_def ebind_Inr split: sum.splits)
        show ?thesis
        proof (cases g2)
          case (Inr level)
          then show ?thesis using run p5 by auto
        next
          case (Inl e2)
          then show ?thesis
            using run fail_and_clean_present [OF k, of t e2 w5] p5
            by (cases r) (auto dest!: sym [of "(_, _)"])
        qed
      qed
    qed
  qed
qed


lemma android_generate_present:
  assumes k: "keystore_ok cb env present"
    and g: "generate_key_with_challenge X cb alg challenge env (p, w) = (r, (p', w'))"
  shows "case r of
      Inr key \<Rightarrow> \<exists>rec. hm_get (an_keys p') (gk_kid key) = Some rec \<and>
        present w' \<subseteq> insert (an_alias rec) (present w)
    | Inl e \<Rightarrow> present w' \<subseteq> present w \<or> is_unconfirmed e"
proof (cases r)
  case (Inr key)
  obtain al level w1 w2 w3 where b: "w1 = env_progress env (Started ''generate_key'') w"
    "best_effort_generate X env cb challenge w1 = (Inr (al, level), w2)"
    and f: "finish_generate_key X env cb al level challenge (p, w2) = (Inr key, (p', w3))"
    and w': "w' = env_progress env Complete w3"
    using g Inr by (auto elim: android_generate_ok)
  have p2: "present w2 \<subseteq> insert al (present w)"
    using best_effort_present [OF k b(2)] keystore_steps(7) [OF k] b(1) by auto
  have p3: "present w3 = present w2"
    by (rule finish_generate_ok [OF f])
       (use keystore_steps(4,5,8) [OF k] in metis)
  obtain rec where "hm_get (an_keys p') (gk_kid key) = Some rec" "an_alias rec = al"
    by (rule finish_generate_ok [OF f]) simp
  then show ?thesis using p2 p3 w' keystore_steps(7) [OF k] Inr by auto
next
  case (Inl e)
  show ?thesis
  proof (cases "w' = w")
    case True
    then show ?thesis using Inl by simp
  next
    case False
    let ?w1 = "env_progress env (Started ''generate_key'') w"
    obtain b w2 where b: "best_effort_generate X env cb challenge ?w1 = (b, w2)"
      by (metis prod.collapse)
    have p1: "present ?w1 = present w" using keystore_steps(7) [OF k] by simp
    show ?thesis
    proof (cases b)
      case (Inl e1)
      then have "e = e1 \<and> w' = w2"
        using g \<open>r = Inl e\<close> b False unfolding generate_key_with_challenge_def
        by (auto simp: eff_elims split: if_splits)
      then show ?thesis using best_effort_present [OF k b] Inl p1 \<open>r = Inl e\<close> by simp
    next
      case (Inr al)
      obtain a level where al: "al = (a, level)" by (cases al)
      have p2: "present w2 \<subseteq> insert a (present w)"
        using best_effort_present [OF k b] Inr al p1 by simp
      obtain e3 w3 where f: "finish_generate_key X env cb a level challenge (p, w2) = (Inl e3, (p', w3))"
        and c: "fail_and_clean cb a e3 w3 = (Inl e :: generated_key wres, w')"
        using g \<open>r = Inl e\<close> b False Inr al unfolding generate_key_with_challenge_def
        by (auto simp: eff_elims split: if_splits dest: finish_generate_err(1))
      have "present w3 = present w2"
        using finish_generate_err(2) [OF f] keystore_steps(4,5) [OF k] by metis
      then show ?thesis using fail_and_clean_present [OF k c] p2 \<open>r = Inl e\<close> by auto
    qed
  qed
qed

subsection \<open>Properties\<close>

text \<open>C4: no orphaned keys on the device. However generation ends, the device holds at most the
  aliases it held before and the alias of the record that was stored; a failure leaves no new alias
  unless it is the error that says the cleanup could not be confirmed. Only the documented effect of
  the device callbacks on its aliases is assumed.\<close>

theorem no_orphaned_device_keys:
  assumes "keystore_ok cb env present"
    and "generate_key_with_challenge X cb alg challenge env (p, w) = (r, (p', w'))"
  shows "case r of
      Inr key \<Rightarrow> \<exists>rec. hm_get (an_keys p') (gk_kid key) = Some rec \<and>
        present w' \<subseteq> insert (an_alias rec) (present w)
    | Inl e \<Rightarrow> present w' \<subseteq> present w \<or> is_unconfirmed e"
  by (rule android_generate_present [OF assms])

definition ref_android :: "string list android_callback" where
  "ref_android = \<lparr>ak_generate = (\<lambda>a c sb m u w.
       (if sb then Inl StrongBoxUnavailable else Inr LvTrustedExecution, a # w)),
     ak_certificate_chain = (\<lambda>a w. (Inr [[1], [2]], w)),
     ak_public_key_jwk = (\<lambda>a w. (Inr (jwk_ec ref_externals ''P-256'' [1] [2]), w)),
     ak_security_level = (\<lambda>a w. (Inr LvTrustedExecution, w)),
     ak_user_authentication_methods = (\<lambda>a w. (Inr [], w)),
     ak_sign = (\<lambda>a d w. (Inr d, w)), ak_aliases = (\<lambda>w. (Inr w, w)), ak_delete = (\<lambda>a w. (Inr (), removeAll a w))\<rparr>"

definition ref_android_env :: "string list env" where
  "ref_android_env = \<lparr>env_progress = (\<lambda>p w. w), env_now = (\<lambda>w. (0, w)),
     env_rand = (\<lambda>n w. (replicate n (of_nat (length w)), w)), env_generate_secret = (\<lambda>w. ([], w))\<rparr>"

lemma ref_keystore_ok: "keystore_ok ref_android ref_android_env set"
  by (auto simp: keystore_ok_def ref_android_def ref_android_env_def)

theorem no_orphaned_device_keys_witness:
  "\<exists>r p' w'. generate_key_with_challenge ref_externals ref_android ES256 [1] ref_android_env
       (android_new, []) = (r, (p', w')) \<and>
     (case r of
        Inr key \<Rightarrow> \<exists>rec. hm_get (an_keys p') (gk_kid key) = Some rec \<and>
          set w' \<subseteq> insert (an_alias rec) (set [])
      | Inl e \<Rightarrow> set w' \<subseteq> set [] \<or> is_unconfirmed e)"
proof -
  obtain r p' w' where run: "generate_key_with_challenge ref_externals ref_android ES256 [1]
      ref_android_env (android_new, []) = (r, (p', w'))" by (metis prod.collapse)
  show ?thesis using no_orphaned_device_keys [OF ref_keystore_ok run] run by blast
qed

text \<open>
  The run of a successful best-effort generation, call by call: the first alias in StrongBox, or, when
  that is unavailable and its remains are deleted, a second alias in the TEE.
\<close>

definition made_on_device ::
  "externals \<Rightarrow> 'w env \<Rightarrow> 'w android_callback \<Rightarrow> bytes \<Rightarrow> 'w \<Rightarrow> string \<Rightarrow> android_level \<Rightarrow> 'w \<Rightarrow> bool" where
  "made_on_device X env cb challenge w al level w' \<longleftrightarrow>
     (\<exists>a w1 w2. new_alias X env w = (Inr a, w1) \<and>
       (ak_generate cb a (Some challenge) True [] False w1 = (Inr level, w2) \<and> al = a \<and> w' = w2 \<or>
        ak_generate cb a (Some challenge) True [] False w1 = (Inl StrongBoxUnavailable, w2) \<and>
        (\<exists>w3 w4. ak_delete cb a w2 = (Inr (), w3) \<and> new_alias X env w3 = (Inr al, w4) \<and>
           ak_generate cb al (Some challenge) False [] False w4 = (Inr level, w'))))"

lemma best_effort_made:
  assumes "best_effort_generate X env cb challenge w = (Inr (al, level), w')"
  shows "made_on_device X env cb challenge w al level w'"
proof -
  obtain a w1 where a: "new_alias X env w = (Inr a, w1)" using new_alias_total [of X env w] by auto
  obtain g w2 where g: "ak_generate cb a (Some challenge) True [] False w1 = (g, w2)"
    by (metis prod.collapse)
  show ?thesis
  proof (cases g)
    case (Inr l)
    then show ?thesis using assms a g by (auto simp: best_effort_generate_def ebind_Inr made_on_device_def)
  next
    case (Inl e)
    then have e: "e = StrongBoxUnavailable"
      using assms a g by (cases e) (auto simp: best_effort_generate_def ebind_Inr)
    obtain u w3 where d: "ak_delete cb a w2 = (Inr u, w3)"
      using assms a g Inl e
      by (cases "ak_delete cb a w2") (auto simp: best_effort_generate_def ebind_Inr split: sum.splits)
    obtain t w4 where t: "new_alias X env w3 = (Inr t, w4)" using new_alias_total [of X env w3] by auto
    obtain g2 w5 where g2: "ak_generate cb t (Some challenge) False [] False w4 = (g2, w5)"
      by (metis prod.collapse)
    show ?thesis
      using assms a g Inl e d t g2
      by (cases g2) (auto simp: best_effort_generate_def ebind_Inr made_on_device_def)
  qed
qed

text \<open>C39: the level claimed is the level reported for the key. A generated key is recorded under the
  alias of the run's own successful attempt: the first alias, generated in StrongBox, or, when StrongBox was
  unavailable and the first alias had been deleted, the second, generated in the TEE. The record carries the
  level the device returned for that very attempt and the certificate chain it then returned for
  that alias; the security properties follow from these two, and no certification is claimed
  without a chain of at least two certificates.\<close>

theorem android_level_is_the_device_level:
  assumes "generate_key_with_challenge X cb alg challenge env (p, w) = (Inr g, (p', w'))"
  shows "\<exists>rec wb wc. hm_get (an_keys p') (gk_kid g) = Some rec \<and>
    (\<exists>a w1 w2. new_alias X env (env_progress env (Started ''generate_key'') w) = (Inr a, w1) \<and>
      (ak_generate cb a (Some challenge) True [] False w1 = (Inr (an_security_level rec), w2) \<and>
         an_alias rec = a \<and> wb = w2 \<or>
       ak_generate cb a (Some challenge) True [] False w1 = (Inl StrongBoxUnavailable, w2) \<and>
         (\<exists>w3 w4. ak_delete cb a w2 = (Inr (), w3) \<and> new_alias X env w3 = (Inr (an_alias rec), w4) \<and>
            ak_generate cb (an_alias rec) (Some challenge) False [] False w4 =
              (Inr (an_security_level rec), wb)))) \<and>
    ak_certificate_chain cb (an_alias rec) wb = (Inr (an_certificates rec), wc) \<and>
    android_security_properties p' (gk_kid g) = Inr
      \<lparr>sp_key_storage = as_key_storage_type (an_security_level rec), sp_user_authentication = [],
       sp_certification = (if length (an_certificates rec) < 2 then Unattested
         else as_certification_level (an_security_level rec)),
       sp_amr = amr_for (an_security_level rec)\<rparr>"
proof -
  obtain al level w2 w3 where b: "best_effort_generate X env cb challenge
        (env_progress env (Started ''generate_key'') w) = (Inr (al, level), w2)"
    and f: "finish_generate_key X env cb al level challenge (p, w2) = (Inr g, (p', w3))"
    by (rule android_generate_ok [OF assms]) blast
  note made = best_effort_made [OF b, unfolded made_on_device_def]
  show ?thesis
    by (rule finish_generate_ok [OF f], rule exI, rule exI [where x = w2], rule exI)
       (intro conjI, simp, use made in simp, simp, simp add: android_security_properties_def find_key_def)
qed

theorem android_level_is_the_device_level_witness:
  "\<exists>g p' w' rec. generate_key_with_challenge ref_externals ref_android ES256 [1] ref_android_env
       (android_new, []) = (Inr g, (p', w')) \<and>
     hm_get (an_keys p') (gk_kid g) = Some rec \<and> an_security_level rec = LvTrustedExecution"
proof -
  have "\<exists>kid. jwk_thumbprint ref_externals (jwk_ec ref_externals ''P-256'' [1] [2]) = Inr kid"
    by (simp add: jwk_ec_thumbprint)
  then obtain g p' w' where run: "generate_key_with_challenge ref_externals ref_android ES256 [1]
      ref_android_env (android_new, []) = (Inr g, (p', w'))"
    by (auto simp: generate_key_with_challenge_def best_effort_generate_def new_alias_def ref_android_def
        ref_android_env_def finish_generate_key_def ebind_apply on_snd_apply rand_fill_def etotal_apply
        now_unix_def ecatch_def modify_state_def on_progress_def started_def completed_def)
  show ?thesis
    using android_level_is_the_device_level [OF run] run by (auto simp: ref_android_def)
qed

end
