(* ===== verification/Uvm.thy ===== *)
theory Uvm
  imports Factors
begin

section \<open>The WebAuthn uvm extension: src/webauthn\_uvm.rs\<close>

text \<open>
  Reading the user verification methods out of raw authenticator data, and mapping a single
  entry to a TS12 factor. Nothing is guessed: a biometric entry, several entries or an unknown
  method give no factor.
\<close>

definition from_reader :: "externals \<Rightarrow> bytes \<Rightarrow> string + cbor" where
  "from_reader X bs = (case cbor_dec X bs of Inl e \<Rightarrow> Inl e | Inr (v, _) \<Rightarrow> Inr v)"

lemma from_reader_enc [simp]: "cbor_roundtrips X v \<Longrightarrow> from_reader X (cbor_enc X v) = Inr v"
  by (simp add: from_reader_def cbor_roundtripsD')

definition AUTH_DATA_FLAG_ED :: byte where "AUTH_DATA_FLAG_ED = 0x80"
definition AUTH_DATA_FLAG_AT :: byte where "AUTH_DATA_FLAG_AT = 0x40"
definition AUTH_DATA_HEADER_LEN :: nat where "AUTH_DATA_HEADER_LEN = 32 + 1 + 4"

definition USER_VERIFY_FINGERPRINT_INTERNAL :: nat where "USER_VERIFY_FINGERPRINT_INTERNAL = 0x2"
definition USER_VERIFY_PASSCODE_INTERNAL :: nat where "USER_VERIFY_PASSCODE_INTERNAL = 0x4"
definition USER_VERIFY_FACEPRINT_INTERNAL :: nat where "USER_VERIFY_FACEPRINT_INTERNAL = 0x10"
definition USER_VERIFY_PATTERN_INTERNAL :: nat where "USER_VERIFY_PATTERN_INTERNAL = 0x80"
definition USER_VERIFY_PASSCODE_EXTERNAL :: nat where "USER_VERIFY_PASSCODE_EXTERNAL = 0x800"
definition USER_VERIFY_PATTERN_EXTERNAL :: nat where "USER_VERIFY_PATTERN_EXTERNAL = 0x1000"

lemmas user_verify_defs =
  USER_VERIFY_FINGERPRINT_INTERNAL_def USER_VERIFY_PASSCODE_INTERNAL_def
  USER_VERIFY_FACEPRINT_INTERNAL_def USER_VERIFY_PATTERN_INTERNAL_def
  USER_VERIFY_PASSCODE_EXTERNAL_def USER_VERIFY_PATTERN_EXTERNAL_def

record uvm_entry =
  uv_method :: nat
  uv_key_protection :: nat
  uv_matcher_protection :: nat

text \<open>One \<open>[method, keyProtection, matcherProtection]\<close> triple: exactly three integers in range.\<close>

definition parse_uvm_entry :: "cbor \<Rightarrow> uvm_entry option" where
  "parse_uvm_entry entry =
     Option.bind (as_array entry) (\<lambda>triple.
       case triple of
         [a, b, c] \<Rightarrow>
           Option.bind (Option.bind (as_integer a) try_u32) (\<lambda>m.
           Option.bind (Option.bind (as_integer b) try_u16) (\<lambda>k.
           Option.bind (Option.bind (as_integer c) try_u16) (\<lambda>p.
             Some \<lparr>uv_method = m, uv_key_protection = k, uv_matcher_protection = p\<rparr>)))
       | _ \<Rightarrow> None)"

definition parse_uvm_extension :: "externals \<Rightarrow> bytes \<Rightarrow> uvm_entry list option" where
  "parse_uvm_extension X authenticator_data =
     Option.bind (list_at 32 authenticator_data) (\<lambda>flags.
       if flags AND AUTH_DATA_FLAG_ED = 0 \<or> flags AND AUTH_DATA_FLAG_AT \<noteq> 0 then None
       else
         Option.bind (slice_from AUTH_DATA_HEADER_LEN authenticator_data) (\<lambda>ext_bytes.
         Option.bind (res_ok (from_reader X ext_bytes)) (\<lambda>value.
         Option.bind (as_map value) (\<lambda>m.
         Option.bind (get_value_by_text m ''uvm'') (\<lambda>uvm_value.
         Option.bind (as_array uvm_value) (\<lambda>entries_cbor.
         Option.bind (map_all parse_uvm_entry entries_cbor) (\<lambda>entries.
           if entries = [] then None else Some entries)))))))"

definition classify_uvm_for_ts12 :: "uvm_entry list \<Rightarrow> auth_factor option" where
  "classify_uvm_for_ts12 entries =
     (case entries of
        [entry] \<Rightarrow>
          (let m = uv_method entry in
           if m = USER_VERIFY_FINGERPRINT_INTERNAL \<or> m = USER_VERIFY_FACEPRINT_INTERNAL then None
           else if m = USER_VERIFY_PATTERN_INTERNAL \<or> m = USER_VERIFY_PATTERN_EXTERNAL
             then res_ok (auth_factor_new Knowledge ''pattern'')
           else if m = USER_VERIFY_PASSCODE_INTERNAL \<or> m = USER_VERIFY_PASSCODE_EXTERNAL
             then res_ok (auth_factor_new Knowledge ''other'')
           else None)
      | _ \<Rightarrow> None)"

lemma classify_uvm_knowledge:
  "classify_uvm_for_ts12 es = Some f \<Longrightarrow> af_category f = Knowledge \<and> in_vocabulary f"
  by (auto simp: classify_uvm_for_ts12_def Let_def split: list.splits if_splits)

lemma classify_uvm_iff:
  "classify_uvm_for_ts12 es = Some f \<longleftrightarrow>
     (\<exists>e. es = [e] \<and>
       ((uv_method e \<in> {0x80, 0x1000} \<and> f = \<lparr>af_category = Knowledge, af_method = ''pattern''\<rparr>) \<or>
        (uv_method e \<in> {0x4, 0x800} \<and> f = \<lparr>af_category = Knowledge, af_method = ''other''\<rparr>)))"
  by (auto simp: classify_uvm_for_ts12_def Let_def user_verify_defs in_vocabulary_def
      split: list.splits if_splits)

lemma parse_uvm_entry_range:
  "parse_uvm_entry c = Some e \<Longrightarrow>
     uv_method e < 2 ^ 32 \<and> uv_key_protection e < 2 ^ 16 \<and> uv_matcher_protection e < 2 ^ 16"
  by (auto simp: parse_uvm_entry_def try_u32_def try_u16_def nat_less_iff
      split: list.splits bind_splits if_splits)

lemma parse_uvm_extension_flags:
  "parse_uvm_extension X d = Some es \<Longrightarrow>
     32 < length d \<and> d ! 32 AND 0x80 \<noteq> 0 \<and> d ! 32 AND 0x40 = 0 \<and> es \<noteq> []"
  by (auto simp: parse_uvm_extension_def list_at_def AUTH_DATA_FLAG_ED_def AUTH_DATA_FLAG_AT_def
      split: bind_splits if_splits)

subsection \<open>Properties\<close>

text \<open>Nothing is guessed from a \<open>uvm\<close> report. A factor is derived exactly from a single entry
  whose method is a pattern or a passcode, and it is always a knowledge factor; a biometric entry,
  several entries and unknown methods give none.\<close>

lemma uvm_factor_only_from_single_knowledge_entry:
  "classify_uvm_for_ts12 es = Some f \<longleftrightarrow>
     (\<exists>e. es = [e] \<and>
       ((uv_method e \<in> {0x80, 0x1000} \<and> f = \<lparr>af_category = Knowledge, af_method = ''pattern''\<rparr>) \<or>
        (uv_method e \<in> {0x4, 0x800} \<and> f = \<lparr>af_category = Knowledge, af_method = ''other''\<rparr>)))"
  by (rule classify_uvm_iff)

text \<open>Reading the \<open>uvm\<close> extension. Entries are only read from data with the extension flag and
  without attested credential data, there is at least one, and every field fits the width the host
  interface gives it.\<close>

lemma uvm_entries_in_range:
  assumes "parse_uvm_extension X d = Some es"
  shows "32 < length d \<and> d ! 32 AND 0x80 \<noteq> 0 \<and> d ! 32 AND 0x40 = 0 \<and> es \<noteq> [] \<and>
    list_all (\<lambda>e. uv_method e < 2 ^ 32 \<and> uv_key_protection e < 2 ^ 16 \<and>
      uv_matcher_protection e < 2 ^ 16) es"
proof -
  have "list_all (\<lambda>e. uv_method e < 2 ^ 32 \<and> uv_key_protection e < 2 ^ 16 \<and>
      uv_matcher_protection e < 2 ^ 16) es"
    using assms unfolding parse_uvm_extension_def list_all_iff
    by (fastforce dest: map_all_elems parse_uvm_entry_range split: bind_splits if_splits)
  then show ?thesis using parse_uvm_extension_flags [OF assms] by simp
qed

definition uvm_example :: cbor where
  "uvm_example = CMap [(CText ''uvm'', CArray [CArray [CInteger 4, CInteger 10, CInteger 4]])]"

definition uvm_example_data :: bytes where
  "uvm_example_data = replicate 32 0 @ [0x80, 0, 0, 0, 1] @ cbor_enc ref_externals uvm_example"

end
