(* ===== verification/Ctap_Wire.thy ===== *)
theory Ctap_Wire
  imports Uvm
begin

section \<open>previewSign wire formats: src/preview\_sign\_protocol.rs\<close>

text \<open>
  Requests and responses of the previewSign ceremonies, in both directions: the builders and
  parsers of the two requests, the encoders and parsers of the two responses, the COSE key and
  authenticator-data readers and the status byte. Every index and slice of the source is a
  checked access here whose failure is \<open>RustPanic\<close>; the lemmas \<open>no_panic\<close> show that none is
  reachable, whatever bytes a transport returns.
\<close>

definition idx :: "nat \<Rightarrow> 'a list \<Rightarrow> 'a wres" where
  "idx i xs = ok_or (RustPanic ''index out of bounds'') (list_at i xs)"

definition slice_or_panic :: "nat \<Rightarrow> 'a list \<Rightarrow> 'a list wres" where
  "slice_or_panic i xs = ok_or (RustPanic ''range start index out of range'') (slice_from i xs)"

lemma idx_ok [simp]: "i < length xs \<Longrightarrow> idx i xs = Inr (xs ! i)"
  by (simp add: idx_def list_at_def)

lemma slice_or_panic_ok [simp]: "i \<le> length xs \<Longrightarrow> slice_or_panic i xs = Inr (drop i xs)"
  by (simp add: slice_or_panic_def slice_from_def)

definition crypto_err :: "string \<Rightarrow> 'a option \<Rightarrow> 'a wres" where
  "crypto_err msg m = ok_or (Crypto msg) m"

definition read_cbor :: "externals \<Rightarrow> string \<Rightarrow> bytes \<Rightarrow> cbor wres" where
  "read_cbor X what bs = map_err (\<lambda>e. Crypto (what @ e)) (from_reader X bs)"

lemma crypto_err_simps [simp]:
  "crypto_err msg None = Inl (Crypto msg)"
  "crypto_err msg (Some x) = Inr x"
  "no_panic (crypto_err msg m)"
  by (auto simp: crypto_err_def)

lemma crypto_err_eq_Inr [simp]: "crypto_err msg m = Inr x \<longleftrightarrow> m = Some x"
  by (cases m) auto

lemma no_panic_read_cbor [simp]: "no_panic (read_cbor X what bs)"
  by (auto simp: read_cbor_def)

lemma read_cbor_enc [simp]: "cbor_roundtrips X v \<Longrightarrow> read_cbor X what (cbor_enc X v) = Inr v"
  by (simp add: read_cbor_def)

subsection \<open>Inputs and results of the ceremonies\<close>

record preview_generated_key =
  pg_key_handle :: bytes
  pg_public_key_cose :: bytes
  pg_algorithm :: int
  pg_attestation_object :: bytes

record make_credential_result =
  mr_credential_id :: bytes
  mr_generated_key :: preview_generated_key

record sign_input =
  si_key_handle :: bytes
  si_tbs :: bytes
  si_additional_args :: "bytes option"

record sign_result =
  sr_signature :: bytes
  sr_user_verified :: bool
  sr_verified_factor :: "auth_factor option"

definition VERIFIED_FACTOR_EXTENSION_KEY :: string where
  "VERIFIED_FACTOR_EXTENSION_KEY = ''x-ts12-verified-factor''"

definition CTAP2_MAKE_CREDENTIAL :: byte where "CTAP2_MAKE_CREDENTIAL = 0x01"
definition CTAP2_GET_ASSERTION :: byte where "CTAP2_GET_ASSERTION = 0x02"
definition ARKG_P256_ESP256 :: int where "ARKG_P256_ESP256 = -65539"
definition ECSDSA_BLS12381_BP1_SHA256_SEC1 :: int where "ECSDSA_BLS12381_BP1_SHA256_SEC1 = -65609"
definition COSE_CRV_BLS12_381_G1 :: int where "COSE_CRV_BLS12_381_G1 = 13"
definition COSE_CRV_BLS12_381_G1_PLACEHOLDER :: int where
  "COSE_CRV_BLS12_381_G1_PLACEHOLDER = -65601"
definition BLS12381_G1_COORDINATE_LEN :: nat where "BLS12381_G1_COORDINATE_LEN = 48"
definition BLS12381_SCHNORR_SIGNATURE_LEN :: nat where "BLS12381_SCHNORR_SIGNATURE_LEN = 64"
definition PREVIEW_SIGN_MAX_TBS_LEN :: nat where "PREVIEW_SIGN_MAX_TBS_LEN = 64"
definition BLS12381_KEYBIND_TBS_LEN :: nat where "BLS12381_KEYBIND_TBS_LEN = 32"
definition AUTH_DATA_FLAG_UV :: byte where "AUTH_DATA_FLAG_UV = 0x04"

definition DEFAULT_PUB_KEY_CRED_ALGS :: "int list" where
  "DEFAULT_PUB_KEY_CRED_ALGS = [-7, -8, -35, -36, -37, -257, -47, -48, -49, -50]"

subsection \<open>COSE keys and signatures\<close>

definition ps_decode_cose_ec2_public_key :: "externals \<Rightarrow> bytes \<Rightarrow> (bytes \<times> bytes) wres" where
  "ps_decode_cose_ec2_public_key X cose_bytes =
     rbind (read_cbor X ''invalid COSE key CBOR: '' cose_bytes) (\<lambda>value.
     rbind (crypto_err ''COSE key is not a CBOR map'' (as_map value)) (\<lambda>m.
     rbind (crypto_err ''COSE key missing x coordinate'' (find_bytes_by_int m (-2))) (\<lambda>x.
     rbind (crypto_err ''COSE key missing y coordinate'' (find_bytes_by_int m (-3))) (\<lambda>y.
       if x = [] \<or> y = [] then Inl (Crypto ''COSE key x/y coordinate must not be empty'')
       else if length x \<noteq> length y then
         Inl (Crypto (''COSE key x/y coordinate length mismatch: x='' @ show_nat (length x)
           @ '' y='' @ show_nat (length y)))
       else Inr (x, y)))))"

definition bls_coordinate :: "(cbor \<times> cbor) list \<Rightarrow> int \<Rightarrow> string \<Rightarrow> bytes wres" where
  "bls_coordinate m label name =
     rbind (crypto_err (''COSE key has no '' @ name @ '' (label '' @ show_int label @ '')'')
        (Option.bind (get_value_by_int m label) as_cbytes)) (\<lambda>b.
       if length b \<noteq> BLS12381_G1_COORDINATE_LEN then
         Inl (Crypto (''BLS12-381 G1 '' @ name @ '' is '' @ show_nat (length b)
           @ '' octets, expected '' @ show_nat BLS12381_G1_COORDINATE_LEN))
       else Inr b)"

definition decode_cose_bls12381_g1_public_key :: "externals \<Rightarrow> bytes \<Rightarrow> (bytes \<times> bytes) wres" where
  "decode_cose_bls12381_g1_public_key X cose_bytes =
     rbind (read_cbor X ''invalid COSE key CBOR: '' cose_bytes) (\<lambda>value.
     rbind (crypto_err ''COSE key is not a CBOR map'' (as_map value)) (\<lambda>m.
     rbind (crypto_err ''COSE key has no curve (label -1)''
        (Option.bind (Option.bind (get_value_by_int m (-1)) as_integer) try_i64)) (\<lambda>crv.
       if crv \<noteq> COSE_CRV_BLS12_381_G1 \<and> crv \<noteq> COSE_CRV_BLS12_381_G1_PLACEHOLDER then
         Inl (Crypto (''unexpected curve '' @ show_int crv
           @ '' for a BLS12-381 G1 key (expected '' @ show_int COSE_CRV_BLS12_381_G1 @ '' or ''
           @ show_int COSE_CRV_BLS12_381_G1_PLACEHOLDER @ '')''))
       else
         rbind (bls_coordinate m (-2) ''x coordinate'') (\<lambda>x.
         rbind (bls_coordinate m (-3) ''y coordinate'') (\<lambda>y. Inr (x, y))))))"

definition der_signature_to_raw :: "externals \<Rightarrow> bytes \<Rightarrow> bytes wres" where
  "der_signature_to_raw X der =
     map_err (\<lambda>e. Crypto (''invalid DER signature from authenticator: '' @ e))
       (p256_sig_from_der X der)"

definition validate_bls12381_schnorr_signature :: "bytes \<Rightarrow> bytes wres" where
  "validate_bls12381_schnorr_signature sig =
     (if length sig \<noteq> BLS12381_SCHNORR_SIGNATURE_LEN then
        Inl (Crypto (''BLS12-381 Schnorr signature is '' @ show_nat (length sig)
          @ '' octets, expected '' @ show_nat BLS12381_SCHNORR_SIGNATURE_LEN))
      else Inr sig)"

definition x5c_certificates_ok :: "cbor list \<Rightarrow> bool" where
  "x5c_certificates_ok certs \<longleftrightarrow>
     certs \<noteq> [] \<and> list_all (\<lambda>c. case as_cbytes c of Some b \<Rightarrow> b \<noteq> [] | None \<Rightarrow> False) certs"

definition attestation_object_has_dedicated_hardware_chain :: "externals \<Rightarrow> bytes \<Rightarrow> bool" where
  "attestation_object_has_dedicated_hardware_chain X attestation_object =
     (case from_reader X attestation_object of
        Inl _ \<Rightarrow> False
      | Inr value \<Rightarrow>
         (case as_map value of
            None \<Rightarrow> False
          | Some m \<Rightarrow>
              if Option.bind (get_value_by_int m 1) as_text = Some ''android-key'' then False
              else (case Option.bind (get_value_by_int m 3) as_map of
                      None \<Rightarrow> False
                    | Some att_stmt \<Rightarrow>
                       (case Option.bind (get_value_by_text att_stmt ''x5c'') as_array of
                          Some certs \<Rightarrow> x5c_certificates_ok certs
                        | None \<Rightarrow> False))))"

subsection \<open>The status byte\<close>

definition ctap2_status_name :: "byte \<Rightarrow> string" where
  "ctap2_status_name status =
     (if status = 0x11 then ''CTAP2_ERR_CBOR_UNEXPECTED_TYPE''
      else if status = 0x12 then ''CTAP2_ERR_INVALID_CBOR''
      else if status = 0x14 then ''CTAP2_ERR_MISSING_PARAMETER''
      else if status = 0x19 then ''CTAP2_ERR_UNSUPPORTED_EXTENSION''
      else if status = 0x26 then ''CTAP2_ERR_UNSUPPORTED_ALGORITHM''
      else if status = 0x27 then ''CTAP2_ERR_OPERATION_DENIED''
      else if status = 0x30 then ''CTAP2_ERR_NOT_ALLOWED''
      else if status = 0x31 then ''CTAP2_ERR_PIN_INVALID''
      else if status = 0x33 then ''CTAP2_ERR_PIN_AUTH_INVALID''
      else if status = 0x34 then ''CTAP2_ERR_PIN_AUTH_BLOCKED''
      else if status = 0x35 then ''CTAP2_ERR_PIN_NOT_SET''
      else if status = 0x36 then ''CTAP2_ERR_PUAT_REQUIRED''
      else if status = 0x37 then ''CTAP2_ERR_PIN_POLICY_VIOLATION''
      else ''unknown'')"

definition split_status :: "bytes \<Rightarrow> bytes wres" where
  "split_status response =
     rbind (crypto_err ''empty CTAP2 response'' (list_head response)) (\<lambda>status.
       if status \<noteq> 0 then
         Inl (Crypto (''CTAP2 error 0x'' @ hex2 status @ '' ('' @ ctap2_status_name status @ '')''))
       else slice_or_panic 1 response)"

lemma no_panic_split_status [simp]: "no_panic (split_status r)"
  by (cases r) (auto simp: split_status_def list_head_def)

lemma split_status_Cons [simp]: "split_status (0 # body) = Inr body"
  by (simp add: split_status_def list_head_def)

lemma split_status_ok: "split_status r = Inr body \<longleftrightarrow> r = 0 # body"
  by (cases r) (auto simp: split_status_def list_head_def)

definition encode_command :: "externals \<Rightarrow> byte \<Rightarrow> cbor \<Rightarrow> bytes" where
  "encode_command X command params = command # cbor_enc X params"

subsection \<open>Building the requests\<close>

definition build_generate_key_extension :: "int list \<Rightarrow> bool \<Rightarrow> cbor" where
  "build_generate_key_extension algorithms require_uv =
     (let algs = CArray (map CInteger algorithms);
          flags = (if require_uv then 5 else 1 :: int)
      in CMap [(CText ''previewSign'', CMap [(CInteger 3, algs), (CInteger 4, CInteger flags)])])"

definition build_sign_by_credential_extension :: "sign_input \<Rightarrow> cbor" where
  "build_sign_by_credential_extension sign =
     (let inner = [(CInteger 2, CBytes (si_key_handle sign)), (CInteger 6, CBytes (si_tbs sign))];
          inner' = (case si_additional_args sign of
                      Some args \<Rightarrow> inner @ [(CInteger 7, CBytes args)] | None \<Rightarrow> inner)
      in CMap [(CText ''previewSign'', CMap inner')])"

definition make_credential_params ::
  "string \<Rightarrow> bytes \<Rightarrow> bytes \<Rightarrow> int list \<Rightarrow> (bytes \<times> int) option \<Rightarrow> cbor" where
  "make_credential_params rp_id user_id client_data_hash algorithms pin_uv_auth =
     (let rp = CMap [(CText ''id'', CText rp_id), (CText ''name'', CText rp_id)];
          user = CMap [(CText ''id'', CBytes user_id), (CText ''name'', CText ''wscd-user''),
                       (CText ''displayName'', CText ''WSCD User'')];
          pub_key_cred_params = CArray (map (\<lambda>alg.
             CMap [(CText ''alg'', CInteger alg), (CText ''type'', CText ''public-key'')])
             DEFAULT_PUB_KEY_CRED_ALGS);
          params = [(CInteger 1, CBytes client_data_hash), (CInteger 2, rp), (CInteger 3, user),
                    (CInteger 4, pub_key_cred_params),
                    (CInteger 6, build_generate_key_extension algorithms True)]
      in CMap (case pin_uv_auth of
                 Some (param, protocol) \<Rightarrow>
                   params @ [(CInteger 8, CBytes param), (CInteger 9, CInteger protocol)]
               | None \<Rightarrow> params))"

definition build_make_credential_request ::
  "externals \<Rightarrow> string \<Rightarrow> bytes \<Rightarrow> bytes \<Rightarrow> int list \<Rightarrow> (bytes \<times> int) option \<Rightarrow> bytes" where
  "build_make_credential_request X rp_id user_id client_data_hash algorithms pin_uv_auth =
     encode_command X CTAP2_MAKE_CREDENTIAL
       (make_credential_params rp_id user_id client_data_hash algorithms pin_uv_auth)"

definition get_assertion_params ::
  "string \<Rightarrow> bytes \<Rightarrow> bytes \<Rightarrow> sign_input \<Rightarrow> (bytes \<times> int) option \<Rightarrow> cbor" where
  "get_assertion_params rp_id challenge credential_id sign pin_uv_auth =
     (let allow_list = CArray [CMap [(CText ''id'', CBytes credential_id),
                                     (CText ''type'', CText ''public-key'')]];
          params = [(CInteger 1, CText rp_id), (CInteger 2, CBytes challenge),
                    (CInteger 3, allow_list),
                    (CInteger 4, build_sign_by_credential_extension sign)]
      in CMap (case pin_uv_auth of
                 Some (param, protocol) \<Rightarrow>
                   params @ [(CInteger 6, CBytes param), (CInteger 7, CInteger protocol)]
               | None \<Rightarrow> params))"

definition build_get_assertion_request ::
  "externals \<Rightarrow> string \<Rightarrow> bytes \<Rightarrow> bytes \<Rightarrow> sign_input \<Rightarrow> (bytes \<times> int) option \<Rightarrow> bytes" where
  "build_get_assertion_request X rp_id challenge credential_id sign pin_uv_auth =
     encode_command X CTAP2_GET_ASSERTION
       (get_assertion_params rp_id challenge credential_id sign pin_uv_auth)"

subsection \<open>Parsing the requests\<close>

record make_credential_request =
  mq_rp_id :: string
  mq_user_id :: bytes
  mq_client_data_hash :: bytes
  mq_algorithms :: "int list"

definition parse_make_credential_request :: "externals \<Rightarrow> bytes \<Rightarrow> make_credential_request wres" where
  "parse_make_credential_request X command =
     (if list_head command \<noteq> Some CTAP2_MAKE_CREDENTIAL
      then Inl (Crypto ''not an authenticatorMakeCredential command'')
      else
       rbind (slice_or_panic 1 command) (\<lambda>body.
       rbind (read_cbor X ''invalid MakeCredential params CBOR: '' body) (\<lambda>params.
       rbind (crypto_err ''MakeCredential params is not a map'' (as_map params)) (\<lambda>m.
       rbind (crypto_err ''missing clientDataHash'' (get_bytes_by_int m 1)) (\<lambda>client_data_hash.
       rbind (crypto_err ''missing rp'' (Option.bind (get_value_by_int m 2) as_map)) (\<lambda>rp.
       rbind (crypto_err ''missing rp.id''
         (Option.bind (get_value_by_text rp ''id'') as_text)) (\<lambda>rp_id.
       rbind (crypto_err ''missing user'' (Option.bind (get_value_by_int m 3) as_map)) (\<lambda>user.
       rbind (crypto_err ''missing user.id''
         (Option.bind (get_value_by_text user ''id'') as_cbytes)) (\<lambda>user_id.
       rbind (crypto_err ''missing extensions''
         (Option.bind (get_value_by_int m 6) as_map)) (\<lambda>extensions.
       rbind (crypto_err ''missing previewSign extension''
         (Option.bind (get_value_by_text extensions ''previewSign'') as_map)) (\<lambda>preview_sign.
       rbind (crypto_err ''missing generateKey algorithms''
         (Option.bind (get_value_by_int preview_sign 3) as_array)) (\<lambda>algs.
         Inr \<lparr>mq_rp_id = rp_id, mq_user_id = user_id, mq_client_data_hash = client_data_hash,
              mq_algorithms = filter_map (\<lambda>v. Option.bind (as_integer v) try_i64) algs\<rparr>))))))))))))"

record get_assertion_request =
  gq_rp_id :: string
  gq_challenge :: bytes
  gq_credential_id :: bytes
  gq_sign :: sign_input

definition parse_get_assertion_request :: "externals \<Rightarrow> bytes \<Rightarrow> get_assertion_request wres" where
  "parse_get_assertion_request X command =
     (if list_head command \<noteq> Some CTAP2_GET_ASSERTION
      then Inl (Crypto ''not an authenticatorGetAssertion command'')
      else
       rbind (slice_or_panic 1 command) (\<lambda>body.
       rbind (read_cbor X ''invalid GetAssertion params CBOR: '' body) (\<lambda>params.
       rbind (crypto_err ''GetAssertion params is not a map'' (as_map params)) (\<lambda>m.
       rbind (crypto_err ''missing rpId'' (Option.bind (get_value_by_int m 1) as_text)) (\<lambda>rp_id.
       rbind (crypto_err ''missing challenge'' (get_bytes_by_int m 2)) (\<lambda>challenge.
       rbind (crypto_err ''missing allowList''
         (Option.bind (get_value_by_int m 3) as_array)) (\<lambda>allow_list.
       rbind (crypto_err ''empty allowList''
         (Option.bind (list_head allow_list) as_map)) (\<lambda>first.
       rbind (crypto_err ''missing allowList[0].id''
         (Option.bind (get_value_by_text first ''id'') as_cbytes)) (\<lambda>credential_id.
       rbind (crypto_err ''missing extensions''
         (Option.bind (get_value_by_int m 4) as_map)) (\<lambda>extensions.
       rbind (crypto_err ''missing previewSign extension''
         (Option.bind (get_value_by_text extensions ''previewSign'') as_map)) (\<lambda>preview_sign.
       rbind (crypto_err ''missing signByCredential keyHandle''
         (Option.bind (get_value_by_int preview_sign 2) as_cbytes)) (\<lambda>key_handle.
       rbind (crypto_err ''missing signByCredential tbs''
         (Option.bind (get_value_by_int preview_sign 6) as_cbytes)) (\<lambda>tbs.
         Inr \<lparr>gq_rp_id = rp_id, gq_challenge = challenge, gq_credential_id = credential_id,
              gq_sign = \<lparr>si_key_handle = key_handle, si_tbs = tbs,
                si_additional_args =
                  Option.bind (get_value_by_int preview_sign 7) as_cbytes\<rparr>\<rparr>)))))))))))))"

lemma make_credential_request_roundtrip:
  assumes "cbor_roundtrips X (make_credential_params rp uid cdh algs auth)"
    and "list_all is_i64 algs"
  shows "parse_make_credential_request X (build_make_credential_request X rp uid cdh algs auth) =
    Inr \<lparr>mq_rp_id = rp, mq_user_id = uid, mq_client_data_hash = cdh, mq_algorithms = algs\<rparr>"
proof -
  have algs: "filter_map (\<lambda>v. Option.bind (as_integer v) try_i64) (map CInteger algs) = algs"
    by (rule filter_map_map_Some) (use assms(2) in \<open>auto simp: list_all_iff\<close>)
  show ?thesis
    using assms(1)
    by (cases auth) (auto simp: parse_make_credential_request_def build_make_credential_request_def
      encode_command_def list_head_def make_credential_params_def Let_def
      build_generate_key_extension_def algs)
qed

lemma get_assertion_request_roundtrip:
  assumes "cbor_roundtrips X (get_assertion_params rp ch cid sign auth)"
  shows "parse_get_assertion_request X (build_get_assertion_request X rp ch cid sign auth) =
    Inr \<lparr>gq_rp_id = rp, gq_challenge = ch, gq_credential_id = cid, gq_sign = sign\<rparr>"
  using assms
  by (cases auth; cases "si_additional_args sign")
    (auto simp: parse_get_assertion_request_def build_get_assertion_request_def
      encode_command_def list_head_def get_assertion_params_def Let_def
      build_sign_by_credential_extension_def)

lemma no_panic_parse_requests:
  "no_panic (parse_make_credential_request X c)"
  "no_panic (parse_get_assertion_request X c)"
  by (auto simp: parse_make_credential_request_def parse_get_assertion_request_def list_head_def
      split: list.splits intro!: no_panic_rbind)

end
