(* ===== verification/Ctap_Response.thy ===== *)
theory Ctap_Response
  imports Ctap_Wire
begin

section \<open>previewSign responses: src/preview\_sign\_protocol.rs, second half\<close>

text \<open>
  Authenticator data and attestation objects: the encoders the browser transport uses and the
  parsers every transport's response goes through, down to the 16-bit credential length and the
  flag byte. The main facts are the round trips of both responses and the absence of panics in
  every parser, for any bytes and any CBOR decoder whose unread rest is a suffix of its input.
\<close>

subsection \<open>The credential length field\<close>

definition len_hi :: "16 word \<Rightarrow> byte" where
  "len_hi len = ucast (drop_bit 8 len)"

definition len_lo :: "16 word \<Rightarrow> byte" where
  "len_lo len = ucast (len AND 0xFF)"

text \<open>\<open>((hi as usize) << 8) | (lo as usize)\<close> on a 64-bit \<open>usize\<close>.\<close>

definition read_len :: "byte \<Rightarrow> byte \<Rightarrow> nat" where
  "read_len hi lo = unat ((push_bit 8 (ucast hi) :: 64 word) OR ucast lo)"

lemma unat_len_hi: "unat (len_hi len) = unat len div 256"
proof -
  have a: "unat len < 65536" using unsigned_less [of len] by simp
  have b: "unat (drop_bit 8 len) = unat len div 256"
    by (simp add: drop_bit_eq_div unat_div)
  then show ?thesis using a
    unfolding len_hi_def unsigned_ucast_eq take_bit_eq_mod b by auto
qed

lemma and_255: "(n::nat) AND 255 = n mod 256"
proof -
  have "(255::nat) = mask 8" by (simp add: mask_eq_exp_minus_1)
  then show ?thesis by (simp only: flip: take_bit_eq_mask) (simp add: take_bit_eq_mod)
qed

lemma unat_len_lo: "unat (len_lo len) = unat len mod 256"
proof -
  have "unat (len AND 0xFF) = unat len mod 256"
    unfolding unsigned_and_eq by (simp add: and_255)
  then show ?thesis unfolding len_lo_def unsigned_ucast_eq take_bit_eq_mod by simp
qed

lemma nat_or_disjoint:
  assumes "l < (256::nat)"
  shows "h * 256 OR l = h * 256 + l"
proof -
  have "\<not> bit l n" if "8 \<le> n" for n
  proof -
    have "take_bit 8 l = l" using assms by (simp add: take_bit_nat_eq_self_iff)
    then show ?thesis using that by (metis bit_take_bit_iff not_less)
  qed
  moreover have "\<not> bit (h * 256) n" if "n < 8" for n
    using that bit_push_bit_iff [of 8 h n] by (simp add: push_bit_eq_mult)
  ultimately have "h * 256 AND l = 0"
    by (intro bit_eqI) (auto simp: bit_and_iff, meson not_less)
  then show ?thesis by (simp add: disjunctive_add_eq_or)
qed

lemma read_len_eq: "read_len hi lo = unat hi * 256 + unat lo"
proof -
  have hi: "unat hi < 256" and lo: "unat lo < 256" using unsigned_less [of hi] unsigned_less [of lo] by simp_all
  have ul: "unat (ucast lo :: 64 word) = unat lo" and uh: "unat (ucast hi :: 64 word) = unat hi"
    using lo hi by (simp_all only: unsigned_ucast_eq take_bit_eq_mod) simp_all
  have "unat (push_bit 8 (ucast hi) :: 64 word) = unat hi * 256"
    using hi by (simp add: push_bit_eq_mult unat_word_ariths uh)
  then show ?thesis by (simp only: read_len_def unsigned_or_eq ul nat_or_disjoint [OF lo])
qed

lemma read_len_of_len: "n < 65536 \<Longrightarrow> read_len (len_hi (of_nat n)) (len_lo (of_nat n)) = n"
  by (simp add: read_len_eq unat_len_hi unat_len_lo unat_of_nat)

subsection \<open>Building authenticator data\<close>

definition build_attested_auth_data ::
  "externals \<Rightarrow> bytes \<Rightarrow> bytes \<Rightarrow> bytes \<Rightarrow> cbor option \<Rightarrow> bytes" where
  "build_attested_auth_data X aaguid cred_id cose_key_bytes signed_extensions =
     (let flags = (if signed_extensions \<noteq> None then 0x40 OR 0x80 else 0x40 :: byte);
          len = (of_nat (length cred_id) :: 16 word)
      in replicate 32 0 @ [flags] @ [0, 0, 0, 1] @ aaguid @ [len_hi len, len_lo len]
         @ cred_id @ cose_key_bytes
         @ (case signed_extensions of Some ext \<Rightarrow> cbor_enc X ext | None \<Rightarrow> []))"

definition build_unattested_auth_data :: "externals \<Rightarrow> cbor option \<Rightarrow> bytes" where
  "build_unattested_auth_data X signed_extensions =
     (let flags = (if signed_extensions \<noteq> None then 0x80 else 0x00 :: byte)
      in replicate 32 0 @ [flags] @ [0, 0, 0, 1]
         @ (case signed_extensions of Some ext \<Rightarrow> cbor_enc X ext | None \<Rightarrow> []))"

definition placeholder_cose_value :: cbor where
  "placeholder_cose_value =
     CMap [(CInteger 1, CInteger 2), (CInteger 3, CInteger (-7)), (CInteger (-1), CInteger 1),
           (CInteger (-2), CBytes (replicate 32 0)), (CInteger (-3), CBytes (replicate 32 0))]"

definition placeholder_cose_key :: "externals \<Rightarrow> bytes" where
  "placeholder_cose_key X = cbor_enc X placeholder_cose_value"

text \<open>The attestation object synthesised when the authenticator returned none.\<close>

definition synthetic_attestation :: "externals \<Rightarrow> preview_generated_key \<Rightarrow> cbor" where
  "synthetic_attestation X g =
     CMap [(CInteger 1, CText ''none''),
           (CInteger 2, CBytes (build_attested_auth_data X (replicate 16 0) (pg_key_handle g)
              (pg_public_key_cose g) None)),
           (CInteger 3, CMap [])]"

definition inner_attestation_bytes :: "externals \<Rightarrow> preview_generated_key \<Rightarrow> bytes" where
  "inner_attestation_bytes X g =
     (if pg_attestation_object g = [] then cbor_enc X (synthetic_attestation X g)
      else pg_attestation_object g)"

definition algorithm_extension :: "int \<Rightarrow> cbor" where
  "algorithm_extension alg =
     CMap [(CText ''previewSign'', CMap [(CInteger 3, CInteger alg)])]"

definition outer_attestation :: "externals \<Rightarrow> make_credential_result \<Rightarrow> cbor" where
  "outer_attestation X r =
     CMap [(CInteger 1, CText ''none''),
           (CInteger 2, CBytes (build_attested_auth_data X (replicate 16 0) (mr_credential_id r)
              (placeholder_cose_key X)
              (Some (algorithm_extension (pg_algorithm (mr_generated_key r)))))),
           (CInteger 3, CMap []),
           (CInteger 7, CBytes (inner_attestation_bytes X (mr_generated_key r)))]"

definition encode_make_credential_response :: "externals \<Rightarrow> make_credential_result \<Rightarrow> bytes" where
  "encode_make_credential_response X r = 0x00 # cbor_enc X (outer_attestation X r)"

definition assertion_extensions :: "sign_result \<Rightarrow> cbor" where
  "assertion_extensions r =
     CMap ((CText ''previewSign'', CMap [(CInteger 6, CBytes (sr_signature r))])
       # (case sr_verified_factor r of
            Some f \<Rightarrow> [(CText VERIFIED_FACTOR_EXTENSION_KEY,
               CMap [(CText ''category'', CText (category_as_str (af_category f))),
                     (CText ''method'', CText (af_method f))])]
          | None \<Rightarrow> []))"

definition assertion_auth_data :: "externals \<Rightarrow> sign_result \<Rightarrow> bytes" where
  "assertion_auth_data X r =
     (let d = build_unattested_auth_data X (Some (assertion_extensions r))
      in if sr_user_verified r then d[32 := d ! 32 OR AUTH_DATA_FLAG_UV] else d)"

definition encode_get_assertion_response :: "externals \<Rightarrow> sign_result \<Rightarrow> bytes" where
  "encode_get_assertion_response X r =
     0x00 # cbor_enc X (CMap [(CInteger 2, CBytes (assertion_auth_data X r))])"

subsection \<open>Parsing authenticator data\<close>

definition slice_range_or_panic :: "nat \<Rightarrow> nat \<Rightarrow> 'a list \<Rightarrow> 'a list wres" where
  "slice_range_or_panic i j xs = ok_or (RustPanic ''range out of bounds'') (slice_range i j xs)"

lemma slice_range_or_panic_ok [simp]:
  "i \<le> j \<Longrightarrow> j \<le> length xs \<Longrightarrow> slice_range_or_panic i j xs = Inr (take (j - i) (drop i xs))"
  by (simp add: slice_range_or_panic_def slice_range_def)

definition cose_algorithm :: "cbor \<Rightarrow> int option" where
  "cose_algorithm cose_key =
     Option.bind (as_map cose_key) (\<lambda>m.
     Option.bind (get_value_by_int m 3) (\<lambda>v. Option.bind (as_integer v) try_i64))"

definition parse_attested_credential_data ::
  "externals \<Rightarrow> bytes \<Rightarrow> (bytes \<times> bytes \<times> int option) wres" where
  "parse_attested_credential_data X auth_data =
     (if length auth_data < 37
      then Inl (Crypto (''authData too short: '' @ show_nat (length auth_data)))
      else rbind (idx 32 auth_data) (\<lambda>flags.
        if flags AND 0x40 = 0
        then Inl (Crypto ''authData does not contain attested credential data'')
        else
          (let offset = 37 + 16 in
           if length auth_data < offset + 2
           then Inl (Crypto ''authData truncated before credIdLen'')
           else rbind (idx offset auth_data) (\<lambda>hi. rbind (idx (offset + 1) auth_data) (\<lambda>lo.
             let cred_id_len = read_len hi lo; offset = offset + 2 in
             if length auth_data < offset + cred_id_len
             then Inl (Crypto ''authData truncated before credId'')
             else
               rbind (slice_range_or_panic offset (offset + cred_id_len) auth_data) (\<lambda>cred_id.
               rbind (slice_or_panic (offset + cred_id_len) auth_data) (\<lambda>cursor.
               rbind (map_err (\<lambda>e. Crypto (''invalid COSE key CBOR: '' @ e)) (cbor_dec X cursor))
                 (\<lambda>(cose_key, _).
                   Inr (cred_id, cbor_enc X cose_key, cose_algorithm cose_key)))))))))"

text \<open>The extensions map at \<open>offset\<close>; every failure after the slice is \<open>None\<close>.\<close>

definition signed_algorithm_at :: "externals \<Rightarrow> bytes \<Rightarrow> nat \<Rightarrow> int option wres" where
  "signed_algorithm_at X auth_data offset =
     rbind (slice_or_panic offset auth_data) (\<lambda>ext_bytes. Inr (
       Option.bind (res_ok (from_reader X ext_bytes)) (\<lambda>extensions.
       Option.bind (as_map extensions) (\<lambda>m.
       Option.bind (get_value_by_text m ''previewSign'') (\<lambda>ps.
       Option.bind (as_map ps) (\<lambda>ps_map.
       Option.bind (get_value_by_int ps_map 3) (\<lambda>v.
       Option.bind (as_integer v) try_i64)))))))"

definition extract_signed_previewsign_algorithm :: "externals \<Rightarrow> bytes \<Rightarrow> int option wres" where
  "extract_signed_previewsign_algorithm X auth_data =
     (if length auth_data \<le> 37 then Inr None
      else rbind (idx 32 auth_data) (\<lambda>flags.
        if flags AND 0x80 = 0 then Inr None
        else if flags AND 0x40 \<noteq> 0 then
          (let offset = 37 + 16 in
           if length auth_data < offset + 2 then Inr None
           else rbind (idx offset auth_data) (\<lambda>hi. rbind (idx (offset + 1) auth_data) (\<lambda>lo.
             let cred_id_len = read_len hi lo; offset = offset + (2 + cred_id_len) in
             if length auth_data \<le> offset then Inr None
             else rbind (slice_or_panic offset auth_data) (\<lambda>cursor.
               case cbor_dec X cursor of
                 Inl _ \<Rightarrow> Inr None
               | Inr (_, rest) \<Rightarrow>
                   if length cursor < length rest
                   then Inl (RustPanic ''attempt to subtract with overflow'')
                   else signed_algorithm_at X auth_data (offset + (length cursor - length rest))))))
        else signed_algorithm_at X auth_data 37))"

definition extract_previewsign_signature :: "externals \<Rightarrow> bytes \<Rightarrow> bytes wres" where
  "extract_previewsign_signature X authenticator_data =
     (let header_len = 32 + 1 + 4 in
      if length authenticator_data \<le> header_len
      then Inl (Crypto ''authenticatorData too short to contain extensions'')
      else rbind (idx 32 authenticator_data) (\<lambda>flags.
        if flags AND 0x40 \<noteq> 0
        then Inl (Crypto ''authenticatorData unexpectedly has AT flag set in an assertion response'')
        else if flags AND 0x80 = 0
        then Inl (Crypto ''authenticatorData has no extensions (ED flag not set)'')
        else
          rbind (slice_or_panic header_len authenticator_data) (\<lambda>ext_bytes.
          rbind (read_cbor X ''invalid authenticatorData extensions CBOR: '' ext_bytes) (\<lambda>value.
          rbind (crypto_err ''authenticatorData extensions is not a CBOR map'' (as_map value)) (\<lambda>m.
          rbind (crypto_err ''no previewSign extension in authenticatorData''
            (get_value_by_text m ''previewSign'')) (\<lambda>preview_sign.
          rbind (crypto_err ''previewSign extension output is not a CBOR map''
            (as_map preview_sign)) (\<lambda>inner_map.
          crypto_err ''previewSign extension missing signature (key 6)''
            (find_bytes_by_int inner_map 6))))))))"

definition extract_verified_factor_extension :: "externals \<Rightarrow> bytes \<Rightarrow> auth_factor option wres" where
  "extract_verified_factor_extension X auth_data =
     (if length auth_data \<le> 37 then Inr None
      else rbind (idx 32 auth_data) (\<lambda>flags.
        if flags AND 0x80 = 0 \<or> flags AND 0x40 \<noteq> 0 then Inr None
        else rbind (slice_or_panic 37 auth_data) (\<lambda>ext_bytes. Inr (
          Option.bind (res_ok (from_reader X ext_bytes)) (\<lambda>extensions.
          Option.bind (as_map extensions) (\<lambda>m.
          Option.bind (get_value_by_text m VERIFIED_FACTOR_EXTENSION_KEY) (\<lambda>e.
          Option.bind (as_map e) (\<lambda>entry.
          Option.bind (Option.bind (get_value_by_text entry ''category'') as_text) (\<lambda>category.
          Option.bind (Option.bind (get_value_by_text entry ''method'') as_text) (\<lambda>method.
            if category = ''knowledge'' then res_ok (auth_factor_new Knowledge method)
            else if category = ''inherence'' then res_ok (auth_factor_new Inherence method)
            else None))))))))))"

subsection \<open>Parsing the responses\<close>

definition generated_key_attestation_bytes :: "(cbor \<times> cbor) list \<Rightarrow> bytes option" where
  "generated_key_attestation_bytes att_obj_map =
     or_else
       (Option.bind (get_value_by_int att_obj_map 6) (\<lambda>v.
        Option.bind (as_map v) (\<lambda>m.
        Option.bind (get_value_by_text m ''previewSign'') (\<lambda>ps.
        Option.bind (as_map ps) (\<lambda>ps_map. get_bytes_by_int ps_map 7)))))
       (get_bytes_by_int att_obj_map 7)"

definition parse_make_credential_response :: "externals \<Rightarrow> bytes \<Rightarrow> make_credential_result wres" where
  "parse_make_credential_response X response =
     rbind (split_status response) (\<lambda>body.
     rbind (read_cbor X ''invalid attestation object CBOR: '' body) (\<lambda>att_obj.
     rbind (crypto_err ''attestation object is not a CBOR map'' (as_map att_obj)) (\<lambda>att_obj_map.
     rbind (crypto_err ''missing authData in attestation object''
       (get_bytes_by_int att_obj_map 2)) (\<lambda>auth_data.
     rbind (parse_attested_credential_data X auth_data) (\<lambda>(credential_id, _, _).
     rbind (crypto_err (''no previewSign generateKey result (checked unsignedExtensionOutputs' key 6 ''
         @ ''and the legacy flat key 7) - authenticator may not support the previewSign extension'')
       (generated_key_attestation_bytes att_obj_map)) (\<lambda>att_bytes.
     rbind (read_cbor X ''invalid generated-key attestation object CBOR: '' att_bytes) (\<lambda>gk_obj.
     rbind (crypto_err ''generated-key attestation object is not a map'' (as_map gk_obj)) (\<lambda>gk_map.
     rbind (crypto_err ''missing authData in generated-key attestation object''
       (get_bytes_by_int gk_map 2)) (\<lambda>gk_auth_data.
     rbind (parse_attested_credential_data X gk_auth_data) (\<lambda>(key_handle, public_key_cose, cose_alg).
     rbind (extract_signed_previewsign_algorithm X auth_data) (\<lambda>signed_alg.
       Inr \<lparr>mr_credential_id = credential_id, mr_generated_key =
         \<lparr>pg_key_handle = key_handle, pg_public_key_cose = public_key_cose,
          pg_algorithm = (case or_else signed_alg cose_alg of Some a \<Rightarrow> a | None \<Rightarrow> -7),
          pg_attestation_object = att_bytes\<rparr>\<rparr>)))))))))))"

definition parse_get_assertion_response :: "externals \<Rightarrow> bytes \<Rightarrow> sign_result wres" where
  "parse_get_assertion_response X response =
     rbind (split_status response) (\<lambda>body.
     rbind (read_cbor X ''invalid assertion response CBOR: '' body) (\<lambda>assert_obj.
     rbind (crypto_err ''assertion response is not a map'' (as_map assert_obj)) (\<lambda>m.
     rbind (crypto_err ''missing authData in assertion response'' (get_bytes_by_int m 2)) (\<lambda>auth_data.
     rbind (extract_previewsign_signature X auth_data) (\<lambda>signature.
     rbind (extract_verified_factor_extension X auth_data) (\<lambda>factor.
       Inr \<lparr>sr_signature = signature,
            sr_user_verified =
              (case list_at 32 auth_data of Some flags \<Rightarrow> flags AND AUTH_DATA_FLAG_UV \<noteq> 0 | None \<Rightarrow> False),
            sr_verified_factor = factor\<rparr>))))))"

subsection \<open>No input makes a parser panic\<close>

lemma no_panic_parse_attested: "no_panic (parse_attested_credential_data X d)"
  unfolding parse_attested_credential_data_def Let_def
  by (auto intro!: no_panic_rbind)

lemma no_panic_signed_algorithm_at: "offset \<le> length d \<Longrightarrow> no_panic (signed_algorithm_at X d offset)"
  by (auto simp: signed_algorithm_at_def)

lemma no_panic_extract_signed_algorithm:
  assumes "cbor_dec_suffix X"
  shows "no_panic (extract_signed_previewsign_algorithm X d)"
proof -
  have len: "length rest \<le> length bs" if "cbor_dec X bs = Inr (v, rest)" for bs v rest
    using assms that by (auto simp: cbor_dec_suffix_def)
  show ?thesis
    unfolding extract_signed_previewsign_algorithm_def Let_def
    by (auto intro!: no_panic_rbind no_panic_signed_algorithm_at split: sum.splits dest: len)
qed

lemma no_panic_extract_signature: "no_panic (extract_previewsign_signature X d)"
  unfolding extract_previewsign_signature_def Let_def by (auto intro!: no_panic_rbind)

lemma no_panic_extract_verified_factor: "no_panic (extract_verified_factor_extension X d)"
  unfolding extract_verified_factor_extension_def Let_def by auto

lemma no_panic_parse_make_credential_response:
  assumes "cbor_dec_suffix X"
  shows "no_panic (parse_make_credential_response X r)"
  unfolding parse_make_credential_response_def
  by (auto intro!: no_panic_rbind no_panic_parse_attested
      no_panic_extract_signed_algorithm [OF assms])

lemma no_panic_parse_get_assertion_response: "no_panic (parse_get_assertion_response X r)"
  unfolding parse_get_assertion_response_def
  by (auto intro!: no_panic_rbind no_panic_extract_signature no_panic_extract_verified_factor)

subsection \<open>Round trips of the responses\<close>

text \<open>The layout every attested authenticator data has, and where its fields are.\<close>

definition attested_layout :: "byte \<Rightarrow> bytes \<Rightarrow> byte \<Rightarrow> byte \<Rightarrow> bytes \<Rightarrow> bytes" where
  "attested_layout flags aaguid hi lo tail =
     replicate 32 0 @ [flags] @ [0, 0, 0, 1] @ aaguid @ [hi, lo] @ tail"

lemma attested_layout_fields:
  assumes "length aaguid = 16"
  shows "length (attested_layout f aaguid hi lo tail) = 55 + length tail"
    and "attested_layout f aaguid hi lo tail ! 32 = f"
    and "attested_layout f aaguid hi lo tail ! 53 = hi"
    and "attested_layout f aaguid hi lo tail ! 54 = lo"
    and "drop (55 + n) (attested_layout f aaguid hi lo tail) = drop n tail"
proof -
  let ?pre = "replicate 32 0 @ [f] @ [0, 0, 0, 1] @ aaguid"
  have l: "length ?pre = 53" using assms by simp
  have d: "attested_layout f aaguid hi lo tail = ?pre @ hi # lo # tail"
    by (simp add: attested_layout_def)
  show "length (attested_layout f aaguid hi lo tail) = 55 + length tail" using l d by simp
  show "attested_layout f aaguid hi lo tail ! 32 = f"
    by (simp add: attested_layout_def nth_append)
  show "attested_layout f aaguid hi lo tail ! 53 = hi" unfolding d using l by (simp add: nth_append)
  show "attested_layout f aaguid hi lo tail ! 54 = lo" unfolding d using l by (simp add: nth_append)
  have "length (?pre @ [hi, lo]) = 55" using l by simp
  then have "drop 55 ((?pre @ [hi, lo]) @ tail) = tail"
    by (metis append_eq_conv_conj)
  then have "drop 55 (attested_layout f aaguid hi lo tail) = tail" unfolding d by simp
  then show "drop (55 + n) (attested_layout f aaguid hi lo tail) = drop n tail"
    by (metis add.commute drop_drop)
qed

lemma build_attested_layout:
  "build_attested_auth_data X aaguid cid key ext =
     attested_layout (if ext \<noteq> None then 0x40 OR 0x80 else 0x40) aaguid
       (len_hi (of_nat (length cid))) (len_lo (of_nat (length cid)))
       (cid @ key @ (case ext of Some e \<Rightarrow> cbor_enc X e | None \<Rightarrow> []))"
  by (simp add: build_attested_auth_data_def attested_layout_def Let_def)

lemma parse_attested_layout:
  assumes "length aaguid = 16" and "f AND 0x40 \<noteq> 0" and "read_len hi lo = length cid"
    and "cbor_dec X tail = Inr (v, rest)"
  shows "parse_attested_credential_data X (attested_layout f aaguid hi lo (cid @ tail)) =
    Inr (cid, cbor_enc X v, cose_algorithm v)"
  using assms attested_layout_fields(5) [OF assms(1), of 0 f hi lo "cid @ tail"]
    attested_layout_fields(5) [OF assms(1), of "length cid" f hi lo "cid @ tail"]
  by (simp add: parse_attested_credential_data_def attested_layout_fields Let_def)

lemma parse_attested_build:
  assumes "length aaguid = 16" and "length cid < 65536" and "cbor_roundtrips X v"
  shows "parse_attested_credential_data X
      (build_attested_auth_data X aaguid cid (cbor_enc X v) ext) =
    Inr (cid, cbor_enc X v, cose_algorithm v)"
  unfolding build_attested_layout
  by (rule parse_attested_layout [OF assms(1) _ read_len_of_len [OF assms(2)]
        cbor_roundtripsD [OF assms(3)]]) simp

lemma cbor_enc_pair_nonempty:
  assumes "cbor_roundtrips X v" and "cbor_roundtrips X u" and "v \<noteq> u"
  shows "cbor_enc X u \<noteq> []"
  using assms cbor_roundtripsD [of X u "cbor_enc X v"] cbor_roundtripsD' [of X v]
  by fastforce

lemma signed_algorithm_build:
  assumes aag: "length aaguid = 16" and cid: "length cid < 65536" and alg: "is_i64 alg"
    and key: "cbor_roundtrips X v" and ext: "cbor_roundtrips X (algorithm_extension alg)"
    and neq: "v \<noteq> algorithm_extension alg"
  shows "extract_signed_previewsign_algorithm X
      (build_attested_auth_data X aaguid cid (cbor_enc X v) (Some (algorithm_extension alg))) =
    Inr (Some alg)"
proof -
  let ?e = "cbor_enc X (algorithm_extension alg)"
  let ?tail = "cid @ cbor_enc X v @ ?e"
  let ?hi = "len_hi (of_nat (length cid))" and ?lo = "len_lo (of_nat (length cid))"
  let ?d = "attested_layout (0x40 OR 0x80) aaguid ?hi ?lo ?tail"
  note f = attested_layout_fields [OF aag, where f = "0x40 OR 0x80" and hi = ?hi and lo = ?lo and tail = ?tail]
  have ne: "?e \<noteq> []" by (rule cbor_enc_pair_nonempty [OF key ext neq])
  have dec: "cbor_dec X (cbor_enc X v @ ?e) = Inr (v, ?e)" by (rule cbor_roundtripsD [OF key])
  have at: "signed_algorithm_at X ?d (55 + (length cid + length (cbor_enc X v))) = Inr (Some alg)"
    using f(1) f(5) [of "length cid + length (cbor_enc X v)"] alg
    by (simp add: signed_algorithm_at_def ext) (simp add: algorithm_extension_def)
  have "extract_signed_previewsign_algorithm X ?d = Inr (Some alg)"
    using f(1-4) f(5) [of "length cid"] ne dec at read_len_of_len [OF cid]
    by (simp add: extract_signed_previewsign_algorithm_def Let_def add.assoc)
  then show ?thesis by (simp add: build_attested_layout)
qed

text \<open>
  The response the browser transport encodes parses back to the credential and the generated
  key, whichever of the real or the synthetic attestation object it carries.
\<close>

lemma make_credential_response_roundtrip:
  assumes cid: "length (mr_credential_id r) < 65536"
    and alg: "is_i64 (pg_algorithm (mr_generated_key r))"
    and outer: "cbor_roundtrips X (outer_attestation X r)"
    and ph: "cbor_roundtrips X placeholder_cose_value"
    and ext: "cbor_roundtrips X (algorithm_extension (pg_algorithm (mr_generated_key r)))"
    and inner: "from_reader X (inner_attestation_bytes X (mr_generated_key r)) = Inr (CMap gm)"
    and ad: "get_bytes_by_int gm 2 = Some ad"
    and key: "parse_attested_credential_data X ad =
      Inr (pg_key_handle (mr_generated_key r), pg_public_key_cose (mr_generated_key r), a)"
  shows "parse_make_credential_response X (encode_make_credential_response X r) =
    Inr (r\<lparr>mr_generated_key := (mr_generated_key r)
      \<lparr>pg_attestation_object := inner_attestation_bytes X (mr_generated_key r)\<rparr>\<rparr>)"
proof -
  have neq: "placeholder_cose_value \<noteq> algorithm_extension al" for al
    by (simp add: placeholder_cose_value_def algorithm_extension_def)
  have outer_key: "parse_attested_credential_data X
      (build_attested_auth_data X (replicate 16 0) (mr_credential_id r) (placeholder_cose_key X) e)
    = Inr (mr_credential_id r, placeholder_cose_key X, cose_algorithm placeholder_cose_value)" for e
    unfolding placeholder_cose_key_def by (rule parse_attested_build [OF _ cid ph]) simp
  have outer_alg: "extract_signed_previewsign_algorithm X
      (build_attested_auth_data X (replicate 16 0) (mr_credential_id r) (placeholder_cose_key X)
        (Some (algorithm_extension (pg_algorithm (mr_generated_key r)))))
    = Inr (Some (pg_algorithm (mr_generated_key r)))"
    unfolding placeholder_cose_key_def
    by (rule signed_algorithm_build [OF _ cid alg ph ext neq]) simp
  have inner': "read_cbor X what (inner_attestation_bytes X (mr_generated_key r)) = Inr (CMap gm)"
    for what using inner by (simp add: read_cbor_def)
  have gk: "get_bytes_by_int (case outer_attestation X r of CMap m \<Rightarrow> m) 7 =
      Some (inner_attestation_bytes X (mr_generated_key r))"
    by (simp add: outer_attestation_def)
  have map: "as_map (outer_attestation X r) =
    Some (case outer_attestation X r of CMap m \<Rightarrow> m)" by (simp add: outer_attestation_def)
  show ?thesis
    unfolding parse_make_credential_response_def encode_make_credential_response_def
    using outer
    by (simp add: outer_attestation_def outer_key outer_alg generated_key_attestation_bytes_def
        inner' ad key)
qed

text \<open>A factor survives the round trip when it is one the parser accepts.\<close>

definition reported_factor :: "auth_factor option \<Rightarrow> auth_factor option" where
  "reported_factor f =
     (case f of Some g \<Rightarrow> if af_category g \<noteq> Possession \<and> in_vocabulary g then Some g else None
      | None \<Rightarrow> None)"

lemma assertion_auth_data_fields:
  shows "length (assertion_auth_data X r) = 37 + length (cbor_enc X (assertion_extensions r))"
    and "drop 37 (assertion_auth_data X r) = cbor_enc X (assertion_extensions r)"
    and "assertion_auth_data X r ! 32 = (if sr_user_verified r then 0x80 OR 0x04 else 0x80)"
proof -
  let ?e = "cbor_enc X (assertion_extensions r)"
  let ?fl = "if sr_user_verified r then 0x80 OR 0x04 else 0x80 :: byte"
  have d: "assertion_auth_data X r = (replicate 32 0 @ [?fl, 0, 0, 0, 1]) @ ?e"
    by (simp add: assertion_auth_data_def build_unattested_auth_data_def Let_def
        AUTH_DATA_FLAG_UV_def list_update_append nth_append)
  have l: "length (replicate 32 0 @ [?fl, 0, 0, 0, 1]) = 37" by simp
  show "length (assertion_auth_data X r) = 37 + length ?e" unfolding d by simp
  show "drop 37 (assertion_auth_data X r) = ?e" unfolding d using l by (metis append_eq_conv_conj)
  show "assertion_auth_data X r ! 32 = ?fl" unfolding d by (simp add: nth_append)
qed

lemma get_assertion_response_roundtrip:
  assumes ext: "cbor_roundtrips X (assertion_extensions r)"
    and obj: "cbor_roundtrips X (CMap [(CInteger 2, CBytes (assertion_auth_data X r))])"
    and ne: "cbor_enc X (assertion_extensions r) \<noteq> []"
  shows "parse_get_assertion_response X (encode_get_assertion_response X r) =
    Inr (r\<lparr>sr_verified_factor := reported_factor (sr_verified_factor r)\<rparr>)"
proof -
  let ?d = "assertion_auth_data X r"
  note f = assertion_auth_data_fields [of X r]
  have len: "37 < length ?d" using ne f(1) by simp
  have sig: "extract_previewsign_signature X ?d = Inr (sr_signature r)"
    using len f(2,3) ext
    by (simp add: extract_previewsign_signature_def Let_def)
       (simp add: assertion_extensions_def)
  have factor: "extract_verified_factor_extension X ?d =
      Inr (reported_factor (sr_verified_factor r))"
    using len f(2,3) ext
    apply (simp add: extract_verified_factor_extension_def)
    apply (cases "sr_verified_factor r")
     apply (simp_all add: assertion_extensions_def VERIFIED_FACTOR_EXTENSION_KEY_def reported_factor_def)
    apply (rename_tac g, case_tac "af_category g")
      apply (auto simp: auth_factor_new_def in_vocabulary_def simp del: category_methods.simps)
    done
  have uv: "(case list_at 32 ?d of Some flags \<Rightarrow> flags AND AUTH_DATA_FLAG_UV \<noteq> 0 | None \<Rightarrow> False)
      = sr_user_verified r"
    using len f(3) by (simp add: list_at_def AUTH_DATA_FLAG_UV_def)
  show ?thesis
    using obj by (simp add: parse_get_assertion_response_def encode_get_assertion_response_def
        sig factor uv)
qed

subsection \<open>Properties\<close>

text \<open>C24: no bytes make a parser of the previewSign protocol panic. Every index, slice and
  subtraction of the six parsers is in range whatever an authenticator or a page answers, for any
  CBOR decoder whose unread rest is no longer than its input.\<close>

theorem wire_parsers_never_panic:
  assumes "cbor_dec_suffix X"
  shows "no_panic (parse_make_credential_response X d) \<and> no_panic (parse_get_assertion_response X d) \<and>
    no_panic (parse_make_credential_request X d) \<and> no_panic (parse_get_assertion_request X d) \<and>
    no_panic (extract_signed_previewsign_algorithm X d) \<and>
    no_panic (extract_previewsign_signature X d)"
  by (simp_all add: no_panic_parse_make_credential_response no_panic_parse_get_assertion_response
      no_panic_parse_requests no_panic_extract_signed_algorithm no_panic_extract_signature assms)

theorem wire_parsers_never_panic_witness:
  "no_panic (parse_make_credential_response ref_externals (0 # replicate 40 0xFF))"
  using wire_parsers_never_panic [OF ref_cbor_suffix] by simp

definition example_result :: make_credential_result where
  "example_result = \<lparr>mr_credential_id = [7, 8], mr_generated_key =
     \<lparr>pg_key_handle = [9], pg_public_key_cose = cenc (CMap [(CInteger 1, CInteger 2)]),
      pg_algorithm = -65539, pg_attestation_object = []\<rparr>\<rparr>"

lemma example_result_simps [simp]:
  "mr_credential_id example_result = [7, 8]" "pg_key_handle (mr_generated_key example_result) = [9]"
  "pg_public_key_cose (mr_generated_key example_result) = cenc (CMap [(CInteger 1, CInteger 2)])"
  "pg_algorithm (mr_generated_key example_result) = -65539"
  "pg_attestation_object (mr_generated_key example_result) = []"
  by (simp_all add: example_result_def)

lemma small_bytes_ok: "length b < 2000 \<Longrightarrow> length b < (2::nat) ^ 64"
  by (rule less_trans, assumption) simp

lemma example_attestation_ok:
  "cbor_ok (synthetic_attestation ref_externals (mr_generated_key example_result))"
  "cbor_ok (outer_attestation ref_externals example_result)"
  by (simp_all add: synthetic_attestation_def outer_attestation_def inner_attestation_bytes_def
      build_attested_auth_data_def placeholder_cose_key_def placeholder_cose_value_def
      algorithm_extension_def enc_head_def Let_def)

end
