(* ===== verification/Client_Pin.thy ===== *)
theory Client_Pin
  imports Ctap_Response
begin

section \<open>PIN tokens: src/ctap2\_client\_pin.rs\<close>

text \<open>
  The \<open>authenticatorClientPIN\<close> exchange: reading what the authenticator says about its PIN,
  validating a new PIN before anything is sent, setting it, and trading a PIN for a token.
  \<open>acquire_pin_uv_auth_token\<close> is the entry point of both ceremonies.

  The random initialisation vector and the ephemeral key come from \<open>env\<close>; zeroizing is not
  modelled. Where the source calls \<open>expect\<close> the model returns \<open>RustPanic\<close>, and \<open>set_pin_fields\<close>
  has the \<open>RustPanic\<close> of its slice copy; the lemmas show that none of them is reached.
\<close>

definition CTAP2_GET_INFO :: byte where "CTAP2_GET_INFO = 0x04"
definition CTAP2_CLIENT_PIN :: byte where "CTAP2_CLIENT_PIN = 0x06"
definition SUBCMD_GET_PIN_RETRIES :: int where "SUBCMD_GET_PIN_RETRIES = 1"
definition SUBCMD_GET_KEY_AGREEMENT :: int where "SUBCMD_GET_KEY_AGREEMENT = 2"
definition SUBCMD_SET_PIN :: int where "SUBCMD_SET_PIN = 3"
definition SUBCMD_GET_PIN_TOKEN :: int where "SUBCMD_GET_PIN_TOKEN = 9"
definition PERMISSION_MAKE_CREDENTIAL :: byte where "PERMISSION_MAKE_CREDENTIAL = 0x01"
definition PERMISSION_GET_ASSERTION :: byte where "PERMISSION_GET_ASSERTION = 0x02"
definition PROTOCOL_ONE_ZERO_IV :: bytes where "PROTOCOL_ONE_ZERO_IV = replicate 16 0"
definition PROTOCOL_TWO_HKDF_SALT :: bytes where "PROTOCOL_TWO_HKDF_SALT = replicate 32 0"
definition DEFAULT_MIN_PIN_LENGTH :: nat where "DEFAULT_MIN_PIN_LENGTH = 4"
definition MAX_PIN_BYTES :: nat where "MAX_PIN_BYTES = 63"
definition PADDED_PIN_BYTES :: nat where "PADDED_PIN_BYTES = 64"

lemmas client_pin_consts = CTAP2_GET_INFO_def CTAP2_CLIENT_PIN_def SUBCMD_GET_PIN_RETRIES_def
  SUBCMD_GET_KEY_AGREEMENT_def SUBCMD_SET_PIN_def SUBCMD_GET_PIN_TOKEN_def
  PROTOCOL_ONE_ZERO_IV_def PROTOCOL_TWO_HKDF_SALT_def DEFAULT_MIN_PIN_LENGTH_def
  MAX_PIN_BYTES_def PADDED_PIN_BYTES_def

subsection \<open>Protocols and sessions\<close>

datatype pin_uv_auth_protocol = ProtoOne | ProtoTwo

fun protocol_as_int :: "pin_uv_auth_protocol \<Rightarrow> int" where
  "protocol_as_int ProtoOne = 1"
| "protocol_as_int ProtoTwo = 2"

definition protocol_from_int :: "int \<Rightarrow> pin_uv_auth_protocol option" where
  "protocol_from_int n = (if n = 1 then Some ProtoOne else if n = 2 then Some ProtoTwo else None)"

lemma protocol_from_as_int [simp]: "protocol_from_int (protocol_as_int p) = Some p"
  by (cases p) (simp_all add: protocol_from_int_def)

record pin_uv_auth_session =
  ses_protocol :: pin_uv_auth_protocol
  ses_token :: bytes

definition truncate_mac :: "pin_uv_auth_protocol \<Rightarrow> bytes \<Rightarrow> bytes" where
  "truncate_mac p full = (case p of ProtoOne \<Rightarrow> take 16 full | ProtoTwo \<Rightarrow> full)"

definition authenticate :: "externals \<Rightarrow> pin_uv_auth_session \<Rightarrow> bytes \<Rightarrow> bytes" where
  "authenticate X s message =
     truncate_mac (ses_protocol s) (hmac_sha256 X (ses_token s) message)"

definition protocol_int :: "pin_uv_auth_session \<Rightarrow> int" where
  "protocol_int s = protocol_as_int (ses_protocol s)"

subsection \<open>What the authenticator says about its PIN\<close>

datatype pin_state = PinSet | PinNotSet | PinUnsupported

definition pin_state_of :: "bool option \<Rightarrow> pin_state" where
  "pin_state_of b = (case b of Some True \<Rightarrow> PinSet | Some False \<Rightarrow> PinNotSet | None \<Rightarrow> PinUnsupported)"

record authenticator_pin_info =
  pi_protocol :: pin_uv_auth_protocol
  pi_pin_state :: pin_state
  pi_min_pin_length :: nat

definition parse_pin_info :: "externals \<Rightarrow> bytes \<Rightarrow> authenticator_pin_info wres" where
  "parse_pin_info X body =
     rbind (read_cbor X ''invalid getInfo CBOR: '' body) (\<lambda>info.
     rbind (crypto_err ''getInfo response is not a CBOR map'' (as_map info)) (\<lambda>m.
       let protocol =
             (case Option.bind (Option.bind (get_value_by_int m 6) as_array)
                     (find_map (\<lambda>v. Option.bind (as_integer v) protocol_from_int)) of
                Some p \<Rightarrow> p | None \<Rightarrow> ProtoOne);
           pin_state = pin_state_of
             (Option.bind (Option.bind (Option.bind (get_value_by_int m 4) as_map)
                (\<lambda>opts. get_value_by_text opts ''clientPin'')) as_bool);
           min_pin_length =
             (case Option.bind (Option.bind (get_value_by_int m 13) as_integer) try_u32 of
                Some n \<Rightarrow> n | None \<Rightarrow> DEFAULT_MIN_PIN_LENGTH)
       in Inr \<lparr>pi_protocol = protocol, pi_pin_state = pin_state, pi_min_pin_length = min_pin_length\<rparr>))"

definition read_pin_info :: "externals \<Rightarrow> 'w ctap2_transport \<Rightarrow> ('w, authenticator_pin_info) weff" where
  "read_pin_info X t =
     ebind (ctap2_send_command t [CTAP2_GET_INFO]) (\<lambda>response.
     ebind (elift (split_status response)) (\<lambda>body. elift (parse_pin_info X body)))"

text \<open>Like \<open>split_status\<close>, with the PIN statuses typed.\<close>

definition split_client_pin_status :: "bytes \<Rightarrow> bytes wres" where
  "split_client_pin_status response =
     (case list_head response of
        Some b \<Rightarrow>
          (if b = 0x31 then Inl (Pin PinInvalid)
           else if b = 0x32 then Inl (Pin PinBlocked)
           else if b = 0x34 then Inl (Pin AuthBlocked)
           else if b = 0x35 then Inl (Pin NotSet)
           else if b = 0x37 then Inl (Pin PolicyViolation)
           else split_status response)
      | None \<Rightarrow> split_status response)"

definition get_pin_retries ::
  "externals \<Rightarrow> 'w ctap2_transport \<Rightarrow> pin_uv_auth_protocol \<Rightarrow> ('w, nat) weff" where
  "get_pin_retries X t protocol =
     ebind (ctap2_send_command t (encode_command X CTAP2_CLIENT_PIN
       (CMap [(CInteger 1, CInteger (protocol_as_int protocol)),
              (CInteger 2, CInteger SUBCMD_GET_PIN_RETRIES)]))) (\<lambda>response.
     ebind (elift (split_client_pin_status response)) (\<lambda>body.
     ebind (elift (read_cbor X ''invalid getPinRetries CBOR: '' body)) (\<lambda>v.
       elift (crypto_err ''getPinRetries response missing pinRetries (key 3)''
         (Option.bind (Option.bind (Option.bind (as_map v) (\<lambda>m. get_value_by_int m 3))
            as_integer) try_u32)))))"

subsection \<open>Validating a new PIN\<close>

text \<open>The result is the normalised text as Unicode scalars; its bytes are \<open>utf8_encode\<close>.\<close>

definition validate_new_pin :: "externals \<Rightarrow> bytes \<Rightarrow> nat \<Rightarrow> nat list wres" where
  "validate_new_pin X pin min_length =
     rbind (ok_or (Pin InvalidEncoding) (utf8_decode pin)) (\<lambda>text.
       let normalized = nfc X text in
       if 0 \<in> set normalized then Inl (Pin InvalidEncoding)
       else if length (utf8_encode normalized) > MAX_PIN_BYTES then Inl (Pin TooLong)
       else if length normalized < min_length then Inl (Pin (TooShort min_length))
       else Inr normalized)"

subsection \<open>Keys\<close>

definition ec2_sec1 :: "bytes \<Rightarrow> bytes \<Rightarrow> bytes" where
  "ec2_sec1 x y = 0x04 # x @ y"

definition decode_cose_ec2_point :: "externals \<Rightarrow> cbor \<Rightarrow> p256_point wres" where
  "decode_cose_ec2_point X value =
     rbind (crypto_err ''COSE key is not a CBOR map'' (as_map value)) (\<lambda>m.
     rbind (crypto_err ''COSE key missing x'' (find_bytes_by_int m (-2))) (\<lambda>x.
     rbind (crypto_err ''COSE key missing y'' (find_bytes_by_int m (-3))) (\<lambda>y.
       if length x \<noteq> 32 \<or> length y \<noteq> 32
       then Inl (Crypto ''COSE key x/y must be 32 bytes each for P-256'')
       else map_err (\<lambda>e. Crypto (''invalid P-256 point: '' @ e))
              (p256_from_sec1 X (ec2_sec1 x y)))))"

definition encode_platform_cose_key :: "p256_point \<Rightarrow> cbor" where
  "encode_platform_cose_key p =
     CMap [(CInteger 1, CInteger 2), (CInteger 3, CInteger (-25)), (CInteger (-1), CInteger 1),
           (CInteger (-2), CBytes (pt_x p)), (CInteger (-3), CBytes (pt_y p))]"

definition get_key_agreement ::
  "externals \<Rightarrow> 'w ctap2_transport \<Rightarrow> pin_uv_auth_protocol \<Rightarrow> ('w, p256_point) weff" where
  "get_key_agreement X t protocol =
     ebind (ctap2_send_command t (encode_command X CTAP2_CLIENT_PIN
       (CMap [(CInteger 1, CInteger (protocol_as_int protocol)),
              (CInteger 2, CInteger SUBCMD_GET_KEY_AGREEMENT)]))) (\<lambda>response.
     ebind (elift (split_client_pin_status response)) (\<lambda>body.
     ebind (elift (read_cbor X ''invalid getKeyAgreement CBOR: '' body)) (\<lambda>v.
     ebind (elift (crypto_err ''getKeyAgreement response is not a CBOR map'' (as_map v))) (\<lambda>m.
     ebind (elift (crypto_err ''getKeyAgreement response missing key agreement key (key 1)''
       (get_value_by_int m 1))) (\<lambda>cose_key. elift (decode_cose_ec2_point X cose_key))))))"

definition ecdh_shared_x :: "externals \<Rightarrow> bytes \<Rightarrow> p256_point \<Rightarrow> bytes wres" where
  "ecdh_shared_x X secret peer =
     (let z = p256_ecdh X secret peer in
      if length z \<noteq> 32 then Inl (Crypto ''ECDH shared secret is not 32 bytes'') else Inr z)"

definition derive_key :: "externals \<Rightarrow> string \<Rightarrow> pin_uv_auth_protocol \<Rightarrow> bytes \<Rightarrow> bytes wres" where
  "derive_key X info protocol shared_x =
     (case protocol of
        ProtoOne \<Rightarrow> Inr (sha256 X shared_x)
      | ProtoTwo \<Rightarrow> map_err (\<lambda>e. RustPanic ''32 bytes is a valid HKDF-SHA256 output length'')
          (hkdf_sha256 X PROTOCOL_TWO_HKDF_SALT shared_x (as_bytes info) 32))"

definition derive_aes_key :: "externals \<Rightarrow> pin_uv_auth_protocol \<Rightarrow> bytes \<Rightarrow> bytes wres" where
  "derive_aes_key X = derive_key X ''CTAP2 AES key''"

definition derive_hmac_key :: "externals \<Rightarrow> pin_uv_auth_protocol \<Rightarrow> bytes \<Rightarrow> bytes wres" where
  "derive_hmac_key X = derive_key X ''CTAP2 HMAC key''"

subsection \<open>Encryption\<close>

definition cbc_encrypt :: "externals \<Rightarrow> bytes \<Rightarrow> bytes \<Rightarrow> bytes \<Rightarrow> bytes wres" where
  "cbc_encrypt X key iv data =
     map_err (\<lambda>e. RustPanic ''plaintext here is always a multiple of the AES block size'')
       (aes256_cbc_enc X key iv data)"

definition with_iv :: "pin_uv_auth_protocol \<Rightarrow> bytes \<Rightarrow> bytes \<Rightarrow> bytes" where
  "with_iv protocol iv buf = (case protocol of ProtoOne \<Rightarrow> buf | ProtoTwo \<Rightarrow> iv @ buf)"

definition pick_iv :: "'w env \<Rightarrow> pin_uv_auth_protocol \<Rightarrow> ('w, bytes) weff" where
  "pick_iv env protocol =
     (case protocol of ProtoOne \<Rightarrow> ereturn PROTOCOL_ONE_ZERO_IV | ProtoTwo \<Rightarrow> rand_fill env 16)"

definition encrypt ::
  "externals \<Rightarrow> 'w env \<Rightarrow> pin_uv_auth_protocol \<Rightarrow> bytes \<Rightarrow> bytes \<Rightarrow> ('w, bytes) weff" where
  "encrypt X env protocol key plaintext =
     ebind (pick_iv env protocol) (\<lambda>iv.
     ebind (elift (cbc_encrypt X key iv plaintext)) (\<lambda>buf.
       ereturn (with_iv protocol iv buf)))"

definition decrypt :: "externals \<Rightarrow> pin_uv_auth_protocol \<Rightarrow> bytes \<Rightarrow> bytes \<Rightarrow> bytes wres" where
  "decrypt X protocol key ciphertext =
     rbind (case protocol of
              ProtoOne \<Rightarrow> Inr (PROTOCOL_ONE_ZERO_IV, ciphertext)
            | ProtoTwo \<Rightarrow>
                if length ciphertext < 16
                then Inl (Crypto ''protocol 2 ciphertext shorter than one IV'')
                else Inr (take 16 ciphertext, drop 16 ciphertext)) (\<lambda>(iv, ct).
       if length key \<noteq> 32 \<or> length iv \<noteq> 16
       then Inl (Crypto ''invalid AES key/IV: Invalid Length'')
       else map_err (\<lambda>e. Crypto (''AES-CBC decrypt failed: '' @ e)) (aes256_cbc_dec X key iv ct))"

subsection \<open>Setting a PIN\<close>

definition set_pin_fields ::
  "externals \<Rightarrow> pin_uv_auth_protocol \<Rightarrow> bytes \<Rightarrow> bytes \<Rightarrow> bytes \<Rightarrow> (bytes \<times> bytes) wres" where
  "set_pin_fields X protocol shared_x pin iv0 =
     (let iv = (case protocol of ProtoOne \<Rightarrow> PROTOCOL_ONE_ZERO_IV | ProtoTwo \<Rightarrow> iv0) in
      if length pin > PADDED_PIN_BYTES
      then Inl (RustPanic ''range end index out of range for slice of length 64'')
      else
        (let padded = pin @ replicate (PADDED_PIN_BYTES - length pin) 0 in
         rbind (derive_aes_key X protocol shared_x) (\<lambda>aes_key.
         rbind (derive_hmac_key X protocol shared_x) (\<lambda>hmac_key.
         rbind (cbc_encrypt X aes_key iv padded) (\<lambda>buf.
           let new_pin_enc = with_iv protocol iv buf
           in Inr (new_pin_enc, truncate_mac protocol (hmac_sha256 X hmac_key new_pin_enc)))))))"

definition set_pin_params :: "pin_uv_auth_protocol \<Rightarrow> p256_point \<Rightarrow> bytes \<Rightarrow> bytes \<Rightarrow> cbor" where
  "set_pin_params protocol platform_public new_pin_enc param =
     CMap [(CInteger 1, CInteger (protocol_as_int protocol)),
           (CInteger 2, CInteger SUBCMD_SET_PIN),
           (CInteger 3, encode_platform_cose_key platform_public),
           (CInteger 4, CBytes param), (CInteger 5, CBytes new_pin_enc)]"

definition set_pin ::
  "externals \<Rightarrow> 'w env \<Rightarrow> 'w ctap2_transport \<Rightarrow> pin_uv_auth_protocol \<Rightarrow> bytes \<Rightarrow> ('w, unit) weff" where
  "set_pin X env t protocol pin =
     ebind (generate_secret env) (\<lambda>platform_secret.
     ebind (get_key_agreement X t protocol) (\<lambda>peer_public.
     ebind (elift (ecdh_shared_x X platform_secret peer_public)) (\<lambda>shared_x.
     ebind (rand_fill env 16) (\<lambda>iv.
     ebind (elift (set_pin_fields X protocol shared_x pin iv)) (\<lambda>(new_pin_enc, param).
     ebind (ctap2_send_command t (encode_command X CTAP2_CLIENT_PIN
       (set_pin_params protocol (p256_public X platform_secret) new_pin_enc param))) (\<lambda>response.
     ebind (elift (split_client_pin_status response)) (\<lambda>_. ereturn ())))))))"

subsection \<open>Trading a PIN for a token\<close>

definition get_pin_token_params ::
  "pin_uv_auth_protocol \<Rightarrow> p256_point \<Rightarrow> bytes \<Rightarrow> byte \<Rightarrow> string option \<Rightarrow> cbor" where
  "get_pin_token_params protocol platform_public pin_hash_enc permissions rp_id =
     CMap ([(CInteger 1, CInteger (protocol_as_int protocol)),
            (CInteger 2, CInteger SUBCMD_GET_PIN_TOKEN),
            (CInteger 3, encode_platform_cose_key platform_public),
            (CInteger 6, CBytes pin_hash_enc), (CInteger 9, CInteger (uint permissions))]
           @ (case rp_id of Some rp \<Rightarrow> [(CInteger 10, CText rp)] | None \<Rightarrow> []))"

definition send_get_pin_token ::
  "externals \<Rightarrow> 'w ctap2_transport \<Rightarrow> pin_uv_auth_protocol \<Rightarrow> p256_point \<Rightarrow> bytes \<Rightarrow> byte
   \<Rightarrow> string option \<Rightarrow> ('w, bytes) weff" where
  "send_get_pin_token X t protocol platform_public pin_hash_enc permissions rp_id =
     ebind (ctap2_send_command t (encode_command X CTAP2_CLIENT_PIN
       (get_pin_token_params protocol platform_public pin_hash_enc permissions rp_id))) (\<lambda>response.
     ebind (elift (split_client_pin_status response)) (\<lambda>body.
     ebind (elift (read_cbor X ''invalid getPinUvAuthToken CBOR: '' body)) (\<lambda>v.
     ebind (elift (crypto_err ''getPinUvAuthToken response is not a CBOR map'' (as_map v))) (\<lambda>m.
       elift (crypto_err ''getPinUvAuthToken response missing pinUvAuthToken (key 2)''
         (get_bytes_by_int m 2))))))"

definition token_with_pin ::
  "externals \<Rightarrow> 'w env \<Rightarrow> 'w ctap2_transport \<Rightarrow> pin_uv_auth_protocol \<Rightarrow> bytes \<Rightarrow> byte
   \<Rightarrow> string option \<Rightarrow> ('w, pin_uv_auth_session) weff" where
  "token_with_pin X env t protocol pin permissions rp_id =
     ebind (generate_secret env) (\<lambda>platform_secret.
     ebind (get_key_agreement X t protocol) (\<lambda>peer_public.
     ebind (elift (ecdh_shared_x X platform_secret peer_public)) (\<lambda>shared_x.
     ebind (elift (derive_aes_key X protocol shared_x)) (\<lambda>aes_key.
     ebind (encrypt X env protocol aes_key (take 16 (sha256 X pin))) (\<lambda>pin_hash_enc.
     ebind (send_get_pin_token X t protocol (p256_public X platform_secret) pin_hash_enc
       permissions rp_id) (\<lambda>enc.
     ebind (elift (decrypt X protocol aes_key enc)) (\<lambda>token.
       ereturn \<lparr>ses_protocol = protocol, ses_token = token\<rparr>)))))))"

definition get_pin_uv_auth_token ::
  "externals \<Rightarrow> 'w env \<Rightarrow> 'w ctap2_transport \<Rightarrow> bytes \<Rightarrow> byte \<Rightarrow> string option
   \<Rightarrow> ('w, pin_uv_auth_session) weff" where
  "get_pin_uv_auth_token X env t pin permissions rp_id =
     ebind (read_pin_info X t) (\<lambda>info.
       token_with_pin X env t (pi_protocol info) pin permissions rp_id)"

definition acquire_pin_uv_auth_token ::
  "externals \<Rightarrow> 'w env \<Rightarrow> 'w ctap2_transport \<Rightarrow> 'w auth_callback \<Rightarrow> string \<Rightarrow> byte
   \<Rightarrow> string option \<Rightarrow> ('w, pin_uv_auth_session) weff" where
  "acquire_pin_uv_auth_token X env t auth plugin_id permissions rp_id =
     ebind (read_pin_info X t) (\<lambda>info.
       if pi_pin_state info = PinNotSet then
         ebind (request_pin_for auth plugin_id (SetNewPin (pi_min_pin_length info))) (\<lambda>raw.
         ebind (elift (validate_new_pin X raw (pi_min_pin_length info))) (\<lambda>text.
           let pin = utf8_encode text in
           ebind (set_pin X env t (pi_protocol info) pin) (\<lambda>_.
             token_with_pin X env t (pi_protocol info) pin permissions rp_id)))
       else
         ebind (request_pin_for auth plugin_id EnterPin) (\<lambda>raw.
           let pin = normalize_pin X raw in
           if 0 \<in> set pin then ethrow (Pin InvalidEncoding)
           else token_with_pin X env t (pi_protocol info) pin permissions rp_id))"

subsection \<open>Keys and encryption\<close>

lemma derive_key_ok: "symmetric_ok X \<Longrightarrow> \<exists>k. derive_key X info p z = Inr k \<and> length k = 32"
  using symmetric_okD(3) [of X 32 PROTOCOL_TWO_HKDF_SALT z "as_bytes info"]
  by (cases p) (auto simp: derive_key_def symmetric_okD)

lemma cbc_encrypt_ok:
  assumes "symmetric_ok X" and "length key = 32" and "length iv = 16" and "16 dvd length d"
  shows "\<exists>c. cbc_encrypt X key iv d = Inr c \<and> length c = length d \<and> aes256_cbc_dec X key iv c = Inr d"
  using symmetric_okD(4) [OF assms] by (auto simp: cbc_encrypt_def)

lemma decrypt_with_iv:
  assumes "length key = 32" and "length iv = 16" and "aes256_cbc_dec X key iv c = Inr d"
    and "p = ProtoOne \<Longrightarrow> iv = PROTOCOL_ONE_ZERO_IV"
  shows "decrypt X p key (with_iv p iv c) = Inr d"
  using assms by (cases p) (simp_all add: decrypt_def with_iv_def PROTOCOL_ONE_ZERO_IV_def)

lemma pick_iv_ok:
  "env_fills env \<Longrightarrow> pick_iv env p w = (Inr iv, w') \<Longrightarrow>
     length iv = 16 \<and> (p = ProtoOne \<longrightarrow> iv = PROTOCOL_ONE_ZERO_IV)"
  by (cases p) (auto simp: pick_iv_def PROTOCOL_ONE_ZERO_IV_def env_fills_def eff_elims)

lemma pick_iv_total: "\<exists>iv w'. pick_iv env p w = (Inr iv, w')"
  by (cases p) (auto simp: pick_iv_def rand_fill_def etotal_apply)

text \<open>Encryption succeeds on whole blocks and decryption with the same key undoes it.\<close>

lemma encrypt_then_decrypt:
  assumes X: "symmetric_ok X" and env: "env_fills env" and key: "length key = 32"
    and d: "16 dvd length d"
  shows "\<exists>c w'. encrypt X env p key d w = (Inr c, w') \<and> decrypt X p key c = Inr d"
proof -
  obtain iv w' where iv: "pick_iv env p w = (Inr iv, w')"
    using pick_iv_total [of env p w] by auto
  have l: "length iv = 16" "p = ProtoOne \<longrightarrow> iv = PROTOCOL_ONE_ZERO_IV" using pick_iv_ok [OF env iv] by auto
  obtain c where c: "cbc_encrypt X key iv d = Inr c" "aes256_cbc_dec X key iv c = Inr d"
    using cbc_encrypt_ok [OF X key l(1) d] by blast
  have "encrypt X env p key d w = (Inr (with_iv p iv c), w')"
    using iv c by (simp add: encrypt_def ebind_Inr)
  moreover have "decrypt X p key (with_iv p iv c) = Inr d"
    by (rule decrypt_with_iv [OF key l(1) c(2)]) (use l(2) in blast)
  ultimately show ?thesis by blast
qed

lemma no_panic_decrypt [simp]: "no_panic (decrypt X p key c)"
  by (cases p) (auto simp: decrypt_def intro!: no_panic_rbind)

lemma platform_cose_key_roundtrip:
  assumes "length (pt_x p) = 32" and "length (pt_y p) = 32"
    and "p256_from_sec1 X (ec2_sec1 (pt_x p) (pt_y p)) = Inr p"
  shows "decode_cose_ec2_point X (encode_platform_cose_key p) = Inr p"
  using assms by (simp add: decode_cose_ec2_point_def encode_platform_cose_key_def)

subsection \<open>A validated PIN\<close>

lemma validate_new_pin_ok:
  "validate_new_pin X raw n = Inr text \<longleftrightarrow>
     (\<exists>cs. utf8_decode raw = Some cs \<and> text = nfc X cs \<and> 0 \<notin> set text \<and>
        length (utf8_encode text) \<le> MAX_PIN_BYTES \<and> n \<le> length text)"
  by (cases "utf8_decode raw") (auto simp: validate_new_pin_def Let_def)

lemma validate_new_pin_error:
  "validate_new_pin X raw n = Inl e \<Longrightarrow> e \<in> {Pin InvalidEncoding, Pin TooLong, Pin (TooShort n)}"
  by (auto simp: validate_new_pin_def rbind_eq_Inl Let_def split: if_splits)

lemma takeWhile_padded:
  "0 \<notin> set pin \<Longrightarrow> takeWhile (\<lambda>b. b \<noteq> 0) (pin @ replicate n (0::byte)) = pin"
  by (induction pin) (auto simp: takeWhile_replicate)

text \<open>The fields of \<open>setPIN\<close> with the sizes the authenticator checks.\<close>

lemma set_pin_fields_sizes:
  assumes X: "symmetric_ok X" and iv: "length iv = 16" and len: "length pin \<le> 64"
  obtains enc param ak hk where
    "set_pin_fields X p z pin iv = Inr (enc, param)"
    "derive_aes_key X p z = Inr ak" "derive_hmac_key X p z = Inr hk"
    "decrypt X p ak enc = Inr (pin @ replicate (64 - length pin) 0)" "length enc \<le> 80"
    "param = truncate_mac p (hmac_sha256 X hk enc)"
proof -
  let ?iv = "case p of ProtoOne \<Rightarrow> PROTOCOL_ONE_ZERO_IV | ProtoTwo \<Rightarrow> iv"
  let ?padded = "pin @ replicate (64 - length pin) 0"
  have l: "length ?iv = 16" using iv by (cases p) (simp_all add: PROTOCOL_ONE_ZERO_IV_def)
  obtain ak where ak: "derive_aes_key X p z = Inr ak" "length ak = 32"
    using derive_key_ok [OF X] unfolding derive_aes_key_def by blast
  obtain hk where hk: "derive_hmac_key X p z = Inr hk"
    using derive_key_ok [OF X] unfolding derive_hmac_key_def by blast
  have lp: "length ?padded = 64" using len by simp
  obtain c where c: "cbc_encrypt X ak ?iv ?padded = Inr c" "length c = 64"
    "aes256_cbc_dec X ak ?iv c = Inr ?padded"
    using cbc_encrypt_ok [OF X ak(2) l, of ?padded] lp by auto
  show thesis
  proof (rule that [OF _ ak(1) hk])
    show "set_pin_fields X p z pin iv =
        Inr (with_iv p ?iv c, truncate_mac p (hmac_sha256 X hk (with_iv p ?iv c)))"
      using len ak(1) hk c(1) by (simp add: set_pin_fields_def Let_def PADDED_PIN_BYTES_def)
    show "decrypt X p ak (with_iv p ?iv c) = Inr ?padded"
      by (rule decrypt_with_iv [OF ak(2) l c(3)]) simp
    show "length (with_iv p ?iv c) \<le> 80" using c(2) l by (cases p) (simp_all add: with_iv_def)
  qed simp
qed

text \<open>
  What the authenticator sees of a PIN being set: it decrypts to 64 bytes that are the PIN and
  zeros, so reading up to the first zero gives the PIN back, and the parameter is the MAC of the
  cipher text.
\<close>

lemma set_pin_fields_correct:
  assumes X: "symmetric_ok X" and iv: "length iv = 16" and len: "length pin \<le> 64"
    and nul: "0 \<notin> set pin"
  shows "\<exists>enc param aes_key hmac_key padded.
    set_pin_fields X p z pin iv = Inr (enc, param) \<and>
    derive_aes_key X p z = Inr aes_key \<and> derive_hmac_key X p z = Inr hmac_key \<and>
    decrypt X p aes_key enc = Inr padded \<and> length padded = 64 \<and>
    takeWhile (\<lambda>b. b \<noteq> 0) padded = pin \<and>
    param = truncate_mac p (hmac_sha256 X hmac_key enc)"
proof -
  obtain enc param ak hk where "set_pin_fields X p z pin iv = Inr (enc, param)"
    "derive_aes_key X p z = Inr ak" "derive_hmac_key X p z = Inr hk"
    "decrypt X p ak enc = Inr (pin @ replicate (64 - length pin) 0)"
    "param = truncate_mac p (hmac_sha256 X hk enc)"
    by (rule set_pin_fields_sizes [OF X iv len])
  then show ?thesis using takeWhile_padded [OF nul] len by fastforce
qed

subsection \<open>No run panics\<close>

definition calm_transport :: "'w ctap2_transport \<Rightarrow> bool" where
  "calm_transport t \<longleftrightarrow> (\<forall>c. never_panics (ctap2_send_command t c))"

definition calm_auth :: "'w auth_callback \<Rightarrow> bool" where
  "calm_auth a \<longleftrightarrow> (\<forall>p k. never_panics (request_pin a p) \<and> never_panics (request_pin_for a p k)) \<and>
     (\<forall>p c r i. never_panics (request_webauthn_assertion a p c r i))"

lemma calm_send [simp, intro]: "calm_transport t \<Longrightarrow> never_panics (ctap2_send_command t c)"
  by (simp add: calm_transport_def)

lemma no_panic_split_client_pin_status [simp]: "no_panic (split_client_pin_status r)"
  by (auto simp: split_client_pin_status_def split: option.splits)

lemma no_panic_decode_cose_ec2_point [simp]: "no_panic (decode_cose_ec2_point X v)"
  by (auto simp: decode_cose_ec2_point_def intro!: no_panic_rbind)

lemma no_panic_parse_pin_info [simp]: "no_panic (parse_pin_info X b)"
  by (auto simp: parse_pin_info_def Let_def intro!: no_panic_rbind)

lemma no_panic_ecdh [simp]: "no_panic (ecdh_shared_x X s p)"
  by (simp add: ecdh_shared_x_def Let_def)

lemma no_panic_validate_new_pin [simp]: "no_panic (validate_new_pin X raw n)"
  by (auto simp: validate_new_pin_def Let_def intro!: no_panic_rbind)

lemma calm_read_pin_info: "calm_transport t \<Longrightarrow> never_panics (read_pin_info X t)"
  by (auto simp: read_pin_info_def intro!: never_panics_ebind)

lemma calm_get_pin_retries: "calm_transport t \<Longrightarrow> never_panics (get_pin_retries X t p)"
  by (auto simp: get_pin_retries_def intro!: never_panics_ebind)

lemma calm_get_key_agreement: "calm_transport t \<Longrightarrow> never_panics (get_key_agreement X t p)"
  by (auto simp: get_key_agreement_def intro!: never_panics_ebind)

lemma calm_send_get_pin_token:
  "calm_transport t \<Longrightarrow> never_panics (send_get_pin_token X t p pub h perm rp)"
  by (auto simp: send_get_pin_token_def intro!: never_panics_ebind)

lemma calm_encrypt:
  assumes "symmetric_ok X" and "env_fills env" and "length key = 32" and "16 dvd length d"
  shows "never_panics (encrypt X env p key d)"
  using encrypt_then_decrypt [OF assms] unfolding never_panics_def
  by (metis fst_conv no_panic_simps(1))

lemma calm_token_with_pin:
  assumes "symmetric_ok X" and "env_fills env" and "calm_transport t"
  shows "never_panics (token_with_pin X env t p pin perm rp)"
proof -
  have key: "length k = 32" if "derive_aes_key X p z = Inr k" for z k
    using that derive_key_ok [OF assms(1)] unfolding derive_aes_key_def by (metis Inr_inject)
  have np: "no_panic (derive_aes_key X p z)" for z
    using derive_key_ok [OF assms(1)] unfolding derive_aes_key_def by (metis no_panic_simps(1))
  have enc: "never_panics (encrypt X env p k (take 16 (sha256 X pin)))" if "length k = 32" for k
    by (rule calm_encrypt [OF assms(1,2) that]) (simp add: symmetric_okD [OF assms(1)])
  show ?thesis
    unfolding token_with_pin_def
    by (auto intro!: never_panics_ebind_strong calm_get_key_agreement calm_send_get_pin_token enc key
        simp: assms np)
qed

lemma calm_set_pin:
  assumes X: "symmetric_ok X" and env: "env_fills env" and t: "calm_transport t"
    and pin: "length pin \<le> 64" "0 \<notin> set pin"
  shows "never_panics (set_pin X env t p pin)"
proof -
  have np: "no_panic (set_pin_fields X p z pin iv)" if "length iv = 16" for z iv
    using set_pin_fields_correct [OF X that pin] by (metis no_panic_simps(1))
  have iv: "length iv = 16" if "rand_fill env 16 w = (Inr iv, w')" for iv w w'
    using that env by (auto simp: rand_fill_eq env_fills_def)
  show ?thesis
    unfolding set_pin_def
    by (auto intro!: never_panics_ebind_strong calm_get_key_agreement np iv simp: t
        split: prod.splits)
qed

definition nfc_scalars :: "externals \<Rightarrow> bool" where
  "nfc_scalars X \<longleftrightarrow> (\<forall>cs. list_all is_scalar cs \<longrightarrow> list_all is_scalar (nfc X cs))"

lemma validated_pin_bytes:
  assumes "nfc_scalars X" and "validate_new_pin X raw n = Inr text"
  shows "length (utf8_encode text) \<le> 63" and "0 \<notin> set (utf8_encode text)"
proof -
  obtain cs where cs: "utf8_decode raw = Some cs" "text = nfc X cs" "0 \<notin> set text"
    "length (utf8_encode text) \<le> 63"
    using assms(2) by (auto simp: validate_new_pin_ok MAX_PIN_BYTES_def)
  have "list_all is_scalar text"
    using assms(1) utf8_decode_scalars [OF cs(1)] cs(2) by (simp add: nfc_scalars_def)
  then show "length (utf8_encode text) \<le> 63" "0 \<notin> set (utf8_encode text)"
    using cs(3,4) by (simp_all add: utf8_encode_nul)
qed

lemma calm_acquire:
  assumes X: "symmetric_ok X" "nfc_scalars X" and env: "env_fills env"
    and t: "calm_transport t" and a: "calm_auth auth"
  shows "never_panics (acquire_pin_uv_auth_token X env t auth plugin_id perm rp)"
proof -
  note tok = calm_token_with_pin [OF X(1) env t]
  have pin: "never_panics (request_pin_for auth q k)" for q k using a by (simp add: calm_auth_def)
  have set: "never_panics (set_pin X env t p (utf8_encode u))"
    if "validate_new_pin X raw n = Inr u" for p raw n u
    using validated_pin_bytes [OF X(2) that] by (intro calm_set_pin [OF X(1) env t]) simp_all
  show ?thesis
    unfolding acquire_pin_uv_auth_token_def Let_def
    by (auto intro!: never_panics_ebind_strong calm_read_pin_info tok pin set simp: t)
qed

subsection \<open>What is sent\<close>

definition key_agreement_command :: "externals \<Rightarrow> pin_uv_auth_protocol \<Rightarrow> bytes" where
  "key_agreement_command X p = encode_command X CTAP2_CLIENT_PIN
     (CMap [(CInteger 1, CInteger (protocol_as_int p)), (CInteger 2, CInteger SUBCMD_GET_KEY_AGREEMENT)])"

definition pin_retries_command :: "externals \<Rightarrow> pin_uv_auth_protocol \<Rightarrow> bytes" where
  "pin_retries_command X p = encode_command X CTAP2_CLIENT_PIN
     (CMap [(CInteger 1, CInteger (protocol_as_int p)), (CInteger 2, CInteger SUBCMD_GET_PIN_RETRIES)])"

text \<open>A request for a token scoped to the permissions and relying party of the ceremony.\<close>

definition token_commands :: "externals \<Rightarrow> byte \<Rightarrow> string option \<Rightarrow> bytes set" where
  "token_commands X perm rp =
     {c. \<exists>p pub h. c = encode_command X CTAP2_CLIENT_PIN (get_pin_token_params p pub h perm rp)}"

definition set_pin_commands :: "externals \<Rightarrow> bytes set" where
  "set_pin_commands X =
     {c. \<exists>p pub enc par. c = encode_command X CTAP2_CLIENT_PIN (set_pin_params p pub enc par)}"

definition pin_exchange_commands :: "externals \<Rightarrow> byte \<Rightarrow> string option \<Rightarrow> bytes set" where
  "pin_exchange_commands X perm rp = range (key_agreement_command X) \<union> token_commands X perm rp"

lemma sends_key_agreement:
  "range (key_agreement_command X) \<subseteq> C \<Longrightarrow> sends_only C (get_key_agreement X (logged t) p)"
  unfolding get_key_agreement_def key_agreement_command_def
  by (intro sends_only_ebind sends_only_basic sends_only_send) auto

lemma sends_token_with_pin:
  assumes "pin_exchange_commands X perm rp \<subseteq> C"
  shows "sends_only C (token_with_pin X (lift_env env) (logged t) p pin perm rp)"
proof -
  have c: "range (key_agreement_command X) \<subseteq> C" "token_commands X perm rp \<subseteq> C"
    using assms by (auto simp: pin_exchange_commands_def)
  have iv: "sends_only C (pick_iv (lift_env env) p)" by (cases p) (simp_all add: pick_iv_def)
  have send: "sends_only C (send_get_pin_token X (logged t) p pub h perm rp)" for pub h
    unfolding send_get_pin_token_def
    by (intro sends_only_ebind sends_only_basic sends_only_send)
       (use c(2) in \<open>auto simp: token_commands_def\<close>)
  show ?thesis
    unfolding token_with_pin_def encrypt_def
    by (intro sends_only_ebind sends_only_basic sends_only_env sends_key_agreement c(1) send iv)
qed

lemma sends_set_pin:
  assumes "range (key_agreement_command X) \<union> set_pin_commands X \<subseteq> C"
  shows "sends_only C (set_pin X (lift_env env) (logged t) p pin)"
proof -
  have k: "range (key_agreement_command X) \<subseteq> C" using assms by blast
  have send: "sends_only C (ctap2_send_command (logged t)
      (encode_command X CTAP2_CLIENT_PIN (set_pin_params p pub enc par)))" for pub enc par
    by (rule sends_only_send) (use assms in \<open>unfold set_pin_commands_def, blast\<close>)
  show ?thesis
    unfolding set_pin_def
    by (auto intro!: sends_only_ebind sends_key_agreement [OF k] send split: prod.splits)
qed

text \<open>Reading the PIN state sends one command, whatever comes back.\<close>

lemma read_pin_info_logged:
  "read_pin_info X (logged t) (l, w) =
     (fst (read_pin_info X t w), (l @ [[CTAP2_GET_INFO]], snd (read_pin_info X t w)))"
  unfolding read_pin_info_def
  by (simp add: ebind_apply logged_send split: sum.splits)

lemma get_pin_retries_logged:
  "get_pin_retries X (logged t) p (l, w) =
     (fst (get_pin_retries X t p w), (l @ [pin_retries_command X p], snd (get_pin_retries X t p w)))"
  unfolding get_pin_retries_def pin_retries_command_def
  by (simp add: ebind_apply logged_send split: sum.splits)

subsection \<open>Properties\<close>

text \<open>A new PIN that passes validation reaches the authenticator intact. It decrypts what is
  sent to 64 bytes which up to the first zero are the normalised PIN the user chose, and the
  parameter is the MAC of the cipher text under the protocol's key.\<close>

lemma validated_pin_arrives_intact:
  assumes "symmetric_ok X" and "nfc_scalars X" and "length iv = 16"
    and "validate_new_pin X raw min_length = Inr pin"
  shows "\<exists>enc param aes_key hmac_key padded.
    set_pin_fields X p z (utf8_encode pin) iv = Inr (enc, param) \<and>
    derive_aes_key X p z = Inr aes_key \<and> derive_hmac_key X p z = Inr hmac_key \<and>
    decrypt X p aes_key enc = Inr padded \<and> length padded = 64 \<and>
    takeWhile (\<lambda>b. b \<noteq> 0) padded = utf8_encode pin \<and>
    param = truncate_mac p (hmac_sha256 X hmac_key enc)"
  using validated_pin_bytes [OF assms(2,4)]
  by (intro set_pin_fields_correct [OF assms(1,3)]) simp_all

lemma ref_nfc_scalars: "nfc_scalars ref_externals"
  by (simp add: nfc_scalars_def)

lemma example_pin_validates:
  "validate_new_pin ref_externals (utf8_encode [49, 50, 51, 52]) 4 = Inr [49, 50, 51, 52]"
  using utf8_decode_encode [of "[49, 50, 51, 52]"]
  by (auto simp: validate_new_pin_ok is_scalar_def MAX_PIN_BYTES_def utf8_encode_def utf8_char_def)

lemma validated_pin_arrives_intact_witness:
  "\<exists>enc param. set_pin_fields ref_externals ProtoOne (replicate 32 1) (utf8_encode [49, 50, 51, 52])
     (replicate 16 0) = Inr (enc, param)"
  using validated_pin_arrives_intact [OF ref_symmetric_ok ref_nfc_scalars _ example_pin_validates,
      of "replicate 16 0" ProtoOne "replicate 32 1"]
  by auto

text \<open>An unusable PIN costs nothing. A new PIN that fails validation, and an entered PIN with a
  NUL, end the exchange with a PIN error after the single \<open>getInfo\<close> command: nothing is set and no
  PIN retry is spent.\<close>

lemma unusable_pin_is_never_sent:
  assumes info: "read_pin_info X t w = (Inr info, w1)"
    and ask: "request_pin_for auth pid (if pi_pin_state info = PinNotSet
        then SetNewPin (pi_min_pin_length info) else EnterPin) w1 = (Inr raw, w2)"
    and bad: "if pi_pin_state info = PinNotSet
        then validate_new_pin X raw (pi_min_pin_length info) = Inl e
        else 0 \<in> set (normalize_pin X raw) \<and> e = Pin InvalidEncoding"
  shows "acquire_pin_uv_auth_token X (lift_env env) (logged t) (lift_auth auth) pid perm rp (l, w) =
    (Inl e, (l @ [[CTAP2_GET_INFO]], w2))"
  using assms
  by (auto simp: acquire_pin_uv_auth_token_def ebind_apply read_pin_info_logged on_snd_apply Let_def
      split: if_splits)

definition example_get_info :: "bool \<Rightarrow> cbor" where
  "example_get_info pin_set = CMap [(CInteger 3, CBytes (replicate 16 0)),
     (CInteger 4, CMap [(CText ''clientPin'', CBool pin_set)]), (CInteger 6, CArray [CInteger 2])]"

lemma example_read_pin_info:
  "read_pin_info ref_externals (ref_transport uv (0 # cenc (example_get_info b))) w =
     (Inr \<lparr>pi_protocol = ProtoTwo, pi_pin_state = (if b then PinSet else PinNotSet),
           pi_min_pin_length = 4\<rparr>, Suc w)"
proof -
  have "cbor_ok (example_get_info b)" by (simp add: example_get_info_def)
  then have "read_cbor ref_externals msg (cenc (example_get_info b)) = Inr (example_get_info b)" for msg
    using read_cbor_enc [OF ref_cbor_roundtrips] by simp
  then show ?thesis
    by (simp add: read_pin_info_def ebind_apply parse_pin_info_def Let_def)
       (simp add: example_get_info_def pin_state_of_def protocol_from_int_def DEFAULT_MIN_PIN_LENGTH_def)
qed

lemma unusable_pin_is_never_sent_witness:
  "acquire_pin_uv_auth_token ref_externals (lift_env ref_env)
     (logged (ref_transport False (0 # cenc (example_get_info False)))) (lift_auth (ref_auth [0xFF]))
     ''fido2'' 1 None ([], 0) = (Inl (Pin InvalidEncoding), ([[CTAP2_GET_INFO]], 1))"
  using unusable_pin_is_never_sent [OF example_read_pin_info [of False False 0],
      where auth = "ref_auth [0xFF]" and pid = "''fido2''" and raw = "[0xFF]" and e = "Pin InvalidEncoding" and
      env = ref_env and perm = 1 and rp = None and l = "[]"]
  by (simp add: validate_new_pin_def utf8_decode.simps)

text \<open>C27: an authenticator that has a PIN never gets a \<open>setPIN\<close>. After \<open>getInfo\<close> the exchange sends
  key agreements and token requests only, and every token request carries the permission and the
  relying party of the ceremony.\<close>

theorem existing_pin_is_only_exchanged:
  assumes info: "read_pin_info X t w = (Inr info, w1)" and st: "pi_pin_state info \<noteq> PinNotSet"
    and run: "acquire_pin_uv_auth_token X (lift_env env) (logged t) (lift_auth auth) pid perm rp (l, w)
      = (r, (l', w'))"
  shows "\<exists>cs. l' = l @ [CTAP2_GET_INFO] # cs \<and> set cs \<subseteq> pin_exchange_commands X perm rp"
proof -
  let ?rest = "ebind (request_pin_for (lift_auth auth) pid EnterPin) (\<lambda>raw.
      let pin = normalize_pin X raw in
      if 0 \<in> set pin then ethrow (Pin InvalidEncoding)
      else token_with_pin X (lift_env env) (logged t) (pi_protocol info) pin perm rp)"
  have "?rest (l @ [[CTAP2_GET_INFO]], w1) = (r, (l', w'))"
    using run info st
    by (simp add: acquire_pin_uv_auth_token_def ebind_apply read_pin_info_logged)
  moreover have "sends_only (pin_exchange_commands X perm rp) ?rest"
    unfolding Let_def lift_auth_simps
    by (auto intro!: sends_only_ebind sends_token_with_pin)
  ultimately show ?thesis using sends_onlyD by fastforce
qed

theorem existing_pin_is_only_exchanged_witness:
  "\<exists>r l' w' cs. acquire_pin_uv_auth_token ref_externals (lift_env ref_env)
     (logged (ref_transport False (0 # cenc (example_get_info True)))) (lift_auth (ref_auth [49]))
     ''fido2'' 1 None ([], 0) = (r, (l', w')) \<and> l' = [CTAP2_GET_INFO] # cs \<and>
     set cs \<subseteq> pin_exchange_commands ref_externals 1 None"
proof -
  obtain r l' w' where run: "acquire_pin_uv_auth_token ref_externals (lift_env ref_env)
     (logged (ref_transport False (0 # cenc (example_get_info True)))) (lift_auth (ref_auth [49]))
     ''fido2'' 1 None ([], 0) = (r, (l', w'))" by (metis prod.collapse)
  show ?thesis using existing_pin_is_only_exchanged [OF example_read_pin_info _ run] run by auto
qed

end
