(* ===== verification/Authenticator_Info.thy ===== *)
theory Authenticator_Info
  imports Client_Pin
begin

section \<open>Describing an authenticator: src/authenticator\_info.rs\<close>

text \<open>
  \<open>getInfo\<close> as the host shows it before enrolment, and the verdict on whether enrolment can work.
  \<open>options\<close> is a \<open>BTreeMap\<close>; it is a hash map here, since only look-ups are made, and the entry
  collected last under a name wins as in the source.
\<close>

datatype enrolment_suitability = Suitable | Unsuitable string

record authenticator_info =
  ai_versions :: "string list"
  ai_aaguid :: bytes
  ai_client_pin :: pin_state
  ai_min_pin_length :: nat
  ai_force_pin_change :: bool
  ai_pin_retries :: "nat option"
  ai_pin_uv_auth_protocols :: "nat list"
  ai_extensions :: "string list"
  ai_options :: "(string, bool) hashmap"
  ai_suitability :: enrolment_suitability

definition PREVIEW_SIGN_EXTENSION :: string where
  "PREVIEW_SIGN_EXTENSION = ''previewSign''"

definition text_list :: "cbor option \<Rightarrow> string list" where
  "text_list v = (case Option.bind v as_array of None \<Rightarrow> [] | Some a \<Rightarrow> filter_map as_text a)"

definition bool_options :: "(cbor \<times> cbor) list \<Rightarrow> (string \<times> bool) list" where
  "bool_options m = filter_map (\<lambda>(k, v). Option.bind (as_text k) (\<lambda>n.
     Option.bind (as_bool v) (\<lambda>b. Some (n, b)))) m"

definition parse_get_info :: "externals \<Rightarrow> bytes \<Rightarrow> authenticator_info wres" where
  "parse_get_info X body =
     rbind (read_cbor X ''invalid getInfo CBOR: '' body) (\<lambda>v.
     rbind (crypto_err ''getInfo response is not a CBOR map'' (as_map v)) (\<lambda>m.
     rbind (crypto_err ''getInfo aaguid missing or not 16 bytes''
       (Option.bind (Option.bind (get_value_by_int m 3) as_cbytes)
          (\<lambda>b. if length b = 16 then Some b else None))) (\<lambda>aaguid.
       let options = (case Option.bind (get_value_by_int m 4) as_map of
             Some o_map \<Rightarrow> fold (\<lambda>(n, b). hm_insert n b) (bool_options o_map) []
           | None \<Rightarrow> []);
           client_pin = pin_state_of (hm_get options ''clientPin'');
           protocols = (case Option.bind (get_value_by_int m 6) as_array of
             Some a \<Rightarrow> filter_map (\<lambda>p. Option.bind (as_integer p) try_u32) a | None \<Rightarrow> [])
       in Inr \<lparr>ai_versions = text_list (get_value_by_int m 1), ai_aaguid = aaguid,
            ai_client_pin = client_pin,
            ai_min_pin_length =
              (case Option.bind (Option.bind (get_value_by_int m 13) as_integer) try_u32 of
                 Some n \<Rightarrow> n | None \<Rightarrow> DEFAULT_MIN_PIN_LENGTH),
            ai_force_pin_change =
              (case Option.bind (get_value_by_int m 12) as_bool of Some b \<Rightarrow> b | None \<Rightarrow> False),
            ai_pin_retries = None, ai_pin_uv_auth_protocols = protocols,
            ai_extensions = text_list (get_value_by_int m 2), ai_options = options,
            ai_suitability = Suitable\<rparr>)))"

definition suitability :: "authenticator_info \<Rightarrow> bool \<Rightarrow> enrolment_suitability" where
  "suitability info performs_uv =
     (if PREVIEW_SIGN_EXTENSION \<notin> set (ai_extensions info)
      then Unsuitable ''the authenticator does not advertise the previewSign extension''
      else if performs_uv then Suitable
      else if ai_client_pin info = PinUnsupported
      then Unsuitable (''the authenticator has no PIN support (clientPin option absent), ''
        @ ''but enrolment needs PIN user verification'')
      else if ai_force_pin_change info
      then Unsuitable ''the authenticator requires its PIN to be changed before it can be used''
      else if ai_pin_retries info = Some 0
      then Unsuitable (''the authenticator's PIN is blocked (no attempts left), ''
        @ ''so the PIN token exchange enrolment needs cannot succeed'')
      else if ai_pin_uv_auth_protocols info \<noteq> [] \<and>
        \<not> list_ex (\<lambda>p. protocol_from_int (int p) \<noteq> None) (ai_pin_uv_auth_protocols info)
      then Unsuitable (''the authenticator supports no PinUvAuthProtocol this library ''
        @ ''implements (1 or 2)'')
      else Suitable)"

definition chosen_protocol :: "nat list \<Rightarrow> pin_uv_auth_protocol" where
  "chosen_protocol ps =
     (case find_map (\<lambda>p. protocol_from_int (int p)) ps of Some p \<Rightarrow> p | None \<Rightarrow> ProtoOne)"

definition describe_authenticator ::
  "externals \<Rightarrow> 'w ctap2_transport \<Rightarrow> ('w, authenticator_info) weff" where
  "describe_authenticator X t =
     ebind (ctap2_send_command t [0x04]) (\<lambda>response.
     ebind (elift (split_status response)) (\<lambda>body.
     ebind (elift (parse_get_info X body)) (\<lambda>info.
     ebind (if ai_client_pin info = PinSet
            then ebind (get_pin_retries X t (chosen_protocol (ai_pin_uv_auth_protocols info)))
                   (\<lambda>n. ereturn (info\<lparr>ai_pin_retries := Some n\<rparr>))
            else ereturn info) (\<lambda>info.
       ereturn (info\<lparr>ai_suitability := suitability info (performs_user_verification t)\<rparr>)))))"

subsection \<open>Agreement with what the PIN exchange reads\<close>

definition options_distinct :: "(cbor \<times> cbor) list \<Rightarrow> bool" where
  "options_distinct m \<longleftrightarrow> distinct (map fst m)"

lemma bool_options_get:
  assumes "options_distinct m"
  shows "hm_get (fold (\<lambda>(n, b). hm_insert n b) (bool_options m) acc) name =
    (case Option.bind (get_value_by_text m name) as_bool of Some b \<Rightarrow> Some b | None \<Rightarrow> hm_get acc name)"
  using assms
proof (induction m arbitrary: acc)
  case Nil
  then show ?case by (simp add: bool_options_def)
next
  case (Cons kv m)
  obtain k v where kv: "kv = (k, v)" by (cases kv)
  have d: "options_distinct m" and k: "k \<notin> fst ` set m"
    using Cons.prems kv by (auto simp: options_distinct_def)
  have no: "get_value_by_text m n = None" if "k = CText n" for n
  proof -
    have "\<nexists>e. e \<in> set m \<and> as_text (fst e) = Some n" using k that by force
    then show ?thesis by (simp add: get_value_by_text_def find_None_iff)
  qed
  show ?case
  proof (cases "\<exists>n b. k = CText n \<and> v = CBool b")
    case True
    then obtain n b where nb: "k = CText n" "v = CBool b" by blast
    then show ?thesis
      using Cons.IH [OF d, of "hm_insert n b acc"] no [OF nb(1)] kv
      by (auto simp: bool_options_def split: option.splits)
  next
    case False
    then have "bool_options ((k, v) # m) = bool_options m"
      by (cases k; cases v) (auto simp: bool_options_def)
    moreover have "Option.bind (get_value_by_text ((k, v) # m) name) as_bool =
        Option.bind (get_value_by_text m name) as_bool"
      using False no by (cases k; cases v) (auto simp: get_value_by_text_def)
    ultimately show ?thesis using Cons.IH [OF d, of acc] kv by simp
  qed
qed

lemma protocol_find_map:
  "find_map (\<lambda>p. protocol_from_int (int p)) (filter_map (\<lambda>v. Option.bind (as_integer v) try_u32) a) =
     find_map (\<lambda>v. Option.bind (as_integer v) protocol_from_int) a"
proof (induction a)
  case (Cons v a)
  have i: "protocol_from_int i = None" if "try_u32 i = None" for i
    using that by (auto simp: try_u32_def protocol_from_int_def split: if_splits)
  show ?case
  proof (cases "as_integer v")
    case (Some i)
    then show ?thesis using Cons i [of i]
      by (cases "try_u32 i") (auto simp: try_u32_def split: option.splits if_splits)
  qed (simp add: Cons)
qed simp

lemma parse_infos_agree:
  assumes "parse_get_info X body = Inr info"
    and "from_reader X body = Inr (CMap m)"
    and "\<And>o_map. get_value_by_int m 4 = Some (CMap o_map) \<Longrightarrow> options_distinct o_map"
  shows "parse_pin_info X body =
    Inr \<lparr>pi_protocol = chosen_protocol (ai_pin_uv_auth_protocols info),
         pi_pin_state = ai_client_pin info, pi_min_pin_length = ai_min_pin_length info\<rparr>"
proof -
  have rd: "read_cbor X w body = Inr (CMap m)" for w using assms(2) by (simp add: read_cbor_def)
  let ?opts = "case Option.bind (get_value_by_int m 4) as_map of
      Some o_map \<Rightarrow> fold (\<lambda>(n, b). hm_insert n b) (bool_options o_map) [] | None \<Rightarrow> []"
  let ?ps = "case Option.bind (get_value_by_int m 6) as_array of
      Some a \<Rightarrow> filter_map (\<lambda>p. Option.bind (as_integer p) try_u32) a | None \<Rightarrow> []"
  let ?min = "case Option.bind (Option.bind (get_value_by_int m 13) as_integer) try_u32 of
      Some n \<Rightarrow> n | None \<Rightarrow> DEFAULT_MIN_PIN_LENGTH"
  have info: "ai_client_pin info = pin_state_of (hm_get ?opts ''clientPin'')"
    "ai_pin_uv_auth_protocols info = ?ps" "ai_min_pin_length info = ?min"
    using assms(1) unfolding parse_get_info_def Let_def rd by (auto simp only: rbind_eq_Inr
      crypto_err_eq_Inr as_map.simps sum.inject option.inject authenticator_info.simps)
  have opts: "hm_get ?opts ''clientPin'' =
      Option.bind (Option.bind (Option.bind (get_value_by_int m 4) as_map)
        (\<lambda>opts. get_value_by_text opts ''clientPin'')) as_bool"
  proof (cases "Option.bind (get_value_by_int m 4) as_map")
    case (Some om)
    then have "get_value_by_int m 4 = Some (CMap om)" by (auto simp: bind_eq_Some_conv)
    then show ?thesis using bool_options_get [OF assms(3), of om "[]" "''clientPin''"] Some
      by (simp split: option.splits)
  qed simp
  have proto: "chosen_protocol ?ps =
      (case Option.bind (Option.bind (get_value_by_int m 6) as_array)
              (find_map (\<lambda>v. Option.bind (as_integer v) protocol_from_int)) of
         Some p \<Rightarrow> p | None \<Rightarrow> ProtoOne)"
    by (cases "Option.bind (get_value_by_int m 6) as_array")
       (simp_all add: chosen_protocol_def protocol_find_map)
  show ?thesis
    unfolding parse_pin_info_def Let_def rd info proto opts by simp
qed

subsection \<open>The verdict\<close>

lemma suitability_iff:
  "suitability info uv = Suitable \<longleftrightarrow>
     ''previewSign'' \<in> set (ai_extensions info) \<and>
     (uv \<or> (ai_client_pin info \<noteq> PinUnsupported \<and> \<not> ai_force_pin_change info \<and>
            ai_pin_retries info \<noteq> Some 0 \<and>
            (ai_pin_uv_auth_protocols info = [] \<or> 1 \<in> set (ai_pin_uv_auth_protocols info) \<or>
             2 \<in> set (ai_pin_uv_auth_protocols info))))"
proof -
  have "list_ex (\<lambda>p. protocol_from_int (int p) \<noteq> None) ps \<longleftrightarrow> 1 \<in> set ps \<or> 2 \<in> set ps" for ps
    by (induction ps) (auto simp: protocol_from_int_def)
  then show ?thesis by (auto simp: suitability_def PREVIEW_SIGN_EXTENSION_def)
qed

lemma no_panic_parse_get_info [simp]: "no_panic (parse_get_info X b)"
  by (auto simp: parse_get_info_def Let_def intro!: no_panic_rbind)

text \<open>A description sends \<open>getInfo\<close>, then at most a read of the retry counter.\<close>

lemma describe_commands:
  assumes "describe_authenticator X (logged t) (l, w) = (r, (l', w'))"
  shows "l' = l @ [[0x04]] \<or> (\<exists>p. l' = l @ [[0x04], pin_retries_command X p])"
  using assms unfolding describe_authenticator_def
  by (auto simp: ebind_apply logged_send get_pin_retries_logged split: sum.splits if_splits)

lemma parse_get_info_retries: "parse_get_info X b = Inr i \<Longrightarrow> ai_pin_retries i = None"
  unfolding parse_get_info_def Let_def
  by (auto simp only: rbind_eq_Inr sum.inject authenticator_info.simps)

lemma suitability_update [simp]:
  "suitability (info\<lparr>ai_suitability := s\<rparr>) uv = suitability info uv"
  by (simp add: suitability_def)

lemma describe_ok:
  assumes "describe_authenticator X t w = (Inr info, w')"
  shows "ai_suitability info = suitability info (performs_user_verification t)"
    and "ai_pin_retries info \<noteq> None \<longleftrightarrow> ai_client_pin info = PinSet"
proof -
  obtain body i w1 k where i: "parse_get_info X body = Inr i"
    and k: "(if ai_client_pin i = PinSet
            then ebind (get_pin_retries X t (chosen_protocol (ai_pin_uv_auth_protocols i)))
                   (\<lambda>n. ereturn (i\<lparr>ai_pin_retries := Some n\<rparr>))
            else ereturn i) w1 = (Inr k, w')"
    and info: "info = k\<lparr>ai_suitability := suitability k (performs_user_verification t)\<rparr>"
    using assms unfolding describe_authenticator_def by (fastforce simp: ebind_eq_Inr)
  show "ai_suitability info = suitability info (performs_user_verification t)" using info by simp
  show "ai_pin_retries info \<noteq> None \<longleftrightarrow> ai_client_pin info = PinSet"
    using k info parse_get_info_retries [OF i] by (auto simp: ebind_eq_Inr split: if_splits)
qed

subsection \<open>Properties\<close>

text \<open>When enrolment is offered. An authenticator is suitable exactly when it has the previewSign
  extension and, unless the transport verifies the user itself, its PIN can be used: it supports
  PINs, needs no change, has attempts left, and shares a PIN protocol (an absent list counts as
  protocol 1).\<close>

lemma suitable_iff_enrolment_can_work:
  "suitability info uv = Suitable \<longleftrightarrow>
     ''previewSign'' \<in> set (ai_extensions info) \<and>
     (uv \<or> (ai_client_pin info \<noteq> PinUnsupported \<and> ai_force_pin_change info = False \<and>
            ai_pin_retries info \<noteq> Some 0 \<and>
            (ai_pin_uv_auth_protocols info = [] \<or> 1 \<in> set (ai_pin_uv_auth_protocols info) \<or>
             2 \<in> set (ai_pin_uv_auth_protocols info))))"
  using suitability_iff [of info uv] by simp

text \<open>Describing an authenticator is read-only. Whatever it answers, the only commands sent are
  one \<open>getInfo\<close> and at most one read of the retry counter; on success the verdict is that of the
  values reported, and the counter was read exactly when a PIN is set.\<close>

lemma describe_is_read_only:
  assumes "describe_authenticator X (logged t) (l, w) = (r, (l', w'))"
  shows "(l' = l @ [[0x04]] \<or> (\<exists>p. l' = l @ [[0x04], pin_retries_command X p])) \<and>
    (\<forall>info. r = Inr info \<longrightarrow>
       ai_suitability info = suitability info (performs_user_verification t) \<and>
       (ai_pin_retries info \<noteq> None \<longleftrightarrow> ai_client_pin info = PinSet))"
  using describe_commands [OF assms] describe_ok [of X "logged t" "(l, w)"] assms by auto

lemma describe_is_read_only_witness:
  "\<exists>r l' w'. describe_authenticator ref_externals (logged (ref_transport False [])) ([], 0) = (r, (l', w'))
     \<and> (l' = [[0x04]] \<or> (\<exists>p. l' = [[0x04], pin_retries_command ref_externals p]))"
proof -
  obtain r l' w' where run:
    "describe_authenticator ref_externals (logged (ref_transport False [])) ([], 0) = (r, (l', w'))"
    by (metis prod.collapse)
  show ?thesis using describe_is_read_only [OF run] run by auto
qed

text \<open>The two readers of \<open>getInfo\<close> agree. When the host's description parses, the PIN exchange
  parses the same body to the same PIN state, minimum length and protocol, for a map whose option
  names are distinct; so the verdict shown is about the exchange that will run.\<close>

lemma description_agrees_with_pin_exchange:
  assumes "parse_get_info X body = Inr info" and "from_reader X body = Inr (CMap m)"
    and "\<And>o_map. get_value_by_int m 4 = Some (CMap o_map) \<Longrightarrow> options_distinct o_map"
  shows "parse_pin_info X body =
    Inr \<lparr>pi_protocol = chosen_protocol (ai_pin_uv_auth_protocols info),
         pi_pin_state = ai_client_pin info, pi_min_pin_length = ai_min_pin_length info\<rparr>"
  by (rule parse_infos_agree [OF assms])

lemma description_agrees_with_pin_exchange_witness:
  "\<exists>info. parse_get_info ref_externals (cenc (example_get_info True)) = Inr info \<and>
     parse_pin_info ref_externals (cenc (example_get_info True)) =
       Inr \<lparr>pi_protocol = chosen_protocol (ai_pin_uv_auth_protocols info),
            pi_pin_state = ai_client_pin info, pi_min_pin_length = ai_min_pin_length info\<rparr>"
proof -
  have "cbor_ok (example_get_info True)" by (simp add: example_get_info_def)
  then have r: "from_reader ref_externals (cenc (example_get_info True)) = Inr (example_get_info True)"
    using from_reader_enc [OF ref_cbor_roundtrips] by simp
  obtain info where i: "parse_get_info ref_externals (cenc (example_get_info True)) = Inr info"
    using r by (simp add: parse_get_info_def read_cbor_def Let_def) (simp add: example_get_info_def)
  have m: "from_reader ref_externals (cenc (example_get_info True)) = Inr (CMap
      [(CInteger 3, CBytes (replicate 16 0)), (CInteger 4, CMap [(CText ''clientPin'', CBool True)]),
       (CInteger 6, CArray [CInteger 2])])"
    unfolding r by (simp add: example_get_info_def)
  show ?thesis
    using description_agrees_with_pin_exchange [OF i m] i
    by (auto simp: options_distinct_def)
qed

end
