(* ===== verification/Ceremonies.thy ===== *)
theory Ceremonies
  imports Authenticator_Info
begin

section \<open>The two ceremonies: the end of src/preview\_sign\_protocol.rs\<close>

text \<open>
  \<open>make_credential\<close> and \<open>get_assertion\<close> join the PIN exchange, the request builder, the transport
  and the response parser. A transport that verifies the user itself gets neither PIN exchange nor
  PIN parameter; any other gets a parameter computed over the ceremony's challenge with a token
  scoped to the ceremony.
\<close>

definition pin_uv_auth_for ::
  "externals \<Rightarrow> 'w env \<Rightarrow> 'w ctap2_transport \<Rightarrow> 'w auth_callback \<Rightarrow> byte \<Rightarrow> string \<Rightarrow> bytes
   \<Rightarrow> ('w, (bytes \<times> int) option) weff" where
  "pin_uv_auth_for X env t auth permission rp_id message =
     (if performs_user_verification t then ereturn None
      else ebind (acquire_pin_uv_auth_token X env t auth ''fido2'' permission (Some rp_id))
             (\<lambda>s. ereturn (Some (authenticate X s message, protocol_int s))))"

definition make_credential ::
  "externals \<Rightarrow> 'w env \<Rightarrow> 'w ctap2_transport \<Rightarrow> 'w auth_callback \<Rightarrow> string \<Rightarrow> bytes \<Rightarrow> bytes
   \<Rightarrow> int list \<Rightarrow> ('w, make_credential_result) weff" where
  "make_credential X env t auth rp_id user_id client_data_hash algorithms =
     ebind (pin_uv_auth_for X env t auth PERMISSION_MAKE_CREDENTIAL rp_id client_data_hash)
       (\<lambda>pin_uv_auth_param.
     ebind (ctap2_send_command t (build_make_credential_request X rp_id user_id client_data_hash
       algorithms pin_uv_auth_param)) (\<lambda>response.
       elift (parse_make_credential_response X response)))"

definition get_assertion ::
  "externals \<Rightarrow> 'w env \<Rightarrow> 'w ctap2_transport \<Rightarrow> 'w auth_callback \<Rightarrow> string \<Rightarrow> bytes \<Rightarrow> bytes
   \<Rightarrow> sign_input \<Rightarrow> ('w, sign_result) weff" where
  "get_assertion X env t auth rp_id challenge credential_id sign =
     ebind (pin_uv_auth_for X env t auth PERMISSION_GET_ASSERTION rp_id challenge)
       (\<lambda>pin_uv_auth_param.
     ebind (ctap2_send_command t (build_get_assertion_request X rp_id challenge credential_id sign
       pin_uv_auth_param)) (\<lambda>response.
       elift (parse_get_assertion_response X response)))"

lemma calm_pin_uv_auth_for:
  assumes "symmetric_ok X" "nfc_scalars X" "env_fills env" "calm_transport t" "calm_auth auth"
  shows "never_panics (pin_uv_auth_for X env t auth perm rp msg)"
  unfolding pin_uv_auth_for_def
  by (auto intro!: never_panics_ebind calm_acquire assms)

lemma calm_make_credential:
  assumes "symmetric_ok X" "nfc_scalars X" "cbor_dec_suffix X" "env_fills env" "calm_transport t"
    "calm_auth auth"
  shows "never_panics (make_credential X env t auth rp uid cdh algs)"
  unfolding make_credential_def
  by (auto intro!: never_panics_ebind calm_pin_uv_auth_for assms
      no_panic_parse_make_credential_response)

lemma calm_get_assertion:
  assumes "symmetric_ok X" "nfc_scalars X" "env_fills env" "calm_transport t" "calm_auth auth"
  shows "never_panics (get_assertion X env t auth rp ch cid sign)"
  unfolding get_assertion_def
  by (auto intro!: never_panics_ebind calm_pin_uv_auth_for assms
      no_panic_parse_get_assertion_response)

lemma make_credential_uv:
  assumes "performs_user_verification t"
  shows "make_credential X env (logged t) auth rp uid cdh algs (l, w) =
    (rbind (fst (ctap2_send_command t (build_make_credential_request X rp uid cdh algs None) w))
       (parse_make_credential_response X),
     (l @ [build_make_credential_request X rp uid cdh algs None],
      snd (ctap2_send_command t (build_make_credential_request X rp uid cdh algs None) w)))"
  using assms
  by (simp add: make_credential_def pin_uv_auth_for_def ebind_apply logged_send split: sum.splits)

lemma get_assertion_uv:
  assumes "performs_user_verification t"
  shows "get_assertion X env (logged t) auth rp ch cid sign (l, w) =
    (rbind (fst (ctap2_send_command t (build_get_assertion_request X rp ch cid sign None) w))
       (parse_get_assertion_response X),
     (l @ [build_get_assertion_request X rp ch cid sign None],
      snd (ctap2_send_command t (build_get_assertion_request X rp ch cid sign None) w)))"
  using assms
  by (simp add: get_assertion_def pin_uv_auth_for_def ebind_apply logged_send split: sum.splits)

subsection \<open>Properties\<close>

text \<open>C5: no ceremony panics. Whatever the authenticator answers and whatever the user types, both
  ceremonies end in a result or an error: none of the \<open>expect\<close>s, indices and slices from the PIN
  exchange to the response parser fails, given that the callbacks themselves do not panic.\<close>

theorem ceremonies_never_panic:
  assumes "symmetric_ok X" and "nfc_scalars X" and "cbor_dec_suffix X" and "env_fills env"
    and "calm_transport t" and "calm_auth auth"
  shows "never_panics (make_credential X env t auth rp uid cdh algs) \<and>
    never_panics (get_assertion X env t auth rp ch cid sign)"
  using calm_make_credential [OF assms] calm_get_assertion [OF assms(1,2,4,5,6)] by blast

lemma ref_callbacks_calm: "calm_transport (ref_transport uv answer)" "calm_auth (ref_auth pin)"
  by (simp_all add: calm_transport_def calm_auth_def never_panics_def)

theorem ceremonies_never_panic_witness:
  "never_panics (make_credential ref_externals ref_env (ref_transport False [0, 0xA0]) (ref_auth [1])
     ''rp'' [] [] [])"
  using ceremonies_never_panic [OF ref_symmetric_ok ref_nfc_scalars ref_cbor_suffix ref_env_fills
      ref_callbacks_calm] by blast

text \<open>A transport as a host that leaves user verification to this crate provides it.\<close>

definition raw_transport :: "'w ctap2_transport \<Rightarrow> 'w ctap2_transport" where
  "raw_transport t = t\<lparr>performs_user_verification := False\<rparr>"

lemma raw_transport_simps [simp]:
  "performs_user_verification (raw_transport t) = False"
  "ctap2_send_command (raw_transport t) c = ctap2_send_command t c"
  by (simp_all add: raw_transport_def)

text \<open>On a transport that does not verify the user, no ceremony command goes out without a PIN
  token. If the token exchange fails, so does the ceremony, with nothing more sent; if it yields a
  token, the one further command carries the token's MAC over this ceremony's own challenge.\<close>

lemma raw_ceremonies_need_a_pin_token:
  "make_credential X env (logged (raw_transport t)) auth rp uid cdh algs (l, w) =
     (case acquire_pin_uv_auth_token X env (logged (raw_transport t)) auth ''fido2''
             PERMISSION_MAKE_CREDENTIAL (Some rp) (l, w) of
        (Inl e, s) \<Rightarrow> (Inl e, s)
      | (Inr ses, (l1, w1)) \<Rightarrow>
          let c = build_make_credential_request X rp uid cdh algs
                    (Some (authenticate X ses cdh, protocol_int ses))
          in (rbind (fst (ctap2_send_command t c w1)) (parse_make_credential_response X),
              (l1 @ [c], snd (ctap2_send_command t c w1)))) \<and>
   get_assertion X env (logged (raw_transport t)) auth rp ch cid sign (l, w) =
     (case acquire_pin_uv_auth_token X env (logged (raw_transport t)) auth ''fido2''
             PERMISSION_GET_ASSERTION (Some rp) (l, w) of
        (Inl e, s) \<Rightarrow> (Inl e, s)
      | (Inr ses, (l1, w1)) \<Rightarrow>
          let c = build_get_assertion_request X rp ch cid sign
                    (Some (authenticate X ses ch, protocol_int ses))
          in (rbind (fst (ctap2_send_command t c w1)) (parse_get_assertion_response X),
              (l1 @ [c], snd (ctap2_send_command t c w1))))"
  by (simp add: make_credential_def get_assertion_def pin_uv_auth_for_def ebind_apply logged_send
      Let_def split: sum.splits prod.splits)

text \<open>A transport that verifies the user itself sees one command per ceremony, without a PIN
  parameter, and the result is what its single answer parses to.\<close>

lemma verifying_transport_sees_one_command:
  assumes "performs_user_verification t"
  shows "make_credential X env (logged t) auth rp uid cdh algs (l, w) =
      (rbind (fst (ctap2_send_command t (build_make_credential_request X rp uid cdh algs None) w))
         (parse_make_credential_response X),
       (l @ [build_make_credential_request X rp uid cdh algs None],
        snd (ctap2_send_command t (build_make_credential_request X rp uid cdh algs None) w))) \<and>
    get_assertion X env (logged t) auth rp ch cid sign (l, w) =
      (rbind (fst (ctap2_send_command t (build_get_assertion_request X rp ch cid sign None) w))
         (parse_get_assertion_response X),
       (l @ [build_get_assertion_request X rp ch cid sign None],
        snd (ctap2_send_command t (build_get_assertion_request X rp ch cid sign None) w)))"
  using make_credential_uv [OF assms] get_assertion_uv [OF assms] by blast

end
