(* ===== verification/Arkg.thy ===== *)
theory Arkg
  imports Client_Pin
begin

section \<open>ARKG public-key derivation: src/arkg.rs\<close>

text \<open>
  The ARKG-P256 derivation of a fresh public key from an authenticator's seed, with the RFC 9380
  message expansion it hashes by. Scalars are natural numbers below the group order; curve
  arithmetic belongs to the p256 package (\<open>p256_base_mul\<close>, \<open>p256_add_base\<close>, \<open>p256_ecdh\<close>).

  The lemmas show that none of the assertions and \<open>expect\<close>s of the source can fire, that the
  expansion is RFC 9380's, and that the authenticator, which derives its private key from the key handle on
  its own, ends up with the private half of the key derived here.
\<close>

definition COSE_KTY_ARKG_PUB :: int where "COSE_KTY_ARKG_PUB = -65537"
definition COSE_ALG_ARKG_P256 :: int where "COSE_ALG_ARKG_P256 = -65700"
definition COSE_ALG_ESP256_ARKG_DEPRECATED :: int where "COSE_ALG_ESP256_ARKG_DEPRECATED = -65539"
definition CTX_MAX_LEN :: nat where "CTX_MAX_LEN = 64"

definition P256_ORDER :: nat where
  "P256_ORDER = 0xffffffff00000000ffffffffffffffffbce6faada7179e84f3b9cac2fc632551"

record arkg_public_seed =
  seed_pk_bl :: p256_point
  seed_pk_kem :: p256_point

definition parse_arkg_pub_seed :: "externals \<Rightarrow> cbor \<Rightarrow> arkg_public_seed wres" where
  "parse_arkg_pub_seed X value =
     rbind (crypto_err ''ARKG-pub COSE key is not a CBOR map'' (as_map value)) (\<lambda>m.
       let kty = Option.bind (Option.bind (get_value_by_int m 1) as_integer) try_i64 in
       if kty \<noteq> Some COSE_KTY_ARKG_PUB
       then Inl (Crypto (''expected ARKG-pub COSE key (kty '' @ show_int COSE_KTY_ARKG_PUB
         @ ''), got kty '' @ debug_opt_int kty))
       else
         (let alg = Option.bind (Option.bind (get_value_by_int m 3) as_integer) try_i64 in
          if alg \<noteq> Some COSE_ALG_ARKG_P256 \<and> alg \<noteq> Some COSE_ALG_ESP256_ARKG_DEPRECATED
          then Inl (Crypto (''unsupported ARKG-pub COSE key alg: '' @ debug_opt_int alg))
          else
            rbind (crypto_err ''ARKG-pub COSE key missing pkBl (-1)'' (get_value_by_int m (-1)))
              (\<lambda>pk_bl_value.
            rbind (crypto_err ''ARKG-pub COSE key missing pkKem (-2)'' (get_value_by_int m (-2)))
              (\<lambda>pk_kem_value.
            rbind (decode_cose_ec2_point X pk_bl_value) (\<lambda>pk_bl.
            rbind (decode_cose_ec2_point X pk_kem_value) (\<lambda>pk_kem.
              Inr \<lparr>seed_pk_bl = pk_bl, seed_pk_kem = pk_kem\<rparr>))))))"

definition encode_arkg_sign_args :: "externals \<Rightarrow> int \<Rightarrow> bytes \<Rightarrow> bytes \<Rightarrow> bytes" where
  "encode_arkg_sign_args X alg kh ctx =
     cbor_enc X (CMap [(CInteger 3, CInteger alg), (CInteger (-1), CBytes kh),
                       (CInteger (-2), CBytes ctx)])"

subsection \<open>Hashing to a scalar\<close>

text \<open>Blocks \<open>b[i]\<close>, \<open>b[i+1]\<close>, \<dots> of the loop: \<open>n\<close> of them, after the block \<open>prev\<close>.\<close>

fun xmd_rest :: "externals \<Rightarrow> bytes \<Rightarrow> bytes \<Rightarrow> nat \<Rightarrow> nat \<Rightarrow> bytes \<Rightarrow> bytes list" where
  "xmd_rest X b0 dst_prime 0 i prev = []"
| "xmd_rest X b0 dst_prime (Suc n) i prev =
     (let xored = map (\<lambda>(a, c). a XOR c) (zip b0 prev);
          b = sha256 X (xored @ [of_nat i] @ dst_prime)
      in b # xmd_rest X b0 dst_prime n (Suc i) b)"

definition div_ceil :: "nat \<Rightarrow> nat \<Rightarrow> nat" where
  "div_ceil a b = (a + b - 1) div b"

definition be16 :: "nat \<Rightarrow> bytes" where
  "be16 n = [of_nat (n div 256), of_nat n]"

definition expand_message_xmd :: "externals \<Rightarrow> bytes \<Rightarrow> bytes \<Rightarrow> nat \<Rightarrow> bytes wres" where
  "expand_message_xmd X msg dst len_in_bytes =
     (let ell = div_ceil len_in_bytes 32 in
      if \<not> (ell \<le> 255 \<and> len_in_bytes \<le> 65535 \<and> length dst \<le> 255)
      then Inl (RustPanic ''expand_message_xmd: requested length too long'')
      else if ell = 0 then Inl (RustPanic ''index out of bounds'')
      else
        (let dst_prime = dst @ [of_nat (length dst)];
             msg_prime = replicate 64 0 @ msg @ be16 len_in_bytes @ [0] @ dst_prime;
             b0 = sha256 X msg_prime;
             b1 = sha256 X (b0 @ [1] @ dst_prime);
             uniform_bytes = concat (b1 # xmd_rest X b0 dst_prime (ell - 1) 2 b1)
         in Inr (take len_in_bytes uniform_bytes)))"

text \<open>\<open>BigUint::to_bytes_be\<close>: no leading zero, one zero byte for zero.\<close>

fun biguint_bytes :: "nat \<Rightarrow> bytes" where
  "biguint_bytes n = (if n < 256 then [byte_of n] else biguint_bytes (n div 256) @ [byte_of (n mod 256)])"

declare biguint_bytes.simps [simp del]

definition hash_to_scalar_field :: "externals \<Rightarrow> bytes \<Rightarrow> bytes \<Rightarrow> nat wres" where
  "hash_to_scalar_field X msg dst =
     rbind (expand_message_xmd X msg dst 48) (\<lambda>uniform_bytes.
       let e = unbe uniform_bytes mod P256_ORDER;
           minimal = biguint_bytes e;
           bytes32 = (if length minimal < 32 then replicate (32 - length minimal) 0 @ minimal
                      else minimal)
       in if length bytes32 \<noteq> 32 then Inl (RustPanic ''bytes32 is exactly 32 bytes'')
          else if P256_ORDER \<le> unbe bytes32
          then Inl (RustPanic ''reduced scalar is always canonical'')
          else Inr (unbe bytes32))"

subsection \<open>The KEM and the blinding\<close>

definition encode_uncompressed_point :: "p256_point \<Rightarrow> bytes" where
  "encode_uncompressed_point p = 0x04 # pt_x p @ pt_y p"

definition DST_AUG :: bytes where
  "DST_AUG = as_bytes ''ARKG-ECDH.ARKG-P256''"

definition kem_mac_key :: "externals \<Rightarrow> bytes \<Rightarrow> bytes \<Rightarrow> bytes wres" where
  "kem_mac_key X k_prime ctx =
     map_err (\<lambda>e. Crypto (''ARKG HKDF (mac key) failed: '' @ e))
       (hkdf_sha256 X [] k_prime (as_bytes ''ARKG-KEM-HMAC-mac.'' @ DST_AUG @ ctx) 32)"

definition kem_shared :: "externals \<Rightarrow> bytes \<Rightarrow> bytes \<Rightarrow> bytes wres" where
  "kem_shared X k_prime ctx =
     map_err (\<lambda>e. Crypto (''ARKG HKDF (shared secret) failed: '' @ e))
       (hkdf_sha256 X [] k_prime (as_bytes ''ARKG-KEM-HMAC-shared.'' @ DST_AUG @ ctx) 32)"

definition kem_encaps :: "externals \<Rightarrow> p256_point \<Rightarrow> bytes \<Rightarrow> bytes \<Rightarrow> (bytes \<times> bytes) wres" where
  "kem_encaps X pubk_kem ikm ctx =
     rbind (hash_to_scalar_field X ikm (as_bytes ''ARKG-KEM-ECDH-KG.'' @ DST_AUG)) (\<lambda>sk_prime.
       if sk_prime = 0 then Inl (Crypto ''ARKG: derived zero scalar (retry with new ikm)'')
       else
         (let c_prime = encode_uncompressed_point (p256_base_mul X sk_prime);
              k_prime = p256_ecdh X (be 32 sk_prime) pubk_kem
          in if length k_prime \<noteq> 32
             then Inl (Crypto ''ARKG: ECDH shared secret is not 32 bytes'')
             else
               rbind (kem_mac_key X k_prime ctx) (\<lambda>mac_key.
                 let t16 = take 16 (hmac_sha256 X mac_key c_prime) in
                 rbind (kem_shared X k_prime ctx) (\<lambda>k. Inr (k, t16 @ c_prime)))))"

definition bl_blind_public_key :: "externals \<Rightarrow> p256_point \<Rightarrow> bytes \<Rightarrow> bytes \<Rightarrow> p256_point wres" where
  "bl_blind_public_key X pk_bl tau ctx =
     rbind (hash_to_scalar_field X tau (as_bytes ''ARKG-BL-EC.ARKG-P256'' @ ctx)) (\<lambda>tau_prime.
       crypto_err ''ARKG: blinded public key is the point at infinity''
         (p256_add_base X pk_bl tau_prime))"

definition derive_public_key ::
  "externals \<Rightarrow> arkg_public_seed \<Rightarrow> bytes \<Rightarrow> bytes \<Rightarrow> (p256_point \<times> bytes) wres" where
  "derive_public_key X seed ikm ctx =
     (if length ctx > CTX_MAX_LEN
      then Inl (Crypto (''ARKG ctx too long: '' @ show_nat (length ctx) @ '' bytes (max ''
        @ show_nat CTX_MAX_LEN @ '')''))
      else
        (let ctx_kem = as_bytes ''ARKG-Derive-Key-KEM.'' @ [of_nat (length ctx)] @ ctx;
             ctx_bl = as_bytes ''ARKG-Derive-Key-BL.'' @ [of_nat (length ctx)] @ ctx
         in rbind (kem_encaps X (seed_pk_kem seed) ikm ctx_kem) (\<lambda>(tau, kh).
            rbind (bl_blind_public_key X (seed_pk_bl seed) tau ctx_bl) (\<lambda>derived.
              Inr (derived, kh)))))"

subsection \<open>Expansion\<close>

lemma length_xmd_rest [simp]: "length (xmd_rest X b0 d n i prev) = n"
  by (induction n arbitrary: i prev) (simp_all add: Let_def)

text \<open>Block \<open>j + 1\<close> of the output is the hash of the RFC's recurrence on block \<open>j\<close>.\<close>

lemma xmd_rest_nth:
  "j < n \<Longrightarrow> xmd_rest X b0 d n i prev ! j =
     sha256 X (map (\<lambda>(a, c). a XOR c) (zip b0 ((prev # xmd_rest X b0 d n i prev) ! j))
       @ [of_nat (i + j)] @ d)"
proof (induction n arbitrary: i prev j)
  case (Suc n)
  then show ?case by (cases j) (simp_all add: Let_def add.assoc)
qed simp

lemma length_concat_xmd:
  "(\<And>b. length (sha256 X b) = 32) \<Longrightarrow> length (concat (xmd_rest X b0 d n i prev)) = 32 * n"
  by (induction n arbitrary: i prev) (simp_all add: Let_def)

lemma expand_ok:
  assumes "0 < n" and "n \<le> 8160" and "length dst \<le> 255"
  shows "\<exists>u. expand_message_xmd X msg dst n = Inr u"
proof -
  have "0 < div_ceil n 32" "div_ceil n 32 \<le> 255" using assms by (auto simp: div_ceil_def)
  then show ?thesis using assms by (simp add: expand_message_xmd_def Let_def)
qed

lemma expand_length:
  assumes "\<And>b. length (sha256 X b) = 32" and "expand_message_xmd X msg dst n = Inr u"
  shows "length u = n"
proof -
  have "n \<le> 32 * div_ceil n 32" by (simp add: div_ceil_def)
  moreover have "0 < div_ceil n 32"
    using assms(2) by (auto simp: expand_message_xmd_def Let_def split: if_splits)
  ultimately have "n \<le> 32 + 32 * (div_ceil n 32 - 1)" by simp
  then show ?thesis
    using assms(2) by (auto simp: expand_message_xmd_def Let_def assms(1) length_concat_xmd [OF assms(1)]
        split: if_splits)
qed

lemma unbe_zeros: "unbe (replicate n 0 @ xs) = unbe xs"
  by (induction n) (simp_all add: unbe_def)

lemma biguint_bytes_unbe: "unbe (biguint_bytes n) = n"
proof (induction n rule: biguint_bytes.induct)
  case (1 n)
  then show ?case
    by (subst biguint_bytes.simps) (simp add: unbe_snoc, simp add: unbe_def)
qed

lemma biguint_bytes_length: "n < 256 ^ Suc k \<Longrightarrow> length (biguint_bytes n) \<le> Suc k"
proof (induction k arbitrary: n)
  case 0
  then show ?case by (subst biguint_bytes.simps) simp
next
  case (Suc k)
  have "n div 256 < 256 ^ Suc k" using Suc.prems by (simp add: less_mult_imp_div_less)
  then show ?case using Suc.IH by (subst biguint_bytes.simps) simp
qed

text \<open>Hashing to the scalar field is reduction of the expansion, and its checks cannot fail.\<close>

lemma hash_to_scalar_ok:
  assumes "length dst \<le> 255"
  shows "\<exists>u. expand_message_xmd X msg dst 48 = Inr u \<and>
    hash_to_scalar_field X msg dst = Inr (unbe u mod P256_ORDER)"
proof -
  obtain u where u: "expand_message_xmd X msg dst 48 = Inr u"
    using expand_ok [of 48 dst X msg] assms by auto
  let ?e = "unbe u mod P256_ORDER"
  have lt: "?e < P256_ORDER" by (simp add: P256_ORDER_def)
  have "?e < 256 ^ Suc 31" by (rule less_trans [OF lt]) (simp add: P256_ORDER_def)
  then have l: "length (biguint_bytes ?e) \<le> 32" using biguint_bytes_length [of ?e 31] by simp
  have "hash_to_scalar_field X msg dst = Inr ?e"
    using l lt unfolding hash_to_scalar_field_def u
    by (simp add: Let_def unbe_zeros biguint_bytes_unbe)
  then show ?thesis using u by blast
qed

lemma hash_to_scalar_less:
  "length dst \<le> 255 \<Longrightarrow> hash_to_scalar_field X msg dst = Inr e \<Longrightarrow> e < P256_ORDER"
  using hash_to_scalar_ok [of dst X msg] by (auto simp: P256_ORDER_def)

lemma dst_lengths [simp]:
  "length DST_AUG = 19" "length (as_bytes ''ARKG-KEM-ECDH-KG.'' @ DST_AUG) = 36"
  by (simp_all add: DST_AUG_def)

lemma no_panic_hash_to_scalar: "length dst \<le> 255 \<Longrightarrow> no_panic (hash_to_scalar_field X msg dst)"
  using hash_to_scalar_ok [of dst X msg] by auto

lemma no_panic_kem_encaps: "no_panic (kem_encaps X pk ikm ctx)"
  unfolding kem_encaps_def kem_mac_key_def kem_shared_def Let_def
  by (auto intro!: no_panic_rbind no_panic_hash_to_scalar)

lemma no_panic_derive_public_key: "no_panic (derive_public_key X seed ikm ctx)"
  unfolding derive_public_key_def Let_def bl_blind_public_key_def CTX_MAX_LEN_def
  by (auto intro!: no_panic_rbind no_panic_kem_encaps no_panic_hash_to_scalar)

subsection \<open>The expansion of the RFC\<close>

text \<open>
  RFC 9380, section 5.3.1, written out by itself: block \<open>i + 1\<close> as a function of its number, and the
  expansion as the first bytes of the blocks.
\<close>

fun rfc_block :: "externals \<Rightarrow> bytes \<Rightarrow> bytes \<Rightarrow> nat \<Rightarrow> bytes" where
  "rfc_block X b0 dst_prime 0 = sha256 X (b0 @ [1] @ dst_prime)"
| "rfc_block X b0 dst_prime (Suc i) =
     sha256 X (map2 (\<lambda>a c. a XOR c) b0 (rfc_block X b0 dst_prime i) @ [of_nat (i + 2)] @ dst_prime)"

definition rfc_expand :: "externals \<Rightarrow> bytes \<Rightarrow> bytes \<Rightarrow> nat \<Rightarrow> bytes wres" where
  "rfc_expand X msg dst n =
     (let dst_prime = dst @ [of_nat (length dst)];
          b0 = sha256 X (replicate 64 0 @ msg @ [of_nat (n div 256), of_nat (n mod 256)] @ [0] @ dst_prime)
      in Inr (take n (concat (map (rfc_block X b0 dst_prime) [0..<(n + 31) div 32]))))"

lemma xmd_rest_blocks:
  "xmd_rest X b0 d n (j + 2) (rfc_block X b0 d j) = map (rfc_block X b0 d) [Suc j..<Suc j + n]"
proof (induction n arbitrary: j)
  case (Suc n)
  have c: "[Suc j..<Suc (Suc (j + n))] = Suc j # [Suc (Suc j)..<Suc (Suc (j + n))]"
    by (simp add: upt_rec)
  have "map (\<lambda>(a, c). a XOR c) (zip b0 (rfc_block X b0 d j)) = map2 (\<lambda>a c. a XOR c) b0 (rfc_block X b0 d j)"
    by simp
  then show ?case using Suc.IH [of "Suc j"] by (simp add: c Let_def del: upt_Suc)
qed simp

lemma expand_is_rfc:
  assumes "0 < n" and "n \<le> 8160" and "length dst \<le> 255"
  shows "expand_message_xmd X msg dst n = rfc_expand X msg dst n"
proof -
  have e: "div_ceil n 32 = (n + 31) div 32" "0 < div_ceil n 32" "div_ceil n 32 \<le> 255"
    using assms by (auto simp: div_ceil_def)
  have b: "of_nat n = (of_nat (n mod 256) :: byte)"
    by (simp add: word_unat_eq_iff unat_of_nat)
  have r: "map (rfc_block X b0 d) [0..<Suc m] =
      rfc_block X b0 d 0 # xmd_rest X b0 d m 2 (rfc_block X b0 d 0)" for b0 d m
    using xmd_rest_blocks [of X b0 d m 0] by (simp add: upt_rec numeral_2_eq_2 del: upt_Suc)
  obtain m where m: "(n + 31) div 32 = Suc m" using e by (cases "(n + 31) div 32") auto
  show ?thesis
    using assms e unfolding expand_message_xmd_def rfc_expand_def Let_def be16_def e(1) m r b
    by simp
qed

subsection \<open>The authenticator's side\<close>

text \<open>
  The test \<open>derived_public_key_is_the_public_half_of_the_authenticators_private_key\<close> plays the
  authenticator: from its two secrets and the key handle it derives its private key, step by step as the
  ARKG draft has it and with none of the functions above. Only the message expansion is a
  parameter, \<open>xmd\<close>: the test calls the module's, the theorem below takes the RFC's. The assertions of the
  test are panics.
\<close>

definition authenticator_private_key ::
  "externals \<Rightarrow> (bytes \<Rightarrow> bytes \<Rightarrow> nat \<Rightarrow> bytes wres) \<Rightarrow> nat \<Rightarrow> nat \<Rightarrow> bytes \<Rightarrow> bytes \<Rightarrow> nat wres" where
  "authenticator_private_key X xmd sk_bl sk_kem kh ctx =
     (let dst_aug = as_bytes ''ARKG-ECDH.ARKG-P256'';
          ctx_kem = as_bytes ''ARKG-Derive-Key-KEM.'' @ [of_nat (length ctx)] @ ctx;
          ctx_bl = as_bytes ''ARKG-Derive-Key-BL.'' @ [of_nat (length ctx)] @ ctx
      in if length kh \<noteq> 16 + 65 then Inl (RustPanic ''kh must be a 16-byte tag plus a point'')
         else
           (let tag = take 16 kh; c_prime = drop 16 kh in
            rbind (map_err RustPanic (p256_from_sec1 X c_prime)) (\<lambda>pk_prime.
            let k_prime = p256_ecdh X (be 32 sk_kem) pk_prime;
                expand = (\<lambda>info. map_err RustPanic (hkdf_sha256 X [] k_prime info 32)) in
            rbind (expand (as_bytes ''ARKG-KEM-HMAC-mac.'' @ dst_aug @ ctx_kem)) (\<lambda>mac_key.
            rbind (expand (as_bytes ''ARKG-KEM-HMAC-shared.'' @ dst_aug @ ctx_kem)) (\<lambda>tau.
            if take 16 (hmac_sha256 X mac_key c_prime) \<noteq> tag
            then Inl (RustPanic ''the key handle's HMAC-KEM tag must validate against c'')
            else
              (let order = 0xffffffff00000000ffffffffffffffffbce6faada7179e84f3b9cac2fc632551 in
               rbind (xmd tau (as_bytes ''ARKG-BL-EC.ARKG-P256'' @ ctx_bl) 48) (\<lambda>uniform.
               let tau_prime = unbe uniform mod order
               in Inr ((sk_bl + tau_prime) mod order))))))))"

text \<open>
  Documented behaviour of the curve package: an encoded multiple of the generator has two 32-byte
  coordinates and decodes to itself, key agreement is symmetric in the two secrets, and adding a multiple
  of the generator adds the scalars modulo the group order, where zero is the point at infinity.
\<close>

definition scalar_ok :: "nat \<Rightarrow> bool" where
  "scalar_ok a \<longleftrightarrow> 0 < a \<and> a < P256_ORDER"

definition curve_ok :: "externals \<Rightarrow> bool" where
  "curve_ok X \<longleftrightarrow>
     (\<forall>a. scalar_ok a \<longrightarrow>
        length (pt_x (p256_base_mul X a)) = 32 \<and> length (pt_y (p256_base_mul X a)) = 32 \<and>
        p256_from_sec1 X (encode_uncompressed_point (p256_base_mul X a)) = Inr (p256_base_mul X a)) \<and>
     (\<forall>a b. scalar_ok a \<longrightarrow> scalar_ok b \<longrightarrow>
        p256_ecdh X (be 32 a) (p256_base_mul X b) = p256_ecdh X (be 32 b) (p256_base_mul X a)) \<and>
     (\<forall>a b. scalar_ok a \<longrightarrow> b < P256_ORDER \<longrightarrow>
        p256_add_base X (p256_base_mul X a) b =
          (if (a + b) mod P256_ORDER = 0 then None else Some (p256_base_mul X ((a + b) mod P256_ORDER))))"

text \<open>What encapsulation leaves in the handle, and what the two ends share.\<close>

lemma kem_encaps_run:
  assumes X: "symmetric_ok X" "curve_ok X" and sk: "scalar_ok sk"
    and enc: "kem_encaps X (p256_base_mul X sk) ikm ctx = Inr (k, kh)"
  obtains c eph mac_key where
    "kh = take 16 (hmac_sha256 X mac_key c) @ c" "length c = 65" "p256_from_sec1 X c = Inr eph"
    "length (take 16 (hmac_sha256 X mac_key c)) = 16"
    "hkdf_sha256 X [] (p256_ecdh X (be 32 sk) eph)
       (as_bytes ''ARKG-KEM-HMAC-mac.'' @ as_bytes ''ARKG-ECDH.ARKG-P256'' @ ctx) 32 = Inr mac_key"
    "hkdf_sha256 X [] (p256_ecdh X (be 32 sk) eph)
       (as_bytes ''ARKG-KEM-HMAC-shared.'' @ as_bytes ''ARKG-ECDH.ARKG-P256'' @ ctx) 32 = Inr k"
proof -
  let ?dst = "as_bytes ''ARKG-KEM-ECDH-KG.'' @ DST_AUG"
  have ok: "map_err f r = Inr x \<longleftrightarrow> r = Inr x" for f :: "string \<Rightarrow> wscd_error" and r :: "string + bytes" and x
    by (cases r) simp_all
  obtain a where a: "hash_to_scalar_field X ikm ?dst = Inr a" and a0: "a \<noteq> 0"
    and rest: "rbind (kem_mac_key X (p256_ecdh X (be 32 a) (p256_base_mul X sk)) ctx) (\<lambda>mac_key.
        let t16 = take 16 (hmac_sha256 X mac_key (encode_uncompressed_point (p256_base_mul X a))) in
        rbind (kem_shared X (p256_ecdh X (be 32 a) (p256_base_mul X sk)) ctx)
          (\<lambda>k. Inr (k, t16 @ encode_uncompressed_point (p256_base_mul X a)))) = Inr (k, kh)"
    using enc unfolding kem_encaps_def
    by (auto simp: rbind_eq_Inr Let_def split: if_splits)
  have a_ok: "scalar_ok a" using a0 hash_to_scalar_less [OF _ a] by (simp add: scalar_ok_def)
  let ?c = "encode_uncompressed_point (p256_base_mul X a)"
  have sym: "p256_ecdh X (be 32 a) (p256_base_mul X sk) = p256_ecdh X (be 32 sk) (p256_base_mul X a)"
    and eph: "p256_from_sec1 X ?c = Inr (p256_base_mul X a)" and l: "length ?c = 65"
    using X(2) a_ok sk by (auto simp: curve_ok_def encode_uncompressed_point_def)
  obtain mk where mk: "kem_mac_key X (p256_ecdh X (be 32 a) (p256_base_mul X sk)) ctx = Inr mk"
    and sh: "kem_shared X (p256_ecdh X (be 32 a) (p256_base_mul X sk)) ctx = Inr k"
    and kh: "kh = take 16 (hmac_sha256 X mk ?c) @ ?c"
    using rest by (auto simp: rbind_eq_Inr Let_def)
  show thesis
    by (rule that [OF kh l eph])
      (use mk sh in \<open>simp_all add: kem_mac_key_def kem_shared_def DST_AUG_def ok sym symmetric_okD [OF X(1)]\<close>)
qed

lemma authenticator_follows:
  assumes X: "symmetric_ok X" "curve_ok X" and sk: "scalar_ok sk_bl" "scalar_ok sk_kem"
    and run: "derive_public_key X \<lparr>seed_pk_bl = p256_base_mul X sk_bl, seed_pk_kem = p256_base_mul X sk_kem\<rparr>
      ikm ctx = Inr (pk, kh)"
  shows "\<exists>sk. authenticator_private_key X (rfc_expand X) sk_bl sk_kem kh ctx = Inr sk \<and> scalar_ok sk \<and>
    p256_base_mul X sk = pk"
proof -
  let ?kem = "as_bytes ''ARKG-Derive-Key-KEM.'' @ [of_nat (length ctx)] @ ctx"
  let ?bl = "as_bytes ''ARKG-Derive-Key-BL.'' @ [of_nat (length ctx)] @ ctx"
  let ?dst = "as_bytes ''ARKG-BL-EC.ARKG-P256'' @ ?bl"
  obtain tau where enc: "kem_encaps X (p256_base_mul X sk_kem) ikm ?kem = Inr (tau, kh)"
    and bl: "bl_blind_public_key X (p256_base_mul X sk_bl) tau ?bl = Inr pk" and ctx: "length ctx \<le> 64"
    using run unfolding derive_public_key_def by (auto simp: rbind_eq_Inr Let_def CTX_MAX_LEN_def split: if_splits)
  have dst: "length ?dst \<le> 255" using ctx by simp
  obtain u where u: "expand_message_xmd X tau ?dst 48 = Inr u"
    and h: "hash_to_scalar_field X tau ?dst = Inr (unbe u mod P256_ORDER)"
    using hash_to_scalar_ok [OF dst] by blast
  have rfc: "rfc_expand X tau ?dst 48 = Inr u" using u expand_is_rfc [of 48 ?dst X tau] dst by simp
  let ?s = "(sk_bl + unbe u mod P256_ORDER) mod P256_ORDER"
  have "p256_add_base X (p256_base_mul X sk_bl) (unbe u mod P256_ORDER) = Some pk"
    using bl h by (auto simp: bl_blind_public_key_def crypto_err_def ok_or_def split: option.splits)
  moreover have "unbe u mod P256_ORDER < P256_ORDER" by (simp add: P256_ORDER_def)
  ultimately have s: "?s \<noteq> 0" "p256_base_mul X ?s = pk"
    using X(2) sk(1) unfolding curve_ok_def by (auto split: if_splits)
  have s_ok: "scalar_ok ?s" using s(1) by (simp add: scalar_ok_def P256_ORDER_def)
  obtain c eph mk where kh: "kh = take 16 (hmac_sha256 X mk c) @ c" "length c = 65" "p256_from_sec1 X c = Inr eph"
    "length (take 16 (hmac_sha256 X mk c)) = 16"
    and keys: "hkdf_sha256 X [] (p256_ecdh X (be 32 sk_kem) eph)
       (as_bytes ''ARKG-KEM-HMAC-mac.'' @ as_bytes ''ARKG-ECDH.ARKG-P256'' @ ?kem) 32 = Inr mk"
    "hkdf_sha256 X [] (p256_ecdh X (be 32 sk_kem) eph)
       (as_bytes ''ARKG-KEM-HMAC-shared.'' @ as_bytes ''ARKG-ECDH.ARKG-P256'' @ ?kem) 32 = Inr tau"
    by (rule kem_encaps_run [OF X sk(2) enc])
  have d: "drop 16 kh = c" "take 16 kh = take 16 (hmac_sha256 X mk c)" "length kh = 81"
    using kh by simp_all
  have "authenticator_private_key X (rfc_expand X) sk_bl sk_kem kh ctx = Inr ?s"
    unfolding authenticator_private_key_def Let_def d kh(3) map_err_simps rbind_simps keys rfc
    by (simp add: P256_ORDER_def)
  then show ?thesis using s s_ok by blast
qed

subsection \<open>Properties\<close>

text \<open>Message expansion. The output has the requested length and is a prefix of the blocks of
  RFC 9380: the first is the hash of the seed block, and every later one hashes the seed block
  exclusive-or its predecessor with its own number.\<close>

lemma expansion_follows_the_recurrence:
  assumes "\<And>b. length (sha256 X b) = 32" and "expand_message_xmd X msg dst n = Inr u"
  shows "length u = n \<and>
    (\<exists>b0 blocks. u = take n (concat blocks) \<and> length blocks = div_ceil n 32 \<and>
       b0 = sha256 X (replicate 64 0 @ msg @ be16 n @ [0] @ dst @ [of_nat (length dst)]) \<and>
       blocks ! 0 = sha256 X (b0 @ [1] @ dst @ [of_nat (length dst)]) \<and>
       (\<forall>j \<in> {1..<div_ceil n 32}. blocks ! j =
          sha256 X (map (\<lambda>(a, c). a XOR c) (zip b0 (blocks ! (j - 1))) @ [of_nat (Suc j)]
            @ dst @ [of_nat (length dst)])))"
proof -
  define d where "d = dst @ [of_nat (length dst)]"
  define b0 where "b0 = sha256 X (replicate 64 0 @ msg @ be16 n @ [0] @ d)"
  define b1 where "b1 = sha256 X (b0 @ [1] @ d)"
  define rest where "rest = xmd_rest X b0 d (div_ceil n 32 - 1) 2 b1"
  have ell: "0 < div_ceil n 32" and u: "u = take n (concat (b1 # rest))"
    using assms(2) unfolding expand_message_xmd_def b1_def b0_def d_def rest_def
    by (auto simp: Let_def split: if_splits)
  have "(b1 # rest) ! j = sha256 X (map (\<lambda>(a, c). a XOR c) (zip b0 ((b1 # rest) ! (j - 1)))
      @ [of_nat (Suc j)] @ d)" if "j \<in> {1..<div_ceil n 32}" for j
    using that xmd_rest_nth [of "j - 1" "div_ceil n 32 - 1" X b0 d 2 b1]
    by (cases j) (auto simp: rest_def)
  moreover have "length (b1 # rest) = div_ceil n 32" using ell by (simp add: rest_def)
  ultimately show ?thesis
    using expand_length [OF assms] u unfolding b1_def b0_def d_def
    by (intro conjI exI [of _ b0] exI [of _ "b1 # rest"]) (simp_all add: b1_def b0_def d_def)
qed

text \<open>Hashing to the scalar field is total and reduces the 48-byte expansion modulo the group
  order, for any domain separation tag within the RFC's limit.\<close>

lemma hash_to_scalar_reduces:
  assumes "length dst \<le> 255"
  shows "\<exists>u e. expand_message_xmd X msg dst 48 = Inr u \<and> hash_to_scalar_field X msg dst = Inr e \<and>
    e = unbe u mod P256_ORDER \<and> e < P256_ORDER"
  using hash_to_scalar_ok [OF assms, of X msg] by (auto simp: P256_ORDER_def)

text \<open>Deriving a public key never panics, whatever seed, entropy and context it is given: the
  length assertions and the canonical-scalar \<open>expect\<close> of the source cannot fire.\<close>

lemma arkg_derivation_never_panics:
  "no_panic (derive_public_key X seed ikm ctx)"
  by (rule no_panic_derive_public_key)

text \<open>C30: the derived public key is the public half of the private key the authenticator will derive. With its
  two secrets and the key handle, and following the draft and RFC 9380 on its own - labels, context
  strings, MAC, expansion and reduction written out again, as the crate's test does - the authenticator
  accepts the handle's MAC and obtains a valid scalar whose public key is exactly the one derived
  here.\<close>

theorem derived_key_is_the_authenticators:
  assumes "symmetric_ok X" and "curve_ok X" and "scalar_ok sk_bl" and "scalar_ok sk_kem"
    and "derive_public_key X \<lparr>seed_pk_bl = p256_base_mul X sk_bl, seed_pk_kem = p256_base_mul X sk_kem\<rparr>
      ikm ctx = Inr (pk, kh)"
  shows "\<exists>sk. authenticator_private_key X (rfc_expand X) sk_bl sk_kem kh ctx = Inr sk \<and> scalar_ok sk \<and>
    p256_base_mul X sk = pk"
  by (rule authenticator_follows [OF assms])

text \<open>A curve that keeps the documented laws: the points are their scalars.\<close>

definition arkg_externals :: externals where
  "arkg_externals = ref_externals\<lparr>p256_add_base := (\<lambda>p n.
     let s = (unbe (pt_x p) + n) mod P256_ORDER in
     if s = 0 then None else Some \<lparr>pt_x = be 32 s, pt_y = replicate 32 2\<rparr>)\<rparr>"

lemma arkg_symmetric_ok: "symmetric_ok arkg_externals"
  using ref_symmetric_ok by (simp add: symmetric_ok_def arkg_externals_def)

lemma arkg_curve_ok: "curve_ok arkg_externals"
proof -
  have e: "take 32 (be 32 m @ replicate 32 2) = be 32 m" "drop 32 (be 32 m @ replicate 32 2) = replicate 32 (2 :: byte)"
    for m by simp_all
  have o: "P256_ORDER < 2 ^ 256" "0 < P256_ORDER" by (simp_all add: P256_ORDER_def)
  have "(a + b) mod P256_ORDER < 2 ^ 256" for a b using o by (meson less_trans mod_less_divisor)
  then have m: "(a + b) mod P256_ORDER mod 2 ^ 256 = (a + b) mod P256_ORDER" for a b by simp
  have "a mod 2 ^ 256 = a" if "scalar_ok a" for a using that o by (simp add: scalar_ok_def)
  then show ?thesis
    using e m unfolding curve_ok_def
    by (auto simp: arkg_externals_def ref_externals_def encode_uncompressed_point_def unbe_be_mod mult.commute
        Let_def simp del: be.simps)
qed

lemma kem_encaps_total:
  assumes X: "symmetric_ok X" and a: "hash_to_scalar_field X ikm (as_bytes ''ARKG-KEM-ECDH-KG.'' @ DST_AUG)
      = Inr a" "a \<noteq> 0" and l: "length (p256_ecdh X (be 32 a) pk) = 32"
  shows "\<exists>k kh. kem_encaps X pk ikm ctx = Inr (k, kh)"
proof -
  have h: "\<exists>key. hkdf_sha256 X s i f 32 = Inr key" for s i f
    using symmetric_okD(3) [OF X, of 32 s i f] by auto
  obtain mk k where "kem_mac_key X (p256_ecdh X (be 32 a) pk) ctx = Inr mk"
    "kem_shared X (p256_ecdh X (be 32 a) pk) ctx = Inr k"
    using h unfolding kem_mac_key_def kem_shared_def by (metis map_err_simps(2))
  then show ?thesis using a l by (simp add: kem_encaps_def Let_def)
qed

lemma arkg_ecdh_length: "length (p256_ecdh arkg_externals sk pk) = 32"
  by (simp add: arkg_externals_def ref_externals_def)

lemma arkg_scalar_bounds:
  assumes "expand_message_xmd arkg_externals msg dst 48 = Inr u"
  shows "0 < unbe u" and "unbe u < 2 ^ 200"
proof -
  obtain bs b2 where u: "u = take 48 (ref_hash bs @ ref_hash b2)"
    using assms by (auto simp: expand_message_xmd_def arkg_externals_def Let_def div_ceil_def numeral_2_eq_2
        split: if_splits)
  let ?v = "Suc (sum_list (map unat bs) mod 65535)"
  have v: "?v < 65536" by (simp add: less_Suc_eq_le)
  have "unbe u = unbe (ref_hash bs) * 256 ^ 16 + unbe (take 16 (ref_hash b2))"
    using u by (simp add: unbe_append)
  moreover have "unbe (ref_hash bs) = ?v" using v by (simp add: ref_hash_def unbe_be_mod)
  moreover have "unbe (take 16 (ref_hash b2)) < 256 ^ 16"
    using unbe_less [of "take 16 (ref_hash b2)"] by simp
  ultimately show "0 < unbe u" "unbe u < 2 ^ 200" using v by simp_all
qed

theorem derived_key_is_the_authenticators_witness:
  "\<exists>pk kh sk. derive_public_key arkg_externals \<lparr>seed_pk_bl = p256_base_mul arkg_externals 5,
       seed_pk_kem = p256_base_mul arkg_externals 7\<rparr> [1] [] = Inr (pk, kh) \<and>
     authenticator_private_key arkg_externals (rfc_expand arkg_externals) 5 7 kh [] = Inr sk \<and>
     p256_base_mul arkg_externals sk = pk"
proof -
  let ?X = arkg_externals
  let ?kg = "as_bytes ''ARKG-KEM-ECDH-KG.'' @ DST_AUG"
  let ?kem = "as_bytes ''ARKG-Derive-Key-KEM.'' @ [0]" and ?bl = "as_bytes ''ARKG-Derive-Key-BL.'' @ [0]"
  have five: "scalar_ok 5" "scalar_ok 7" by (simp_all add: scalar_ok_def P256_ORDER_def)
  obtain u where u: "expand_message_xmd ?X [1] ?kg 48 = Inr u"
    and h: "hash_to_scalar_field ?X [1] ?kg = Inr (unbe u mod P256_ORDER)"
    using hash_to_scalar_ok [of ?kg ?X "[1]"] by auto
  have "unbe u mod P256_ORDER \<noteq> 0" using arkg_scalar_bounds [OF u] by (simp add: P256_ORDER_def)
  then obtain tau kh where k: "kem_encaps ?X (p256_base_mul ?X 7) [1] ?kem = Inr (tau, kh)"
    using kem_encaps_total [OF arkg_symmetric_ok h _ arkg_ecdh_length] by blast
  obtain v where v: "expand_message_xmd ?X tau (as_bytes ''ARKG-BL-EC.ARKG-P256'' @ ?bl) 48 = Inr v"
    and hv: "hash_to_scalar_field ?X tau (as_bytes ''ARKG-BL-EC.ARKG-P256'' @ ?bl) = Inr (unbe v mod P256_ORDER)"
    using hash_to_scalar_ok [of "as_bytes ''ARKG-BL-EC.ARKG-P256'' @ ?bl" ?X tau] by auto
  have "(5 + unbe v mod P256_ORDER) mod P256_ORDER \<noteq> 0"
    using arkg_scalar_bounds [OF v] by (simp add: P256_ORDER_def)
  moreover have "unbe v mod P256_ORDER < P256_ORDER" by (simp add: P256_ORDER_def)
  ultimately obtain pk where "p256_add_base ?X (p256_base_mul ?X 5) (unbe v mod P256_ORDER) = Some pk"
    using arkg_curve_ok five(1) unfolding curve_ok_def by auto
  then have run: "derive_public_key ?X \<lparr>seed_pk_bl = p256_base_mul ?X 5, seed_pk_kem = p256_base_mul ?X 7\<rparr> [1] []
      = Inr (pk, kh)"
    using k hv by (simp add: derive_public_key_def bl_blind_public_key_def)
  show ?thesis
    using derived_key_is_the_authenticators [OF arkg_symmetric_ok arkg_curve_ok five run] run by blast
qed

end
