(* ===== verification/Fido2_Sign.thy ===== *)
theory Fido2_Sign
  imports Plugin_Iface Ceremonies Arkg
begin

section \<open>The FIDO2 previewSign store: src/plugins/fido2\_sign.rs\<close>

text \<open>
  Keys live on a FIDO2 authenticator behind a \<open>Ctap2Transport\<close>; the plugin records the credential,
  the key handle and the public key. Generation runs the previewSign ceremony and derives a fresh
  ARKG key from the authenticator's seed; signing runs the assertion ceremony, and
  \<open>sign_with_factors\<close> reports a second factor only for an assertion that carries the UV flag.

  The transport \<open>t\<close> is a parameter of every method. \<open>sign_with_factors\<close> wraps the caller's
  \<open>AuthCallback\<close> in a recorder, so the inner sign runs in the world extended with the recorder's
  log (\<open>run_recorded\<close>).
\<close>

definition RAW_SIGN_RP_ID :: string where "RAW_SIGN_RP_ID = ''siros.wscd.preview-sign''"
definition ARKG_DERIVE_CTX :: bytes where
  "ARKG_DERIVE_CTX = as_bytes ''siros-wscd-manager previewSign''"
definition P256_COORDINATE_LEN :: nat where "P256_COORDINATE_LEN = 32"

record stored_fido_key =
  fk_kid :: string
  fk_credential_id :: bytes
  fk_key_handle :: bytes
  fk_pub_x :: bytes
  fk_pub_y :: bytes
  fk_algorithm :: int
  fk_attestation_object :: bytes
  fk_has_dedicated_hardware_chain :: bool
  fk_client_data_hash :: bytes
  fk_arkg_kh_and_ctx :: "(bytes \<times> bytes) option"
  fk_created_at :: int

record fido_state =
  fd_keys :: "(string, stored_fido_key) hashmap"
  fd_lifecycle :: lifecycle_map

record exported_fido =
  xf_keys :: "stored_fido_key list"
  xf_lifecycle :: lifecycle_map

definition fido_new :: fido_state where
  "fido_new = \<lparr>fd_keys = [], fd_lifecycle = []\<rparr>"

subsection \<open>Export and restore\<close>

text \<open>The check of one record: the first that fails aborts the restore.\<close>

fun check_widths :: "stored_fido_key list \<Rightarrow> unit wres" where
  "check_widths [] = Inr ()"
| "check_widths (key # keys) =
     (let width = length (fk_pub_x key) in
      if width \<noteq> P256_COORDINATE_LEN \<and> width \<noteq> BLS12381_G1_COORDINATE_LEN
      then Inl (Serialization (''stored key '' @ single_quote @ fk_kid key @ single_quote @ '' has a ''
        @ show_nat width @ ''-octet x coordinate; expected '' @ show_nat P256_COORDINATE_LEN
        @ '' (P-256) or '' @ show_nat BLS12381_G1_COORDINATE_LEN @ '' (BLS12-381 G1)''))
      else if length (fk_pub_y key) \<noteq> width
      then Inl (Serialization (''stored key '' @ single_quote @ fk_kid key @ single_quote
        @ '' has mismatched coordinate widths ('' @ show_nat width @ '' vs ''
        @ show_nat (length (fk_pub_y key)) @ '')''))
      else check_widths keys)"

definition fido_from_state ::
  "(bytes \<Rightarrow> string + exported_fido) \<Rightarrow> bytes \<Rightarrow> fido_state wres" where
  "fido_from_state parse state_bytes =
     rbind (map_err Serialization (parse state_bytes)) (\<lambda>exported.
     rbind (check_widths (xf_keys exported)) (\<lambda>_.
       Inr \<lparr>fd_keys = hm_first_of_records fk_kid (xf_keys exported),
            fd_lifecycle = xf_lifecycle exported\<rparr>))"

definition fido_exported :: "fido_state \<Rightarrow> exported_fido" where
  "fido_exported p =
     \<lparr>xf_keys = sort_key (\<lambda>k. (fk_created_at k, fk_kid k)) (hm_values (fd_keys p)),
      xf_lifecycle = fd_lifecycle p\<rparr>"

definition fido_export_state :: "(exported_fido \<Rightarrow> string + bytes) \<Rightarrow> fido_state \<Rightarrow> bytes wres" where
  "fido_export_state to_vec p = map_err Serialization (to_vec (fido_exported p))"

definition fido_key_ids :: "fido_state \<Rightarrow> key_id list" where
  "fido_key_ids p = hm_keys (fd_keys p)"

subsection \<open>Generation\<close>

definition key_algorithm :: "stored_fido_key \<Rightarrow> algorithm" where
  "key_algorithm k =
     (if length (fk_pub_x k) = BLS12381_G1_COORDINATE_LEN then Bls12381G1Schnorr else ES256)"

definition build_public_key_jwk :: "externals \<Rightarrow> stored_fido_key \<Rightarrow> json" where
  "build_public_key_jwk X k =
     (if key_algorithm k = Bls12381G1Schnorr
      then jwk_ec X ''BLS12381G1'' (fk_pub_x k) (fk_pub_y k)
      else jwk_ec X ''P-256'' (fk_pub_x k) (fk_pub_y k))"

definition store_generated_key ::
  "externals \<Rightarrow> 'w env \<Rightarrow> make_credential_result \<Rightarrow> bytes \<Rightarrow> bytes \<Rightarrow> (bytes \<times> bytes) option
   \<Rightarrow> bytes \<Rightarrow> (fido_state \<times> 'w, generated_key) weff" where
  "store_generated_key X env result pub_x pub_y arkg_kh_and_ctx client_data_hash =
     ebind (on_snd (now_unix env)) (\<lambda>now.
       let g = mr_generated_key result;
           stored = \<lparr>fk_kid = '''', fk_credential_id = mr_credential_id result,
             fk_key_handle = pg_key_handle g, fk_pub_x = pub_x, fk_pub_y = pub_y,
             fk_algorithm = pg_algorithm g, fk_attestation_object = pg_attestation_object g,
             fk_has_dedicated_hardware_chain =
               attestation_object_has_dedicated_hardware_chain X (pg_attestation_object g),
             fk_client_data_hash = client_data_hash, fk_arkg_kh_and_ctx = arkg_kh_and_ctx,
             fk_created_at = now\<rparr>;
           public_key_jwk = build_public_key_jwk X stored
       in ebind (elift (jwk_thumbprint X public_key_jwk)) (\<lambda>kid.
          ebind (modify_state (\<lambda>p. p\<lparr>fd_keys :=
            hm_insert kid (stored\<lparr>fk_kid := kid\<rparr>) (fd_keys p)\<rparr>)) (\<lambda>_.
            ereturn \<lparr>gk_kid = kid, gk_public_key_jwk = public_key_jwk\<rparr>)))"

text \<open>The public key of a P-256 ceremony: an ARKG seed to derive from, or a plain EC2 key.\<close>

definition p256_generated_key ::
  "externals \<Rightarrow> 'w env \<Rightarrow> bytes \<Rightarrow> ('w, bytes \<times> bytes \<times> (bytes \<times> bytes) option) weff" where
  "p256_generated_key X env public_key_cose =
     ebind (elift (read_cbor X ''invalid generated-key COSE CBOR: '' public_key_cose)) (\<lambda>cose_value.
       case parse_arkg_pub_seed X cose_value of
         Inr seed \<Rightarrow>
           ebind (rand_fill env 32) (\<lambda>ikm.
           ebind (elift (derive_public_key X seed ikm ARKG_DERIVE_CTX)) (\<lambda>(derived, kh).
             ereturn (pt_x derived, pt_y derived, Some (kh, ARKG_DERIVE_CTX))))
       | Inl _ \<Rightarrow>
           ebind (elift (ps_decode_cose_ec2_public_key X public_key_cose)) (\<lambda>(x, y).
             ereturn (x, y, None)))"

definition fido_generate_key ::
  "externals \<Rightarrow> 'w ctap2_transport \<Rightarrow> algorithm \<Rightarrow> 'w env \<Rightarrow> 'w auth_callback
   \<Rightarrow> (fido_state \<times> 'w, generated_key) weff" where
  "fido_generate_key X t alg env auth =
     (if alg = EdDSA then ethrow (Unsupported ''fido2'' ''generate_key(EdDSA)'')
      else
        (let bbs_keybind = (alg = Bls12381G1Schnorr) in
         ebind (started ''generate_key'' env) (\<lambda>_.
         ebind (on_snd (rand_fill env 32)) (\<lambda>user_id.
         ebind (on_snd (rand_fill env 32)) (\<lambda>client_data_hash.
         ebind (on_snd (on_progress env WaitingForUser)) (\<lambda>_.
         ebind (on_snd (make_credential X env t auth RAW_SIGN_RP_ID user_id client_data_hash
           [if bbs_keybind then ECSDSA_BLS12381_BP1_SHA256_SEC1 else ARKG_P256_ESP256])) (\<lambda>result.
         ebind (if bbs_keybind
                then elift (rbind (decode_cose_bls12381_g1_public_key X
                       (pg_public_key_cose (mr_generated_key result))) (\<lambda>(x, y). Inr (x, y, None)))
                else on_snd (p256_generated_key X env (pg_public_key_cose (mr_generated_key result))))
           (\<lambda>(pub_x, pub_y, arkg_kh_and_ctx).
         ebind (store_generated_key X env result pub_x pub_y arkg_kh_and_ctx client_data_hash)
           (\<lambda>generated.
         ebind (completed env) (\<lambda>_. ereturn generated))))))))))"

subsection \<open>Signing\<close>

definition sign_tbs :: "externals \<Rightarrow> algorithm \<Rightarrow> bytes \<Rightarrow> bytes wres" where
  "sign_tbs X alg data =
     (if signs_prehashed_input alg then
        (if length data \<noteq> BLS12381_KEYBIND_TBS_LEN
         then Inl (Crypto (''key binding message is '' @ show_nat (length data)
           @ '' octets, expected exactly '' @ show_nat BLS12381_KEYBIND_TBS_LEN
           @ ''; the authenticator's own ceiling is '' @ show_nat PREVIEW_SIGN_MAX_TBS_LEN
           @ '' octets, but anything that is not the challenge produces a signature that fails ''
           @ ''verification later with no diagnostic''))
         else Inr data)
      else Inr (sha256 X data))"

definition raw_signature :: "externals \<Rightarrow> algorithm \<Rightarrow> bytes \<Rightarrow> bytes wres" where
  "raw_signature X alg sig =
     (if signs_prehashed_input alg then validate_bls12381_schnorr_signature sig
      else der_signature_to_raw X sig)"

definition fido_sign_input :: "externals \<Rightarrow> stored_fido_key \<Rightarrow> bytes \<Rightarrow> sign_input" where
  "fido_sign_input X k tbs =
     \<lparr>si_key_handle = fk_key_handle k, si_tbs = tbs,
      si_additional_args = map_option (\<lambda>(kh, ctx). encode_arkg_sign_args X ARKG_P256_ESP256 kh ctx)
        (fk_arkg_kh_and_ctx k)\<rparr>"

definition sign_inner ::
  "externals \<Rightarrow> 'w ctap2_transport \<Rightarrow> key_id \<Rightarrow> bytes \<Rightarrow> 'w env \<Rightarrow> 'w auth_callback
   \<Rightarrow> (fido_state \<times> 'w, bytes \<times> bool \<times> auth_factor option) weff" where
  "sign_inner X t kid data env auth =
     ebind (started ''sign'' env) (\<lambda>_.
     ebind get_state (\<lambda>p.
     ebind (elift (find_key (fd_keys p) kid)) (\<lambda>k.
     ebind (on_snd (on_progress env WaitingForUser)) (\<lambda>_.
     ebind (on_snd (rand_fill env 32)) (\<lambda>challenge.
     ebind (elift (sign_tbs X (key_algorithm k) data)) (\<lambda>tbs.
     ebind (on_snd (get_assertion X env t auth RAW_SIGN_RP_ID challenge (fk_credential_id k)
       (fido_sign_input X k tbs))) (\<lambda>result.
     ebind (completed env) (\<lambda>_.
     ebind (elift (raw_signature X (key_algorithm k) (sr_signature result))) (\<lambda>signature.
       ereturn (signature, sr_user_verified result, sr_verified_factor result))))))))))"

definition fido_sign ::
  "externals \<Rightarrow> 'w ctap2_transport \<Rightarrow> key_id \<Rightarrow> bytes \<Rightarrow> algorithm \<Rightarrow> 'w env \<Rightarrow> 'w auth_callback
   \<Rightarrow> (fido_state \<times> 'w, bytes) weff" where
  "fido_sign X t kid data alg env auth =
     ebind (sign_inner X t kid data env auth) (\<lambda>r. ereturn (fst r))"

definition fido_factors ::
  "'w ctap2_transport \<Rightarrow> bool \<Rightarrow> auth_factor option \<Rightarrow> pin_log \<Rightarrow> sign_options \<Rightarrow> auth_factors" where
  "fido_factors t user_verified verified_factor log opts =
     (if user_verified
      then derive_factors ''key_in_local_external_wscd'' (last_pin log)
             (performs_user_verification t) verified_factor opts
             (''no PIN was requested for this sign and the transport did not perform ''
              @ ''user verification'')
      else derive_factors ''key_in_local_external_wscd'' None False None opts
             ''the assertion did not carry the user-verified flag'')"

definition fido_sign_with_factors ::
  "externals \<Rightarrow> 'w ctap2_transport \<Rightarrow> key_id \<Rightarrow> bytes \<Rightarrow> algorithm \<Rightarrow> sign_options \<Rightarrow> 'w env
   \<Rightarrow> 'w auth_callback \<Rightarrow> (fido_state \<times> 'w, sign_outcome) weff" where
  "fido_sign_with_factors X t kid data alg opts env auth =
     ebind (elift (validate_options opts)) (\<lambda>_.
       if so_require_fresh opts \<and> performs_user_verification t
       then ethrow (Unsupported ''fido2'' (''require_fresh_user_authentication on a transport that ''
         @ ''performs user verification itself''))
       else
         ebind (run_recorded (sign_inner X (lift_transport t) kid data (lift_env env)
           (recording_auth X auth))) (\<lambda>((signature, user_verified, verified_factor), log).
           ereturn \<lparr>out_signature = signature,
                    out_factors = fido_factors t user_verified verified_factor log opts\<rparr>))"

definition fido_authentication_capability ::
  "'w ctap2_transport \<Rightarrow> fido_state \<Rightarrow> key_id \<Rightarrow> factor_capability wres" where
  "fido_authentication_capability t p kid =
     rbind (find_key (fd_keys p) kid) (\<lambda>_.
       Inr (if performs_user_verification t
            then capability_with_host_factor
              (''the transport performs user verification itself; if the authenticator ''
               @ ''supports WebAuthn's uvm extension the manager may derive the factor itself, ''
               @ ''but that is only known once the sign runs - until then, or if it doesn't, ''
               @ ''the host must supply host_verified_factor'')
            else capability_can))"

subsection \<open>The other methods\<close>

definition fido_list_keys :: "fido_state \<Rightarrow> key_info list" where
  "fido_list_keys p = sort_key (\<lambda>i. (ki_created_at i, ki_kid i))
     (map (\<lambda>k. \<lparr>ki_kid = fk_kid k, ki_algorithm = key_algorithm k, ki_plugin_id = ''fido2'',
                ki_created_at = fk_created_at k\<rparr>) (hm_values (fd_keys p)))"

definition fido_attestation_chain :: "key_id \<Rightarrow> fido_state \<Rightarrow> attestation_chain option wres" where
  "fido_attestation_chain kid p =
     rbind (find_key (fd_keys p) kid) (\<lambda>k.
       if fk_attestation_object k = [] then Inr None
       else Inr (Some \<lparr>ac_format = Opaque, ac_certificates = [],
                       ac_client_data_hash = fk_client_data_hash k,
                       ac_opaque_attestation = fk_attestation_object k\<rparr>))"

definition fido_delete_key :: "key_id \<Rightarrow> (fido_state \<times> 'w, unit) weff" where
  "fido_delete_key kid =
     ebind get_state (\<lambda>p.
     ebind (elift (find_key (fd_keys p) kid)) (\<lambda>_.
       modify_state (\<lambda>p. p\<lparr>fd_keys := hm_remove kid (fd_keys p)\<rparr>)))"

definition fido_export_public_key :: "externals \<Rightarrow> key_id \<Rightarrow> fido_state \<Rightarrow> json wres" where
  "fido_export_public_key X kid p =
     rbind (find_key (fd_keys p) kid) (\<lambda>k. Inr (build_public_key_jwk X k))"

definition fido_security_properties :: "fido_state \<Rightarrow> key_id \<Rightarrow> security_properties wres" where
  "fido_security_properties p kid =
     rbind (find_key (fd_keys p) kid) (\<lambda>k.
       Inr \<lparr>sp_key_storage = Hardware, sp_user_authentication = [],
            sp_certification = (if fk_has_dedicated_hardware_chain k
                                then AttestedDedicatedHardware else Unattested),
            sp_amr = [''hwk'', ''pop'']\<rparr>)"

subsection \<open>Lifecycle\<close>

definition fido_lifecycle_entry ::
  "fido_state \<Rightarrow> string \<Rightarrow> (factor_kind \<times> lifecycle_state \<times> int) option" where
  "fido_lifecycle_entry p cid = context_entry (fd_lifecycle p) cid"

definition fido_register_lifecycle ::
  "externals \<Rightarrow> 'w ctap2_transport \<Rightarrow> register_request \<Rightarrow> 'w env \<Rightarrow> 'w auth_callback
   \<Rightarrow> (fido_state \<times> 'w, lifecycle_outcome) weff" where
  "fido_register_lifecycle X t request env auth =
     (if rr_factor_kind request \<noteq> FkRawSign
      then ethrow (Unsupported ''fido2'' (''register_lifecycle(''
        @ debug_factor_kind (rr_factor_kind request) @ '')''))
      else
        ebind (fido_generate_key X t ES256 env auth) (\<lambda>generated.
        ebind (on_snd (now_unix env)) (\<lambda>now.
        ebind get_state (\<lambda>p.
          case register_lifecycle_context (fd_lifecycle p) (rr_context_id request)
                 (rr_factor_kind request) (gk_kid generated) now of
            (stale_ids, lifecycle, outcome) \<Rightarrow>
              ebind (modify_state (\<lambda>p. p\<lparr>fd_keys := hm_remove_all stale_ids (fd_keys p),
                                        fd_lifecycle := lifecycle\<rparr>)) (\<lambda>_. ereturn outcome)))))"

definition fido_activate_lifecycle ::
  "context_request \<Rightarrow> 'w env \<Rightarrow> 'w auth_callback \<Rightarrow> (fido_state \<times> 'w, lifecycle_outcome) weff" where
  "fido_activate_lifecycle request env auth =
     ebind (on_snd (now_unix env)) (\<lambda>now.
     ebind get_state (\<lambda>p.
     ebind (elift (activate_lifecycle_context (fd_lifecycle p) (cr_context_id request) now))
       (\<lambda>lifecycle.
     ebind (modify_state (\<lambda>p. p\<lparr>fd_lifecycle := lifecycle\<rparr>)) (\<lambda>_.
       ereturn \<lparr>lo_context_id = cr_context_id request, lo_state = Active\<rparr>))))"

definition fido_rotate_lifecycle ::
  "externals \<Rightarrow> 'w ctap2_transport \<Rightarrow> context_request \<Rightarrow> 'w env \<Rightarrow> 'w auth_callback
   \<Rightarrow> (fido_state \<times> 'w, lifecycle_outcome) weff" where
  "fido_rotate_lifecycle X t request env auth =
     ebind (fido_generate_key X t ES256 env auth) (\<lambda>generated.
     ebind (on_snd (now_unix env)) (\<lambda>now.
     ebind get_state (\<lambda>p.
     ebind (elift (rotate_lifecycle_push_key (fd_lifecycle p) (cr_context_id request)
       (gk_kid generated) now)) (\<lambda>(lifecycle, ctx).
     ebind (modify_state (\<lambda>p. p\<lparr>fd_lifecycle :=
       hm_insert (cr_context_id request) (ctx\<lparr>lc_state := Registered\<rparr>) lifecycle\<rparr>)) (\<lambda>_.
       ereturn \<lparr>lo_context_id = cr_context_id request, lo_state = Registered\<rparr>)))))"

text \<open>Destroying a context clears every key of the plugin, not only the context's.\<close>

definition fido_destroy_lifecycle ::
  "destroy_request \<Rightarrow> 'w env \<Rightarrow> 'w auth_callback \<Rightarrow> (fido_state \<times> 'w, destruction_outcome) weff" where
  "fido_destroy_lifecycle request env auth =
     ebind get_state (\<lambda>p.
       if \<not> hm_contains (fd_lifecycle p) (dr_context_id request)
       then ethrow (KeyNotFound (dr_context_id request))
       else
         ebind (modify_state (\<lambda>p. p\<lparr>fd_keys := []\<rparr>)) (\<lambda>_.
         ebind (on_snd (now_unix env)) (\<lambda>now.
         ebind (modify_state (\<lambda>p. p\<lparr>fd_lifecycle :=
           destroy_context (fd_lifecycle p) (dr_context_id request) now\<rparr>)) (\<lambda>_.
           ereturn \<lparr>do_context_id = dr_context_id request, do_state = Destroyed,
                    do_remote_performed = False\<rparr>))))"

definition fido_ops :: "externals \<Rightarrow> 'w ctap2_transport \<Rightarrow> (fido_state, 'w) plugin_ops" where
  "fido_ops X t =
     \<lparr>po_id = ''fido2'', po_auth_method = AuthNone,
      po_generate_key = fido_generate_key X t,
      po_sign = fido_sign X t,
      po_sign_with_factors = fido_sign_with_factors X t,
      po_authentication_capability = fido_authentication_capability t,
      po_list_keys = query (\<lambda>p. Inr (fido_list_keys p)),
      po_attestation_chain = (\<lambda>kid. query (fido_attestation_chain kid)),
      po_delete_key = fido_delete_key,
      po_export_public_key = (\<lambda>kid. query (fido_export_public_key X kid)),
      po_supports_import = False,
      po_import_key = unsupported_op ''fido2'' ''import_key'',
      po_security_properties = fido_security_properties,
      po_lifecycle_status = status_from_entry ''fido2'' fido_lifecycle_entry,
      po_register_lifecycle = fido_register_lifecycle X t,
      po_activate_lifecycle = fido_activate_lifecycle,
      po_rotate_lifecycle = fido_rotate_lifecycle X t,
      po_destroy_lifecycle = fido_destroy_lifecycle\<rparr>"

subsection \<open>What each operation does to the records\<close>

definition fd_inv :: "fido_state \<Rightarrow> bool" where
  "fd_inv p \<longleftrightarrow> hm_filed fk_kid (fd_keys p)"

definition fd_held :: "fido_state \<Rightarrow> key_id set" where
  "fd_held p = {k. hm_get (fd_keys p) k \<noteq> None}"

text \<open>A generated record: the coordinates and chain verdict it was made from.\<close>

definition generated_record ::
  "externals \<Rightarrow> make_credential_result \<Rightarrow> bytes \<Rightarrow> bytes \<Rightarrow> (bytes \<times> bytes) option \<Rightarrow> bytes \<Rightarrow> int
   \<Rightarrow> key_id \<Rightarrow> stored_fido_key" where
  "generated_record X result x y kh cdh now kid =
     \<lparr>fk_kid = kid, fk_credential_id = mr_credential_id result,
      fk_key_handle = pg_key_handle (mr_generated_key result), fk_pub_x = x, fk_pub_y = y,
      fk_algorithm = pg_algorithm (mr_generated_key result),
      fk_attestation_object = pg_attestation_object (mr_generated_key result),
      fk_has_dedicated_hardware_chain = attestation_object_has_dedicated_hardware_chain X
        (pg_attestation_object (mr_generated_key result)),
      fk_client_data_hash = cdh, fk_arkg_kh_and_ctx = kh, fk_created_at = now\<rparr>"

lemma generated_record_simps [simp]:
  "fk_kid (generated_record X result x y kh cdh now kid) = kid"
  "fk_pub_x (generated_record X result x y kh cdh now kid) = x"
  "fk_pub_y (generated_record X result x y kh cdh now kid) = y"
  "build_public_key_jwk X (generated_record X result x y kh cdh now kid) =
     jwk_ec X (if length x = BLS12381_G1_COORDINATE_LEN then ''BLS12381G1'' else ''P-256'') x y"
  by (simp_all add: generated_record_def build_public_key_jwk_def key_algorithm_def)

lemma store_generated_ok:
  assumes "store_generated_key X env result x y kh cdh (p, w) = (Inr g, (p', w'))"
  obtains now where
    "p' = p\<lparr>fd_keys := hm_insert (gk_kid g) (generated_record X result x y kh cdh now (gk_kid g))
       (fd_keys p)\<rparr>"
    "gk_public_key_jwk g = build_public_key_jwk X (generated_record X result x y kh cdh now (gk_kid g))"
    "jwk_thumbprint X (gk_public_key_jwk g) = Inr (gk_kid g)"
proof -
  let ?now = "fst (env_now env w)"
  have "p' = p\<lparr>fd_keys := hm_insert (gk_kid g) (generated_record X result x y kh cdh ?now (gk_kid g))
       (fd_keys p)\<rparr> \<and>
    gk_public_key_jwk g = build_public_key_jwk X (generated_record X result x y kh cdh ?now (gk_kid g)) \<and>
    jwk_thumbprint X (gk_public_key_jwk g) = Inr (gk_kid g)"
    using assms unfolding store_generated_key_def Let_def
    by (auto simp: eff_elims generated_record_def build_public_key_jwk_def key_algorithm_def)
  then show ?thesis using that by blast
qed

lemma store_generated_err:
  "store_generated_key X env result x y kh cdh (p, w) = (Inl e, (p', w')) \<Longrightarrow> p' = p"
  unfolding store_generated_key_def Let_def by (auto simp: eff_elims)

lemma fido_generate_ok:
  assumes "fido_generate_key X t alg env auth (p, w) = (Inr g, (p', w'))"
  obtains uid cdh result x y kh w1 w2 w3 w4 where "alg \<noteq> EdDSA"
    "make_credential X env t auth RAW_SIGN_RP_ID uid cdh
       [if alg = Bls12381G1Schnorr then ECSDSA_BLS12381_BP1_SHA256_SEC1 else ARKG_P256_ESP256] w1
     = (Inr result, w2)"
    "store_generated_key X env result x y kh cdh (p, w3) = (Inr g, (p', w4))"
  using assms unfolding fido_generate_key_def Let_def
  by (auto simp: eff_elims split: if_splits)

lemma fido_generate_err:
  "fido_generate_key X t alg env auth (p, w) = (Inl e, (p', w')) \<Longrightarrow> p' = p"
  unfolding fido_generate_key_def Let_def
  by (auto simp: eff_elims split: if_splits dest: store_generated_err)

lemma sign_inner_frame:
  assumes "sign_inner X t kid data env auth (p, w) = (r, (p', w'))"
  shows "p' = p" and "r = Inr x \<Longrightarrow> kid \<in> fd_held p"
  using assms unfolding sign_inner_def by (cases r; auto simp: eff_elims fd_held_def)+

lemma fido_sign_frame:
  assumes "fido_sign X t kid data alg env auth (p, w) = (r, (p', w'))"
  shows "p' = p" and "r = Inr sig \<Longrightarrow> kid \<in> fd_held p"
  using assms unfolding fido_sign_def
  by (cases r; auto simp: eff_elims dest: sign_inner_frame)+

lemma fido_factors_frame:
  assumes "fido_sign_with_factors X t kid data alg opts env auth (p, w) = (r, (p', w'))"
  shows "p' = p"
  using assms unfolding fido_sign_with_factors_def
  by (cases r) (auto simp: eff_elims run_recorded_eq split: if_splits dest: sign_inner_frame(1))

lemma fido_delete_cases:
  "fido_delete_key kid (p, w) =
     (case hm_get (fd_keys p) kid of
        Some _ \<Rightarrow> (Inr (), (p\<lparr>fd_keys := hm_remove kid (fd_keys p)\<rparr>, w))
      | None \<Rightarrow> (Inl (KeyNotFound kid), (p, w)))"
  by (auto simp: fido_delete_key_def find_key_def modify_state_def split: option.splits)

lemma fido_listing:
  assumes "fd_inv p"
  shows "ki_kid ` set (fido_list_keys p) = fd_held p" and "distinct (map ki_kid (fido_list_keys p))"
    and "\<forall>i \<in> set (fido_list_keys p). ki_plugin_id i = ''fido2''"
proof -
  let ?l = "map (\<lambda>k. \<lparr>ki_kid = fk_kid k, ki_algorithm = key_algorithm k, ki_plugin_id = ''fido2'',
                      ki_created_at = fk_created_at k\<rparr>) (hm_values (fd_keys p))"
  have "map ki_kid ?l = hm_keys (fd_keys p)"
    using hm_filed_values [of fk_kid "fd_keys p"] assms by (simp add: fd_inv_def o_def)
  then have l: "ki_kid ` set ?l = fd_held p" "distinct (map ki_kid ?l)"
    using listing_covers [of ?l "fd_keys p"] assms
    by (simp_all only: fd_inv_def hm_filed_def fd_held_def)
  show "ki_kid ` set (fido_list_keys p) = fd_held p" using l(1) by (simp add: fido_list_keys_def)
  show "distinct (map ki_kid (fido_list_keys p))"
    using l(2) unfolding fido_list_keys_def distinct_map_sort .
  show "\<forall>i \<in> set (fido_list_keys p). ki_plugin_id i = ''fido2''" by (auto simp: fido_list_keys_def)
qed

lemma fido_ops_simps [simp]:
  "po_id (fido_ops X t) = ''fido2''"
  "po_generate_key (fido_ops X t) = fido_generate_key X t"
  "po_sign (fido_ops X t) = fido_sign X t"
  "po_sign_with_factors (fido_ops X t) = fido_sign_with_factors X t"
  "po_list_keys (fido_ops X t) = query (\<lambda>p. Inr (fido_list_keys p))"
  "po_attestation_chain (fido_ops X t) = (\<lambda>kid. query (fido_attestation_chain kid))"
  "po_delete_key (fido_ops X t) = fido_delete_key"
  "po_export_public_key (fido_ops X t) = (\<lambda>kid. query (fido_export_public_key X kid))"
  "po_security_properties (fido_ops X t) = fido_security_properties"
  by (simp_all add: fido_ops_def)

interpretation fd: key_store "fido_ops X t" fd_inv fd_held for X t
proof
  fix p :: fido_state and alg env auth and w :: 'a and g p' w'
  assume "fd_inv p" and "po_generate_key (fido_ops X t) alg env auth (p, w) = (Inr g, (p', w'))"
  then show "fd_inv p' \<and> fd_held p' = insert (gk_kid g) (fd_held p)"
    by simp (erule fido_generate_ok, erule store_generated_ok, auto simp: fd_inv_def fd_held_def)
next
  fix p :: fido_state and alg env auth and w :: 'a and e p' w'
  assume "po_generate_key (fido_ops X t) alg env auth (p, w) = (Inl e, (p', w'))"
  then show "p' = p" by (simp add: fido_generate_err)
next
  fix p :: fido_state and kid data alg env auth and w :: 'a and r p' w'
  assume "po_sign (fido_ops X t) kid data alg env auth (p, w) = (r, (p', w'))"
  then show "p' = p" by (simp add: fido_sign_frame)
next
  fix p :: fido_state and kid data alg env auth and w :: 'a and sig p' w'
  assume "po_sign (fido_ops X t) kid data alg env auth (p, w) = (Inr sig, (p', w'))"
  then show "kid \<in> fd_held p" by (simp add: fido_sign_frame)
next
  fix p :: fido_state and kid data alg opts env auth and w :: 'a and r p' w'
  assume "po_sign_with_factors (fido_ops X t) kid data alg opts env auth (p, w) = (r, (p', w'))"
  then show "p' = p" by (simp add: fido_factors_frame)
next
  fix p :: fido_state and kid and w :: 'a and p' w'
  assume "fd_inv p" and "po_delete_key (fido_ops X t) kid (p, w) = (Inr (), (p', w'))"
  then show "fd_inv p' \<and> kid \<in> fd_held p \<and> fd_held p' = fd_held p - {kid}"
    by (auto simp: fido_delete_cases fd_inv_def fd_held_def split: option.splits if_splits)
next
  fix p :: fido_state and kid and w :: 'a and e p' w'
  assume "po_delete_key (fido_ops X t) kid (p, w) = (Inl e, (p', w'))"
  then show "p' = p" by (auto simp: fido_delete_cases split: option.splits)
next
  fix p :: fido_state and w :: 'a and rl p' w'
  assume i: "fd_inv p" and "po_list_keys (fido_ops X t) (p, w) = (rl, (p', w'))"
  then have "p' = p" "rl = Inr (fido_list_keys p)" by (auto simp: query_def)
  then show "p' = p \<and> (\<exists>infos. rl = Inr infos \<and> ki_kid ` set infos = fd_held p \<and>
      distinct (map ki_kid infos) \<and> (\<forall>i \<in> set infos. ki_plugin_id i = po_id (fido_ops X t)))"
    using fido_listing [OF i] by simp
next
  fix p :: fido_state and kid and w :: 'a and ra p' w'
  assume "po_attestation_chain (fido_ops X t) kid (p, w) = (ra, (p', w'))"
  then show "p' = p" by (simp add: query_def)
next
  fix p :: fido_state and kid and w :: 'a and re p' w'
  assume "po_export_public_key (fido_ops X t) kid (p, w) = (re, (p', w'))"
  then show "p' = p" by (simp add: query_def)
next
  fix p kid
  show "is_ok (po_security_properties (fido_ops X t) p kid) = (kid \<in> fd_held p)"
    by (cases "hm_get (fd_keys p) kid")
       (simp_all add: fido_security_properties_def fd_held_def find_key_def)
qed

subsection \<open>What the lifecycle does to the keys\<close>

text \<open>A context's keys, which registering it anew removes; destroying a context removes every key.\<close>

definition fd_context_keys :: "fido_state \<Rightarrow> string \<Rightarrow> key_id set" where
  "fd_context_keys p cid = (case hm_get (fd_lifecycle p) cid of Some c \<Rightarrow> set (lc_key_ids c) | None \<Rightarrow> {})"

definition fd_destroyed_keys :: "fido_state \<Rightarrow> string \<Rightarrow> key_id set" where
  "fd_destroyed_keys p cid = fd_held p"

lemma fido_generate_effect:
  assumes "fd_inv p" and "fido_generate_key X t alg env auth (p, w) = (r, (p', w'))"
  shows "fd_inv p'" and "fd_held p' = fd_held p \<union> new_key r" and "fd_lifecycle p' = fd_lifecycle p"
proof -
  have "fd_inv p' \<and> fd_held p' = fd_held p \<union> new_key r \<and> fd_lifecycle p' = fd_lifecycle p"
  proof (cases r)
    case (Inl e)
    then have "p' = p" using fido_generate_err assms(2) by simp
    then show ?thesis using Inl assms(1) by (simp add: new_key_def)
  next
    case (Inr g)
    from assms(2) [unfolded Inr] show ?thesis
    proof (rule fido_generate_ok)
      fix uid cdh result x y kh w1 w2 w3 w4
      assume "store_generated_key X env result x y kh cdh (p, w3) = (Inr g, (p', w4))"
      then show ?thesis
        by (rule store_generated_ok) (use Inr assms(1) in \<open>auto simp: new_key_def fd_inv_def fd_held_def\<close>)
    qed
  qed
  then show "fd_inv p'" "fd_held p' = fd_held p \<union> new_key r" "fd_lifecycle p' = fd_lifecycle p" by blast+
qed

lemma fido_register_run:
  assumes "fido_register_lifecycle X t rq env auth (p, w) = (Inr out, (p', w'))"
  shows "\<exists>g p1 w1 now. fido_generate_key X t ES256 env auth (p, w) = (Inr g, (p1, w1)) \<and>
    p' = p1\<lparr>fd_keys := hm_remove_all (case hm_get (fd_lifecycle p1) (rr_context_id rq) of
             Some old \<Rightarrow> lc_key_ids old | None \<Rightarrow> []) (fd_keys p1),
           fd_lifecycle := hm_insert (rr_context_id rq) \<lparr>lc_factor_kind = rr_factor_kind rq,
             lc_state = Registered, lc_updated_at = now, lc_key_ids = [gk_kid g]\<rparr> (fd_lifecycle p1)\<rparr>"
  using assms unfolding fido_register_lifecycle_def register_lifecycle_context_def
  by (force simp: eff_elims split: if_splits)

lemma fido_register_effect:
  assumes "fd_inv p" and run: "fido_register_lifecycle X t rq env auth (p, w) = (r, (p', w'))"
  shows "fd_inv p' \<and> fd_held p' =
    (if is_ok r then fd_held p \<union> new_key (fst (fido_generate_key X t ES256 env auth (p, w)))
       - fd_context_keys p (rr_context_id rq) else fd_held p)"
proof (cases r)
  case (Inl e)
  then have "p' = p"
    using run fido_generate_err unfolding fido_register_lifecycle_def register_lifecycle_context_def
    by (auto simp: eff_elims split: if_splits)
  then show ?thesis using Inl assms(1) by simp
next
  case (Inr out)
  obtain g p1 w1 now where g: "fido_generate_key X t ES256 env auth (p, w) = (Inr g, (p1, w1))"
    and p': "p' = p1\<lparr>fd_keys := hm_remove_all (case hm_get (fd_lifecycle p1) (rr_context_id rq) of
             Some old \<Rightarrow> lc_key_ids old | None \<Rightarrow> []) (fd_keys p1),
           fd_lifecycle := hm_insert (rr_context_id rq) \<lparr>lc_factor_kind = rr_factor_kind rq,
             lc_state = Registered, lc_updated_at = now, lc_key_ids = [gk_kid g]\<rparr> (fd_lifecycle p1)\<rparr>"
    using fido_register_run [OF run [unfolded Inr]] by blast
  note e = fido_generate_effect [OF assms(1) g]
  have "fd_held p' = fd_held p1 - fd_context_keys p (rr_context_id rq)" "fd_inv p'"
    using e(1,3) by (auto simp: p' fd_held_def fd_context_keys_def fd_inv_def split: option.splits)
  then show ?thesis using Inr e(2) g by simp
qed

lemma fido_rotate_effect:
  assumes "fd_inv p" and run: "fido_rotate_lifecycle X t cq env auth (p, w) = (r, (p', w'))"
  shows "fd_inv p' \<and> fd_held p' =
    (if not_supported r then fd_held p
     else fd_held p \<union> new_key (fst (fido_generate_key X t ES256 env auth (p, w))))"
proof -
  obtain q p1 w1 where g: "fido_generate_key X t ES256 env auth (p, w) = (q, (p1, w1))"
    by (metis prod.collapse)
  note e = fido_generate_effect [OF assms(1) g]
  show ?thesis
  proof (cases q)
    case (Inl err)
    then have "p' = p" using run g fido_generate_err unfolding fido_rotate_lifecycle_def
      by (cases r) (auto simp: ebind_Inl)
    then show ?thesis using Inl assms(1) g by (simp add: new_key_def)
  next
    case (Inr x)
    have "fd_keys p' = fd_keys p1 \<and> \<not> not_supported r"
      using run g Inr unfolding fido_rotate_lifecycle_def rotate_lifecycle_push_key_def
      by (cases r) (auto simp: eff_elims rbind_eq_Inr rbind_eq_Inl Let_def)
    then show ?thesis using e(1,2) g by (simp add: fd_inv_def fd_held_def)
  qed
qed

lemma fido_activate_effect:
  assumes "fido_activate_lifecycle cq env auth (p, w) = (r, (p', w'))"
  shows "fd_keys p' = fd_keys p"
  using assms unfolding fido_activate_lifecycle_def by (cases r) (auto simp: eff_elims)

interpretation fdm: managed_store "fido_ops X t" fd_inv fd_held fd_context_keys fd_destroyed_keys for X t
proof (unfold_locales, goal_cases)
  case (1 p alg env auth w r p' w')
  then show ?case by (auto simp: fido_ops_def unsupported_op_def imported_key_def)
next
  case (2 p rq env auth w r p' w')
  then show ?case using fido_register_effect [OF 2(1)] by (simp only: fido_ops_def plugin_ops.simps)
next
  case (3 p cq env auth w r p' w')
  then have "fd_keys p' = fd_keys p" using fido_activate_effect by (simp add: fido_ops_def)
  then show ?case using 3(1) by (simp add: fd_inv_def fd_held_def)
next
  case (4 p cq env auth w r p' w')
  then show ?case using fido_rotate_effect [OF 4(1)] by (simp only: fido_ops_def plugin_ops.simps)
next
  case (5 p dq env auth w r p' w')
  then have "fido_destroy_lifecycle dq env auth (p, w) = (r, (p', w'))" by (simp add: fido_ops_def)
  then show ?case
    using 5(1) unfolding fido_destroy_lifecycle_def
    by (cases r) (auto simp: eff_elims fd_inv_def fd_held_def fd_destroyed_keys_def split: if_splits)
qed

subsection \<open>Properties\<close>

lemma check_widths_ok:
  "check_widths ks = Inr () \<longleftrightarrow>
     list_all (\<lambda>k. length (fk_pub_x k) \<in> {32, 48} \<and> length (fk_pub_y k) = length (fk_pub_x k)) ks"
  by (induction ks) (auto simp: Let_def P256_COORDINATE_LEN_def BLS12381_G1_COORDINATE_LEN_def)

lemma find_distinct_key:
  "distinct (map f xs) \<Longrightarrow> find (\<lambda>v. f v = k) xs = Some v \<longleftrightarrow> v \<in> set xs \<and> f v = k"
  by (induction xs) auto

lemma find_sorted_key:
  assumes "distinct (map f xs)"
  shows "find (\<lambda>v. f v = k) (sort_key g xs) = find (\<lambda>v. f v = k) xs"
proof -
  have "distinct (map f (sort_key g xs))" using assms by (simp only: distinct_map_sort)
  then have "find (\<lambda>v. f v = k) (sort_key g xs) = Some v \<longleftrightarrow> find (\<lambda>v. f v = k) xs = Some v" for v
    using assms by (simp add: find_distinct_key)
  then show ?thesis by (metis not_None_eq)
qed

lemma fido_rebuild:
  assumes "fd_inv p"
  shows "hm_get (hm_first_of_records fk_kid (xf_keys (fido_exported p))) = hm_get (fd_keys p)"
proof
  fix k
  have d: "distinct (map fk_kid (hm_values (fd_keys p)))"
    using assms by (simp add: fd_inv_def hm_filed_values distinct_hm_keys hm_filed_def)
  show "hm_get (hm_first_of_records fk_kid (xf_keys (fido_exported p))) k = hm_get (fd_keys p) k"
    using hm_rebuild(2) [of fk_kid "fd_keys p" k] assms
    by (simp add: fido_exported_def hm_first_of_records_get find_sorted_key [OF d] fd_inv_def)
qed

text \<open>C33: an exported FIDO2 store restores exactly when its coordinates allow. For a store whose
  exported form serialises and parses back, the restore succeeds exactly when every key has two
  coordinates of one supported width, and then every record is back under its kid: one key of
  another width, which generation does accept, makes the whole store unloadable.\<close>

theorem fido_store_restores_iff_widths_ok:
  assumes "fd_inv p" and "parse bytes = Inr (fido_exported p)"
  shows "(list_all (\<lambda>k. length (fk_pub_x k) \<in> {32, 48} \<and> length (fk_pub_y k) = length (fk_pub_x k))
      (hm_values (fd_keys p)) \<and>
      (\<exists>q. fido_from_state parse bytes = Inr q \<and> hm_get (fd_keys q) = hm_get (fd_keys p) \<and>
         fd_lifecycle q = fd_lifecycle p)) \<or>
    (list_ex (\<lambda>k. length (fk_pub_x k) \<notin> {32, 48} \<or> length (fk_pub_y k) \<noteq> length (fk_pub_x k))
      (hm_values (fd_keys p)) \<and> (\<exists>msg. fido_from_state parse bytes = Inl (Serialization msg)))"
proof -
  let ?P = "\<lambda>k. length (fk_pub_x k) \<in> {32, 48} \<and> length (fk_pub_y k) = length (fk_pub_x k)"
  have s: "set (xf_keys (fido_exported p)) = set (hm_values (fd_keys p))"
    by (simp add: fido_exported_def)
  have w: "check_widths (xf_keys (fido_exported p)) = Inr () \<longleftrightarrow> list_all ?P (hm_values (fd_keys p))"
    unfolding check_widths_ok list_all_iff s by blast
  have e: "\<exists>msg. check_widths ks = Inl (Serialization msg)" if "check_widths ks \<noteq> Inr ()" for ks
    using that by (induction ks) (auto simp: Let_def)
  show ?thesis
  proof (cases "list_all ?P (hm_values (fd_keys p))")
    case True
    then show ?thesis
      using w fido_rebuild [OF assms(1)] assms(2)
      by (simp add: fido_from_state_def) (simp add: fido_exported_def)
  next
    case False
    then have "check_widths (xf_keys (fido_exported p)) \<noteq> Inr ()" using w by simp
    then obtain msg where "check_widths (xf_keys (fido_exported p)) = Inl (Serialization msg)"
      using e by blast
    moreover have "list_ex (\<lambda>k. length (fk_pub_x k) \<notin> {32, 48} \<or>
        length (fk_pub_y k) \<noteq> length (fk_pub_x k)) (hm_values (fd_keys p))"
      using False by (auto simp: list_all_iff list_ex_iff)
    ultimately show ?thesis using assms(2) by (simp add: fido_from_state_def)
  qed
qed

definition wide_key :: stored_fido_key where
  "wide_key = \<lparr>fk_kid = ''k'', fk_credential_id = [], fk_key_handle = [], fk_pub_x = replicate 66 1,
     fk_pub_y = replicate 66 2, fk_algorithm = -7, fk_attestation_object = [],
     fk_has_dedicated_hardware_chain = False, fk_client_data_hash = [],
     fk_arkg_kh_and_ctx = None, fk_created_at = 0\<rparr>"

theorem fido_store_restores_iff_widths_ok_witness:
  "\<exists>msg. fido_from_state (\<lambda>bs. Inr (fido_exported \<lparr>fd_keys = [(''k'', wide_key)], fd_lifecycle = []\<rparr>)) [1]
     = Inl (Serialization msg)"
proof -
  let ?p = "\<lparr>fd_keys = [(''k'', wide_key)], fd_lifecycle = []\<rparr>"
  have "fd_inv ?p" by (auto simp: fd_inv_def hm_filed_def hm_wf_def hm_get_def wide_key_def)
  then show ?thesis
    using fido_store_restores_iff_widths_ok [of ?p "\<lambda>bs. Inr (fido_exported ?p)" "[1]"]
    by (simp add: hm_values_def wide_key_def)
qed

subsection \<open>A sign beside its recorder\<close>

text \<open>
  The recorder of a sign only listens: a step that asks for nothing runs as it would without it, and a
  whole assertion has the same outcome, with the classes of the PINs typed meanwhile in the log.
\<close>

lemma on_snd_steps:
  "on_snd (ereturn x) = ereturn x" "on_snd (ethrow e) = ethrow e" "on_snd (elift r) = elift r"
  "on_snd (ebind m f) = ebind (on_snd m) (\<lambda>x. on_snd (f x))"
  "on_snd (case z of (a, b) \<Rightarrow> g a b) = (case z of (a, b) \<Rightarrow> on_snd (g a b))"
  by (auto simp: fun_eq_iff on_snd_apply ebind_apply split: sum.split prod.split)

lemma lifted_steps:
  "rand_fill (lift_env env) n = on_snd (rand_fill env n)"
  "generate_secret (lift_env env) = on_snd (generate_secret env)"
  "on_progress (lift_env env) g = on_snd (on_progress env g)"
  by (auto simp: fun_eq_iff on_snd_apply rand_fill_def generate_secret_def on_progress_def etotal_apply
      lift_env_def split: prod.split)

lemma pick_iv_lifted: "pick_iv (lift_env env) p = on_snd (pick_iv env p)"
  by (cases p) (simp_all add: pick_iv_def on_snd_steps lifted_steps)

lemma lifted_exchange:
  "read_pin_info X (lift_transport t) = on_snd (read_pin_info X t)"
  "set_pin X (lift_env env) (lift_transport t) p pin = on_snd (set_pin X env t p pin)"
  "token_with_pin X (lift_env env) (lift_transport t) p pin perm rp =
     on_snd (token_with_pin X env t p pin perm rp)"
  by (simp_all add: read_pin_info_def set_pin_def token_with_pin_def get_key_agreement_def encrypt_def
      send_get_pin_token_def lifted_steps pick_iv_lifted on_snd_steps)

text \<open>The one PIN an exchange asks for: a new one when the authenticator has none.\<close>

definition ask_for_pin :: "externals \<Rightarrow> 'w ctap2_transport \<Rightarrow> 'w auth_callback \<Rightarrow> ('w, bytes) weff" where
  "ask_for_pin X t auth =
     ebind (read_pin_info X t) (\<lambda>info. request_pin_for auth ''fido2''
       (if pi_pin_state info = PinNotSet then SetNewPin (pi_min_pin_length info) else EnterPin))"

lemma record_pin_apply:
  "record_pin X p ask (log, w) =
     (fst (ask w), (case fst (ask w) of Inr s \<Rightarrow> log @ [classify_pin X p s] | Inl _ \<Rightarrow> log, snd (ask w)))"
  by (simp add: record_pin_def ebind_apply on_snd_apply split: sum.split)

lemma recorded_request:
  "request_pin_for (recording_auth X auth) p k = record_pin X p (request_pin_for auth p k)"
  by (simp add: recording_auth_def)

text \<open>What \<open>acquire_pin_uv_auth_token\<close> does with the PIN that was typed.\<close>

definition use_pin ::
  "externals \<Rightarrow> 'w env \<Rightarrow> 'w ctap2_transport \<Rightarrow> authenticator_pin_info \<Rightarrow> byte \<Rightarrow> string option \<Rightarrow> bytes
   \<Rightarrow> ('w, pin_uv_auth_session) weff" where
  "use_pin X env t info perm rp raw =
     (if pi_pin_state info = PinNotSet
      then ebind (elift (validate_new_pin X raw (pi_min_pin_length info))) (\<lambda>text.
        ebind (set_pin X env t (pi_protocol info) (utf8_encode text)) (\<lambda>_.
          token_with_pin X env t (pi_protocol info) (utf8_encode text) perm rp))
      else if 0 \<in> set (normalize_pin X raw) then ethrow (Pin InvalidEncoding)
      else token_with_pin X env t (pi_protocol info) (normalize_pin X raw) perm rp)"

lemma acquire_asks_once:
  "acquire_pin_uv_auth_token X env t auth pid perm rp =
     ebind (read_pin_info X t) (\<lambda>info.
     ebind (request_pin_for auth pid
       (if pi_pin_state info = PinNotSet then SetNewPin (pi_min_pin_length info) else EnterPin)) (\<lambda>raw.
       use_pin X env t info perm rp raw))"
  unfolding acquire_pin_uv_auth_token_def use_pin_def Let_def
  by (rule arg_cong [where f = "ebind (read_pin_info X t)"]) (simp add: fun_eq_iff)

lemma use_pin_lifted:
  "use_pin X (lift_env env) (lift_transport t) info perm rp raw = on_snd (use_pin X env t info perm rp raw)"
  by (simp add: use_pin_def lifted_exchange on_snd_steps)

lemma recorded_acquire:
  assumes "acquire_pin_uv_auth_token X (lift_env env) (lift_transport t) (recording_auth X auth) ''fido2''
      perm rp (log, w) = (Inr s, (log', w'))"
  shows "acquire_pin_uv_auth_token X env t auth ''fido2'' perm rp w = (Inr s, w')"
    and "\<exists>pin. fst (ask_for_pin X t auth w) = Inr pin \<and> log' = log @ [classify_pin X ''fido2'' pin]"
proof -
  obtain info w1 where i: "read_pin_info X t w = (Inr info, w1)"
    and rest: "ebind (record_pin X ''fido2'' (request_pin_for auth ''fido2''
        (if pi_pin_state info = PinNotSet then SetNewPin (pi_min_pin_length info) else EnterPin)))
      (\<lambda>raw. on_snd (use_pin X env t info perm rp raw)) (log, w1) = (Inr s, (log', w'))"
    using assms unfolding acquire_asks_once use_pin_lifted recorded_request lifted_exchange
    by (auto simp: ebind_eq_Inr on_snd_eq)
  let ?ask = "request_pin_for auth ''fido2''
    (if pi_pin_state info = PinNotSet then SetNewPin (pi_min_pin_length info) else EnterPin)"
  obtain raw w2 where a: "?ask w1 = (Inr raw, w2)" "use_pin X env t info perm rp raw w2 = (Inr s, w')"
    "log' = log @ [classify_pin X ''fido2'' raw]"
    using rest by (cases "?ask w1")
      (auto simp: ebind_eq_Inr record_pin_apply on_snd_eq simp del: if_split split: sum.splits)
  show "acquire_pin_uv_auth_token X env t auth ''fido2'' perm rp w = (Inr s, w')"
    unfolding acquire_asks_once using i a by (simp only: ebind_Inr)
  have "ask_for_pin X t auth w = (Inr raw, w2)"
    unfolding ask_for_pin_def using i a by (simp only: ebind_Inr)
  then show "\<exists>pin. fst (ask_for_pin X t auth w) = Inr pin \<and> log' = log @ [classify_pin X ''fido2'' pin]"
    using a(3) by simp
qed

lemma recorded_assertion:
  assumes "get_assertion X (lift_env env) (lift_transport t) (recording_auth X auth) rp ch cid sign (log, w)
      = (Inr result, (log', w'))"
  shows "get_assertion X env t auth rp ch cid sign w = (Inr result, w') \<and>
    (if performs_user_verification t then log' = log
     else \<exists>pin. fst (ask_for_pin X t auth w) = Inr pin \<and> log' = log @ [classify_pin X ''fido2'' pin])"
proof (cases "performs_user_verification t")
  case True
  then show ?thesis
    using assms by (auto simp: get_assertion_def pin_uv_auth_for_def eff_elims)
next
  case False
  obtain s log1 w1 where a: "acquire_pin_uv_auth_token X (lift_env env) (lift_transport t)
      (recording_auth X auth) ''fido2'' PERMISSION_GET_ASSERTION (Some rp) (log, w) = (Inr s, (log1, w1))"
    and rest: "ebind (on_snd (ctap2_send_command t (build_get_assertion_request X rp ch cid sign
        (Some (authenticate X s ch, protocol_int s)))))
      (\<lambda>response. elift (parse_get_assertion_response X response)) (log1, w1) = (Inr result, (log', w'))"
    using assms False by (auto simp: get_assertion_def pin_uv_auth_for_def ebind_eq_Inr)
  note r = recorded_acquire [OF a]
  have "get_assertion X env t auth rp ch cid sign w = (Inr result, w')" "log' = log1"
    using rest r(1) False
    by (auto simp: get_assertion_def pin_uv_auth_for_def ebind_eq_Inr on_snd_eq)
  then show ?thesis using r(2) False by simp
qed

text \<open>The factors without a shortfall, from what the sign observed.\<close>

lemma fido_factors_complete:
  "fs_shortfall (fido_factors t uv vf log opts) = None \<longleftrightarrow>
     uv \<and>
     (case last_pin log of
        Some (Some m) \<Rightarrow> m \<in> set (category_methods Knowledge)
      | Some None \<Rightarrow> False
      | None \<Rightarrow> performs_user_verification t \<and>
          (\<exists>f. or_else vf (so_host_factor opts) = Some f \<and> in_vocabulary f \<and> af_category f \<noteq> Possession))"
proof -
  have p: "''key_in_local_external_wscd'' \<in> set (category_methods Possession)" by simp
  show ?thesis
    by (auto simp: fido_factors_def derive_factors_two_categories [OF p] second_factor_def in_vocabulary_def
        split: option.splits)
qed

text \<open>The user-verified bit of an assertion, read off the authenticator's answer.\<close>

definition answer_verified :: "externals \<Rightarrow> bytes \<Rightarrow> bool" where
  "answer_verified X answer =
     (case from_reader X (tl answer) of
        Inr (CMap m) \<Rightarrow> (case get_bytes_by_int m 2 of Some d \<Rightarrow> d ! 32 AND 0x04 \<noteq> 0 | None \<Rightarrow> False)
      | _ \<Rightarrow> False)"

lemma parsed_verified:
  assumes "parse_get_assertion_response X answer = Inr result"
  shows "sr_user_verified result = answer_verified X answer"
proof -
  obtain body v m d sig f where a: "split_status answer = Inr body" "from_reader X body = Inr v"
    "as_map v = Some m" "get_bytes_by_int m 2 = Some d" "extract_previewsign_signature X d = Inr sig"
    "result = \<lparr>sr_signature = sig, sr_user_verified =
        (case list_at 32 d of Some flags \<Rightarrow> flags AND AUTH_DATA_FLAG_UV \<noteq> 0 | None \<Rightarrow> False),
      sr_verified_factor = f\<rparr>"
    using assms by (auto simp: parse_get_assertion_response_def rbind_eq_Inr read_cbor_def)
  have "37 < length d" using a(5) by (auto simp: extract_previewsign_signature_def Let_def split: if_splits)
  moreover have "body = tl answer"
    using a(1) by (simp add: split_status_ok)
  moreover have "v = CMap m" using a(3) by (cases v) simp_all
  ultimately show ?thesis using a by (simp add: answer_verified_def list_at_def AUTH_DATA_FLAG_UV_def)
qed

lemma answered_assertion:
  assumes "get_assertion X env t auth rp ch cid sign w = (Inr result, w')"
  shows "\<exists>param w0 answer. ctap2_send_command t (build_get_assertion_request X rp ch cid sign param) w0
      = (Inr answer, w') \<and> parse_get_assertion_response X answer = Inr result"
  using assms by (auto simp: get_assertion_def eff_elims)

lemma sign_inner_run:
  assumes "sign_inner X t kid data env auth (p, w) = (Inr (sig, uv, vf), (p', w'))"
  obtains k tbs ch w1 result w2 where "hm_get (fd_keys p) kid = Some k"
    "sign_tbs X (key_algorithm k) data = Inr tbs"
    "rand_fill env 32 (env_progress env WaitingForUser (env_progress env (Started ''sign'') w)) = (Inr ch, w1)"
    "get_assertion X env t auth RAW_SIGN_RP_ID ch (fk_credential_id k) (fido_sign_input X k tbs) w1
      = (Inr result, w2)"
    "raw_signature X (key_algorithm k) (sr_signature result) = Inr sig"
    "uv = sr_user_verified result" "vf = sr_verified_factor result" "w' = env_progress env Complete w2"
proof -
  let ?w = "env_progress env WaitingForUser (env_progress env (Started ''sign'') w)"
  obtain k tbs result w2 where "hm_get (fd_keys p) kid = Some k"
    "sign_tbs X (key_algorithm k) data = Inr tbs"
    "get_assertion X env t auth RAW_SIGN_RP_ID (fst (env_rand env 32 ?w)) (fk_credential_id k)
      (fido_sign_input X k tbs) (snd (env_rand env 32 ?w)) = (Inr result, w2)"
    "raw_signature X (key_algorithm k) (sr_signature result) = Inr sig"
    "uv = sr_user_verified result" "vf = sr_verified_factor result" "w' = env_progress env Complete w2"
    using assms unfolding sign_inner_def by (auto simp: eff_elims)
  moreover have "rand_fill env 32 ?w = (Inr (fst (env_rand env 32 ?w)), snd (env_rand env 32 ?w))"
    by (simp add: rand_fill_eq)
  ultimately show thesis using that by blast
qed

text \<open>C3: when a FIDO2 sign is a two-factor sign. A sign with factors that succeeds has run one assertion over its
  own random challenge, with the credential of the key and the digest of the data, and its signature is that
  assertion's. The factors it reports have no shortfall exactly when the authenticator data of the answer to this
  very command carries the user-verified bit and a second factor can be named: on a transport that verifies the user
  itself, a factor of another category than possession that this answer reports or, failing that, the host asserted;
  on any other, the PIN the user typed during this sign, when it can be classified. A PIN that was typed but not
  classified is final.\<close>

theorem fido_two_factor_iff:
  assumes "fido_sign_with_factors X t kid data alg opts env auth (p, w) = (Inr out, (p', w'))"
  shows "\<exists>k tbs challenge w1 result w2 param w0 answer.
    hm_get (fd_keys p) kid = Some k \<and> sign_tbs X (key_algorithm k) data = Inr tbs \<and>
    rand_fill env 32 (env_progress env WaitingForUser (env_progress env (Started ''sign'') w))
      = (Inr challenge, w1) \<and>
    get_assertion X env t auth RAW_SIGN_RP_ID challenge (fk_credential_id k) (fido_sign_input X k tbs) w1
      = (Inr result, w2) \<and>
    ctap2_send_command t (build_get_assertion_request X RAW_SIGN_RP_ID challenge (fk_credential_id k)
      (fido_sign_input X k tbs) param) w0 = (Inr answer, w2) \<and>
    parse_get_assertion_response X answer = Inr result \<and>
    raw_signature X (key_algorithm k) (sr_signature result) = Inr (out_signature out) \<and>
    (fs_shortfall (out_factors out) = None \<longleftrightarrow> answer_verified X answer \<and>
      (if performs_user_verification t
       then \<exists>f. or_else (sr_verified_factor result) (so_host_factor opts) = Some f \<and> in_vocabulary f \<and>
         af_category f \<noteq> Possession
       else \<exists>pin m. fst (ask_for_pin X t auth w1) = Inr pin \<and> classify_pin X ''fido2'' pin = Some m))"
proof -
  obtain sig uv vf log where run: "sign_inner X (lift_transport t) kid data (lift_env env)
      (recording_auth X auth) (p, ([], w)) = (Inr (sig, uv, vf), (p', (log, w')))"
    and out: "out = \<lparr>out_signature = sig, out_factors = fido_factors t uv vf log opts\<rparr>"
    using assms unfolding fido_sign_with_factors_def by (auto simp: eff_elims run_recorded_eq split: if_splits)
  obtain k tbs ch v1 result v2 where k: "hm_get (fd_keys p) kid = Some k"
      "sign_tbs X (key_algorithm k) data = Inr tbs"
    and r: "rand_fill (lift_env env) 32 (env_progress (lift_env env) WaitingForUser
      (env_progress (lift_env env) (Started ''sign'') ([], w))) = (Inr ch, v1)"
    and a: "get_assertion X (lift_env env) (lift_transport t) (recording_auth X auth) RAW_SIGN_RP_ID ch
      (fk_credential_id k) (fido_sign_input X k tbs) v1 = (Inr result, v2)"
    and s: "raw_signature X (key_algorithm k) (sr_signature result) = Inr sig"
    and u: "uv = sr_user_verified result" "vf = sr_verified_factor result"
      "(log, w') = env_progress (lift_env env) Complete v2"
    using run by (rule sign_inner_run)
  let ?w = "env_progress env WaitingForUser (env_progress env (Started ''sign'') w)"
  obtain w1 where w1: "v1 = ([], w1)" "rand_fill env 32 ?w = (Inr ch, w1)"
    using r by (cases v1) (auto simp: lift_env_def rand_fill_eq split: prod.splits)
  obtain w2 where w2: "v2 = (log, w2)" using u(3) by (cases v2) (simp add: lift_env_def)
  note a' = recorded_assertion [OF a [unfolded w1 w2]]
  obtain param w0 answer where c: "ctap2_send_command t (build_get_assertion_request X RAW_SIGN_RP_ID ch
      (fk_credential_id k) (fido_sign_input X k tbs) param) w0 = (Inr answer, w2)"
      "parse_get_assertion_response X answer = Inr result"
    using answered_assertion [OF conjunct1 [OF a']] by blast
  have "fs_shortfall (out_factors out) = None \<longleftrightarrow> answer_verified X answer \<and>
      (if performs_user_verification t
       then \<exists>f. or_else (sr_verified_factor result) (so_host_factor opts) = Some f \<and> in_vocabulary f \<and>
         af_category f \<noteq> Possession
       else \<exists>pin m. fst (ask_for_pin X t auth w1) = Inr pin \<and> classify_pin X ''fido2'' pin = Some m)"
    using conjunct2 [OF a'] classify_pin_vocabulary [of X "''fido2''"]
    by (auto simp: out u fido_factors_complete parsed_verified [OF c(2)] last_pin_def list_last_def
        in_vocabulary_def simp del: category_methods.simps split: if_splits option.splits)
  then show ?thesis using k w1(2) conjunct1 [OF a'] c s by (auto simp: out)
qed

definition signing_key :: stored_fido_key where
  "signing_key = \<lparr>fk_kid = ''k'', fk_credential_id = [2], fk_key_handle = [3], fk_pub_x = replicate 32 1,
     fk_pub_y = replicate 32 2, fk_algorithm = -7, fk_attestation_object = [],
     fk_has_dedicated_hardware_chain = False, fk_client_data_hash = [],
     fk_arkg_kh_and_ctx = None, fk_created_at = 0\<rparr>"

definition verified_assertion :: sign_result where
  "verified_assertion = \<lparr>sr_signature = replicate 64 5, sr_user_verified = True, sr_verified_factor = None\<rparr>"

definition fingerprint_options :: sign_options where
  "fingerprint_options = \<lparr>so_require_fresh = False,
     so_host_factor = Some \<lparr>af_category = Inherence, af_method = ''fingerprint_device''\<rparr>\<rparr>"

lemma verified_assertion_parses:
  "parse_get_assertion_response ref_externals (encode_get_assertion_response ref_externals verified_assertion)
     = Inr verified_assertion"
proof -
  have e: "cbor_ok (assertion_extensions verified_assertion)"
    by (simp add: verified_assertion_def assertion_extensions_def)
  have d: "cbor_ok (CMap [(CInteger 2, CBytes (assertion_auth_data ref_externals verified_assertion))])"
    using assertion_auth_data_fields(1) [of ref_externals verified_assertion]
    by (simp add: verified_assertion_def assertion_extensions_def enc_head_def)
  have "cbor_enc ref_externals (assertion_extensions verified_assertion) \<noteq> []"
    by (simp add: assertion_extensions_def enc_head_def)
  then show ?thesis
    using get_assertion_response_roundtrip [OF ref_cbor_roundtrips [OF e] ref_cbor_roundtrips [OF d]]
    by (simp add: verified_assertion_def reported_factor_def)
qed

theorem fido_two_factor_iff_witness:
  "\<exists>out s. fido_sign_with_factors ref_externals
     (ref_transport True (encode_get_assertion_response ref_externals verified_assertion)) ''k'' [9] ES256
     fingerprint_options ref_env (ref_auth []) (\<lparr>fd_keys = [(''k'', signing_key)], fd_lifecycle = []\<rparr>, 0)
   = (Inr out, s) \<and> fs_shortfall (out_factors out) = None"
proof -
  let ?answer = "encode_get_assertion_response ref_externals verified_assertion"
  let ?t = "ref_transport True ?answer" and ?p = "\<lparr>fd_keys = [(''k'', signing_key)], fd_lifecycle = []\<rparr>"
  have k: "hm_get (fd_keys ?p) ''k'' = Some signing_key" by (simp add: hm_get_def)
  have raw: "raw_signature ref_externals (key_algorithm signing_key) (sr_signature verified_assertion)
      = Inr (replicate 64 5)"
    by (simp add: raw_signature_def der_signature_to_raw_def key_algorithm_def signing_key_def
        BLS12381_G1_COORDINATE_LEN_def verified_assertion_def ref_externals_def signs_prehashed_input_def)
  have tbs: "sign_tbs ref_externals (key_algorithm signing_key) [9] = Inr (ref_hash [9])"
    by (simp add: sign_tbs_def key_algorithm_def signing_key_def BLS12381_G1_COORDINATE_LEN_def
        signs_prehashed_input_def)
  obtain out p' w' where run: "fido_sign_with_factors ref_externals ?t ''k'' [9] ES256 fingerprint_options
      ref_env (ref_auth []) (?p, 0) = (Inr out, (p', w'))"
  proof -
    have a: "get_assertion ref_externals (lift_env ref_env) (lift_transport ?t) (recording_auth ref_externals
        (ref_auth [])) rp ch cid sign (log, n) = (Inr verified_assertion, (log, Suc n))" for rp ch cid sign log n
      by (simp add: get_assertion_def pin_uv_auth_for_def ebind_apply on_snd_apply verified_assertion_parses)
    have n: "env_rand (lift_env ref_env) i (log, m) = (replicate i (of_nat m), (log, Suc m))"
      for i m and log :: pin_log by (simp add: lift_env_def)
    have "\<exists>r s. sign_inner ref_externals (lift_transport ?t) ''k'' [9] (lift_env ref_env) (recording_auth ref_externals
        (ref_auth [])) (?p, ([], 0)) = (Inr r, s)"
      using k raw tbs
      by (simp add: sign_inner_def started_def completed_def get_state_def find_key_def ebind_apply
        on_snd_apply lifted_steps on_progress_def a n rand_fill_def etotal_apply)
    then obtain r q where "sign_inner ref_externals (lift_transport ?t) ''k'' [9] (lift_env ref_env)
        (recording_auth ref_externals (ref_auth [])) (?p, ([], 0)) = (Inr r, q)" by blast
    then show thesis
      using that
      by (cases r, cases q, cases "snd q")
        (simp add: fido_sign_with_factors_def validate_options_def fingerprint_options_def
          auth_factor_new_def run_recorded_def ebind_apply)
  qed
  have v: "answer_verified ref_externals ?answer"
    using parsed_verified [OF verified_assertion_parses] by (simp add: verified_assertion_def)
  have "fs_shortfall (out_factors out) = None"
    using fido_two_factor_iff [OF run] v
    by (auto simp: verified_assertion_parses fingerprint_options_def in_vocabulary_def)
       (simp add: verified_assertion_def)
  then show ?thesis using run by blast
qed

text \<open>Destroying one FIDO2 context destroys every key. A successful destruction of any context
  leaves the plugin without keys, those of other contexts and of none included, while the other
  contexts still list theirs.\<close>

lemma fido_destroy_clears_every_key:
  assumes "fido_destroy_lifecycle dq env auth (p, w) = (Inr out, (p', w'))"
  shows "fd_held p' = {} \<and>
    (\<forall>cid \<in> - {dr_context_id dq}. hm_get (fd_lifecycle p') cid = hm_get (fd_lifecycle p) cid)"
  using assms
  by (auto simp: fido_destroy_lifecycle_def eff_elims fd_held_def destroy_context_def
      split: option.splits if_splits)

end
