(* ===== verification/R2ps.thy ===== *)
theory R2ps
  imports Manager Uvm
begin

section \<open>The remote HSM plugin: src/plugins/r2ps.rs\<close>

text \<open>
  Keys live on a remote HSM reached through the package \<open>r2ps-client\<close>, which is not part of the
  repository: \<open>r2ps_client\<close> is the record of its methods, over its own state \<open>'c\<close> (the session
  behind the plugin's mutex) and the outside world. A WebAuthn operation of the client calls the
  plugin's \<open>AuthCallbackCeremonyAdapter\<close> back while it runs. Such a call is a \<open>dialogue\<close>, a tree that
  branches over the adapter's answers: the client can use the adapter in no other way than by
  calling its two methods. \<open>run_dialogue\<close> answers a dialogue with the adapter.

  Locking that recovers from poisoning and \<open>block_in_place\<close> have no counterpart: an operation of the
  model runs to its end. The lemmas show what the adapter's counters mean, that a failed lifecycle
  operation changes no context, and how a sign uses the OPAQUE session.
\<close>

subsection \<open>The client\<close>

text \<open>The fields of \<open>HsmKeyInfo\<close> the plugin reads.\<close>

record hsm_key_info =
  hk_kid :: string
  hk_creation_time :: int
  hk_public_key :: string

text \<open>The two variants of \<open>R2psError\<close> the adapter constructs.\<close>

datatype ceremony_error = Base64Failed string | ProtocolFailed string

text \<open>
  \<open>'s\<close> is the client's state with the outside world, \<open>'g\<close> and \<open>'a\<close> the client's types of a
  registration and an assertion, \<open>'r\<close> the result; a failure is given by its text.
\<close>

datatype ('s, 'g, 'a, 'r) dialogue =
    Finished "string + 'r" 's
  | AskCredential string string string 's "(ceremony_error + 'g) \<times> 's \<Rightarrow> ('s, 'g, 'a, 'r) dialogue"
  | AskAssertion string string "string list" 's
      "(ceremony_error + 'a) \<times> 's \<Rightarrow> ('s, 'g, 'a, 'r) dialogue"

record ('c, 'w, 'g, 'a) r2ps_client =
  cl_is_authenticated :: "'c \<Rightarrow> bool"
  cl_authenticate :: "bytes \<Rightarrow> ('c \<times> 'w, string, unit) eff"
  cl_register :: "bytes \<Rightarrow> ('c \<times> 'w, string, unit) eff"
  cl_generate_key :: "('c \<times> 'w, string, bytes) eff"
  cl_list_keys :: "string list \<Rightarrow> ('c \<times> 'w, string, hsm_key_info list) eff"
  cl_sign :: "bytes \<Rightarrow> bytes \<Rightarrow> ('c \<times> 'w, string, bytes) eff"
  cl_wi_revoke :: "string option \<Rightarrow> ('c \<times> 'w, string, unit) eff"
  cl_register_fido2 :: "string \<Rightarrow> 'c \<times> 'w \<Rightarrow> ('c \<times> 'w, 'g, 'a, unit) dialogue"
  cl_authenticate_fido2 :: "string \<Rightarrow> string \<Rightarrow> string list \<Rightarrow> 'c \<times> 'w
    \<Rightarrow> ('c \<times> 'w, 'g, 'a, unit) dialogue"
  cl_sign_with_sad :: "string \<Rightarrow> string list \<Rightarrow> string \<Rightarrow> bytes \<Rightarrow> 'c \<times> 'w
    \<Rightarrow> ('c \<times> 'w, 'g, 'a, bytes) dialogue"

text \<open>
  Further functions of packages this plugin alone uses: serde on the client's types, the field
  \<open>authenticator_data\<close> of an assertion, standard base64, SPKI decoding, and the text of a
  \<open>FromUtf8Error\<close>.
\<close>

record ('g, 'a) r2ps_codec =
  parse_registration :: "bytes \<Rightarrow> string + 'g"
  parse_assertion :: "bytes \<Rightarrow> string + 'a"
  authenticator_data :: "'a \<Rightarrow> string"
  b64_dec :: "string \<Rightarrow> string + bytes"
  p256_from_spki :: "bytes \<Rightarrow> string + p256_point"
  utf8_error_text :: "bytes \<Rightarrow> string"

subsection \<open>The ceremony adapter\<close>

datatype factor_agreement = Unseen | Agreed auth_factor | Disagreed

record ceremony_state =
  cm_assertions :: nat
  cm_uv_assertions :: nat
  cm_verified_factor :: factor_agreement

definition ceremony_new :: ceremony_state where
  "ceremony_new = \<lparr>cm_assertions = 0, cm_uv_assertions = 0, cm_verified_factor = Unseen\<rparr>"

definition decode_authenticator_data :: "externals \<Rightarrow> string \<Rightarrow> bytes option" where
  "decode_authenticator_data X b64 = res_ok (b64url_dec X b64)"

definition authenticator_data_uv_flag :: "externals \<Rightarrow> string \<Rightarrow> bool" where
  "authenticator_data_uv_flag X b64 =
     (case Option.bind (decode_authenticator_data X b64) (list_at 32) of
        Some flags \<Rightarrow> flags AND 0x04 \<noteq> 0
      | None \<Rightarrow> False)"

definition classify_authenticator_data_uvm :: "externals \<Rightarrow> string \<Rightarrow> auth_factor option" where
  "classify_authenticator_data_uvm X b64 =
     Option.bind (decode_authenticator_data X b64) (\<lambda>d.
     Option.bind (parse_uvm_extension X d) classify_uvm_for_ts12)"

definition record_assertion :: "externals \<Rightarrow> string \<Rightarrow> ceremony_state \<Rightarrow> ceremony_state" where
  "record_assertion X b64 cm =
     \<lparr>cm_assertions = cm_assertions cm + 1,
      cm_uv_assertions = (if authenticator_data_uv_flag X b64 then cm_uv_assertions cm + 1
                          else cm_uv_assertions cm),
      cm_verified_factor =
        (case (cm_verified_factor cm, classify_authenticator_data_uvm X b64) of
           (Unseen, Some f) \<Rightarrow> Agreed f
         | (Agreed prev, Some f) \<Rightarrow> if prev = f then Agreed f else Disagreed
         | _ \<Rightarrow> Disagreed)\<rparr>"

definition all_assertions_user_verified :: "ceremony_state \<Rightarrow> bool" where
  "all_assertions_user_verified cm \<longleftrightarrow> cm_assertions cm > 0 \<and> cm_uv_assertions cm = cm_assertions cm"

definition agreed_verified_factor :: "ceremony_state \<Rightarrow> auth_factor option" where
  "agreed_verified_factor cm =
     (if \<not> all_assertions_user_verified cm then None
      else (case cm_verified_factor cm of Agreed f \<Rightarrow> Some f | _ \<Rightarrow> None))"

text \<open>The two methods of \<open>Fido2Ceremony\<close>.\<close>

definition decode_challenge :: "externals \<Rightarrow> string \<Rightarrow> ceremony_error + bytes" where
  "decode_challenge X challenge = map_err Base64Failed (b64url_dec X challenge)"

fun decode_credential_ids :: "externals \<Rightarrow> string list \<Rightarrow> ceremony_error + bytes list" where
  "decode_credential_ids X [] = Inr []"
| "decode_credential_ids X (c # cs) =
     rbind (map_err (\<lambda>e. Base64Failed (''invalid credential ID '' @ single_quote @ c @ single_quote
       @ '': '' @ e)) (b64url_dec X c)) (\<lambda>i.
     rbind (decode_credential_ids X cs) (\<lambda>is. Inr (i # is)))"

definition ask_host :: "'w auth_callback \<Rightarrow> bytes \<Rightarrow> string \<Rightarrow> bytes list \<Rightarrow> ('w, ceremony_error, bytes) eff" where
  "ask_host auth challenge rp_id allowed =
     ecatch (request_webauthn_assertion auth ''r2ps'' challenge rp_id allowed)
       (\<lambda>e. ethrow (ProtocolFailed (''auth callback failed: '' @ show_error e)))"

definition create_credential ::
  "externals \<Rightarrow> ('g, 'a) r2ps_codec \<Rightarrow> 'w auth_callback \<Rightarrow> string \<Rightarrow> string \<Rightarrow> string
   \<Rightarrow> ('w, ceremony_error, 'g) eff" where
  "create_credential X R auth challenge rp_id user_id =
     ebind (elift (decode_challenge X challenge)) (\<lambda>challenge_bytes.
     ebind (ask_host auth challenge_bytes rp_id []) (\<lambda>assertion_json.
       elift (map_err (\<lambda>e. ProtocolFailed (''invalid registration JSON: '' @ e))
         (parse_registration R assertion_json))))"

text \<open>The adapter's state sits beside the outside world.\<close>

definition adapter_get_assertion ::
  "externals \<Rightarrow> ('g, 'a) r2ps_codec \<Rightarrow> 'w auth_callback \<Rightarrow> string \<Rightarrow> string \<Rightarrow> string list
   \<Rightarrow> (ceremony_state \<times> 'w, ceremony_error, 'a) eff" where
  "adapter_get_assertion X R auth challenge rp_id allow_credentials =
     ebind (elift (decode_challenge X challenge)) (\<lambda>challenge_bytes.
     ebind (elift (decode_credential_ids X allow_credentials)) (\<lambda>cred_ids.
     ebind (on_snd (ask_host auth challenge_bytes rp_id cred_ids)) (\<lambda>assertion_json.
     ebind (elift (map_err (\<lambda>e. ProtocolFailed (''invalid assertion JSON: '' @ e))
       (parse_assertion R assertion_json))) (\<lambda>result.
     ebind (emodify (\<lambda>(cm, w). (record_assertion X (authenticator_data R result) cm, w))) (\<lambda>_.
       ereturn result)))))"

primrec run_dialogue ::
  "externals \<Rightarrow> ('g, 'a) r2ps_codec \<Rightarrow> 'w auth_callback \<Rightarrow> ('c \<times> 'w, 'g, 'a, 'r) dialogue
   \<Rightarrow> ceremony_state \<Rightarrow> (string + 'r) \<times> ceremony_state \<times> 'c \<times> 'w" where
  "run_dialogue X R auth (Finished r s) = (\<lambda>cm. (r, cm, s))"
| "run_dialogue X R auth (AskCredential challenge rp user s k) = (\<lambda>cm.
     case create_credential X R auth challenge rp user (snd s) of
       (a, w) \<Rightarrow> run_dialogue X R auth (k (a, (fst s, w))) cm)"
| "run_dialogue X R auth (AskAssertion challenge rp allow s k) = (\<lambda>cm.
     case adapter_get_assertion X R auth challenge rp allow (cm, snd s) of
       (a, (cm', w)) \<Rightarrow> run_dialogue X R auth (k (a, (fst s, w))) cm')"

subsection \<open>The plugin\<close>

record r2ps_context =
  rx_factor_kind :: factor_kind
  rx_state :: lifecycle_state
  rx_updated_at :: int

record 'c r2ps_state =
  r2_client :: 'c
  r2_last_amr :: "string list"
  r2_lifecycle :: "(string, r2ps_context) hashmap"

definition r2ps_new :: "'c \<Rightarrow> r2ps_config \<Rightarrow> 'c r2ps_state wres" where
  "r2ps_new client config =
     (if rc_auth_mode config = ''webauthn'' \<and> rc_rp_id config = []
      then Inl (Plugin ''R2PS WebAuthn mode requires a non-empty rp_id'')
      else Inr \<lparr>r2_client = client, r2_last_amr = [], r2_lifecycle = []\<rparr>)"

text \<open>
  A call of the client inside the critical section of \<open>inner\<close>, with \<open>map_err\<close> of its error to
  \<open>Plugin\<close> under a prefix; and a call that runs a ceremony with a fresh adapter, whose final state
  the caller reads.
\<close>

definition on_client ::
  "string \<Rightarrow> ('c \<times> 'w, string, 'r) eff \<Rightarrow> ('c r2ps_state \<times> 'w, 'r) weff" where
  "on_client prefix m s =
     (case m (r2_client (fst s), snd s) of
        (r, (c, w)) \<Rightarrow> (map_err (\<lambda>e. Plugin (prefix @ e)) r, ((fst s)\<lparr>r2_client := c\<rparr>, w)))"

definition in_ceremony ::
  "externals \<Rightarrow> ('g, 'a) r2ps_codec \<Rightarrow> 'w auth_callback \<Rightarrow> string
   \<Rightarrow> ('c \<times> 'w \<Rightarrow> ('c \<times> 'w, 'g, 'a, 'r) dialogue)
   \<Rightarrow> ('c r2ps_state \<times> 'w, 'r \<times> ceremony_state) weff" where
  "in_ceremony X R auth prefix d s =
     (case run_dialogue X R auth (d (r2_client (fst s), snd s)) ceremony_new of
        (r, cm, c, w) \<Rightarrow>
          (rbind (map_err (\<lambda>e. Plugin (prefix @ e)) r) (\<lambda>x. Inr (x, cm)),
           ((fst s)\<lparr>r2_client := c\<rparr>, w)))"

definition collect_opaque_pin ::
  "r2ps_config \<Rightarrow> ('c \<Rightarrow> bool) \<Rightarrow> 'v auth_callback \<Rightarrow> bool \<Rightarrow> ('c r2ps_state \<times> 'v, bytes option) weff" where
  "collect_opaque_pin config is_authenticated auth fresh =
     (if rc_auth_mode config \<noteq> ''opaque''
      then ethrow (Plugin (''unknown R2PS auth mode: '' @ rc_auth_mode config))
      else
        ebind get_state (\<lambda>p.
          if \<not> fresh \<and> is_authenticated (r2_client p) then ereturn None
          else ebind (on_snd (request_pin auth ''r2ps'')) (\<lambda>pin. ereturn (Some pin))))"

definition register_fido2 ::
  "externals \<Rightarrow> ('g, 'a) r2ps_codec \<Rightarrow> r2ps_config \<Rightarrow> ('c, 'w, 'g, 'a) r2ps_client
   \<Rightarrow> 'w auth_callback \<Rightarrow> ('c r2ps_state \<times> 'w, unit) weff" where
  "register_fido2 X R config client auth =
     ebind (in_ceremony X R auth ''FIDO2 registration failed: ''
       (cl_register_fido2 client (rc_rp_id config))) (\<lambda>_. ereturn ())"

definition sign_with_sad_sync ::
  "externals \<Rightarrow> ('g, 'a) r2ps_codec \<Rightarrow> r2ps_config \<Rightarrow> ('c, 'w, 'g, 'a) r2ps_client
   \<Rightarrow> 'w auth_callback \<Rightarrow> key_id \<Rightarrow> bytes \<Rightarrow> ('c r2ps_state \<times> 'w, bytes \<times> ceremony_state) weff" where
  "sign_with_sad_sync X R config client auth kid data =
     in_ceremony X R auth ''R2PS sign_with_sad failed: ''
       (cl_sign_with_sad client (rc_rp_id config) (rc_allowed_credential_ids config) kid data)"

definition convert_key_info :: "hsm_key_info \<Rightarrow> key_info" where
  "convert_key_info info = \<lparr>ki_kid = hk_kid info, ki_algorithm = ES256, ki_plugin_id = ''r2ps'',
     ki_created_at = hk_creation_time info\<rparr>"

definition public_key_jwk_from_spki :: "externals \<Rightarrow> ('g, 'a) r2ps_codec \<Rightarrow> string \<Rightarrow> json wres" where
  "public_key_jwk_from_spki X R spki_b64 =
     rbind (map_err Crypto (b64_dec R spki_b64)) (\<lambda>spki_der.
     rbind (map_err (\<lambda>e. Crypto (''invalid SPKI: '' @ e)) (p256_from_spki R spki_der)) (\<lambda>pubkey.
       Inr (jwk_ec X ''P-256'' (pt_x pubkey) (pt_y pubkey))))"

text \<open>The key's entry in the HSM's current list, and its public key.\<close>

definition jwk_of_listed ::
  "externals \<Rightarrow> ('g, 'a) r2ps_codec \<Rightarrow> string \<Rightarrow> hsm_key_info list \<Rightarrow> json wres" where
  "jwk_of_listed X R kid keys =
     rbind (ok_or (KeyNotFound kid) (find (\<lambda>k. hk_kid k = kid) keys)) (\<lambda>key_info.
       public_key_jwk_from_spki X R (hk_public_key key_info))"

definition r2ps_generate_key ::
  "externals \<Rightarrow> ('g, 'a) r2ps_codec \<Rightarrow> ('c, 'w, 'g, 'a) r2ps_client \<Rightarrow> algorithm \<Rightarrow> 'w env
   \<Rightarrow> 'w auth_callback \<Rightarrow> ('c r2ps_state \<times> 'w, generated_key) weff" where
  "r2ps_generate_key X R client alg env auth =
     ebind (started ''generate_key'' env) (\<lambda>_.
     ebind (on_snd (on_progress env (NetworkRoundTrip 1 2))) (\<lambda>_.
     ebind (on_client ''R2PS keygen failed: '' (cl_generate_key client)) (\<lambda>kid_bytes.
     ebind (elift (ok_or (Plugin (''invalid kid: '' @ utf8_error_text R kid_bytes))
       (map_option (\<lambda>_. of_bytes kid_bytes) (utf8_decode kid_bytes)))) (\<lambda>kid.
     ebind (on_client ''R2PS list_keys failed: '' (cl_list_keys client [''P-256''])) (\<lambda>keys.
     ebind (elift (jwk_of_listed X R kid keys)) (\<lambda>jwk.
     ebind (completed env) (\<lambda>_. ereturn \<lparr>gk_kid = kid, gk_public_key_jwk = jwk\<rparr>)))))))"

text \<open>The two ways of signing.\<close>

definition sign_webauthn ::
  "externals \<Rightarrow> ('g, 'a) r2ps_codec \<Rightarrow> r2ps_config \<Rightarrow> ('c, 'w, 'g, 'a) r2ps_client \<Rightarrow> key_id \<Rightarrow> bytes
   \<Rightarrow> sign_options \<Rightarrow> 'w env \<Rightarrow> 'w auth_callback \<Rightarrow> ('c r2ps_state \<times> 'w, bytes \<times> auth_factors) weff" where
  "sign_webauthn X R config client kid data opts env auth =
     ebind (on_snd (on_progress env (NetworkRoundTrip 1 1))) (\<lambda>_.
     ebind (sign_with_sad_sync X R config client auth kid data) (\<lambda>(result, ceremony).
     ebind (modify_state (\<lambda>p. p\<lparr>r2_last_amr := [''hwk'', ''pop'', ''pin'']\<rparr>)) (\<lambda>_.
       ereturn (result, derive_factors ''key_in_remote_wscd'' None
         (all_assertions_user_verified ceremony) (agreed_verified_factor ceremony) opts
         ''the WebAuthn assertion did not carry the user-verified flag''))))"

definition sign_opaque ::
  "externals \<Rightarrow> r2ps_config \<Rightarrow> ('c, 'w, 'g, 'a) r2ps_client \<Rightarrow> key_id \<Rightarrow> bytes \<Rightarrow> sign_options \<Rightarrow> 'w env
   \<Rightarrow> 'w auth_callback \<Rightarrow> ('c r2ps_state \<times> 'w, bytes \<times> auth_factors) weff" where
  "sign_opaque X config client kid data opts env auth =
     ebind (run_recorded (collect_opaque_pin config (cl_is_authenticated client)
       (recording_auth X auth) (so_require_fresh opts))) (\<lambda>(pin, log).
     ebind (on_snd (on_progress env (NetworkRoundTrip 1 1))) (\<lambda>_.
     ebind (case pin of
              Some pin \<Rightarrow> on_client ''OPAQUE auth failed: '' (cl_authenticate client pin)
            | None \<Rightarrow> ereturn ()) (\<lambda>_.
     ebind (on_client ''R2PS sign failed: '' (cl_sign client (as_bytes kid) data)) (\<lambda>result.
     ebind (modify_state (\<lambda>p. p\<lparr>r2_last_amr := [''pwd'']\<rparr>)) (\<lambda>_.
       ereturn (result, derive_factors ''key_in_remote_wscd'' (last_pin log) False None opts
         (''no PIN was entered for this sign: a cached session was reused ''
          @ ''(set require_fresh_user_authentication)'')))))))"

definition r2ps_sign_with_factors ::
  "externals \<Rightarrow> ('g, 'a) r2ps_codec \<Rightarrow> r2ps_config \<Rightarrow> ('c, 'w, 'g, 'a) r2ps_client \<Rightarrow> key_id \<Rightarrow> bytes
   \<Rightarrow> algorithm \<Rightarrow> sign_options \<Rightarrow> 'w env \<Rightarrow> 'w auth_callback \<Rightarrow> ('c r2ps_state \<times> 'w, sign_outcome) weff" where
  "r2ps_sign_with_factors X R config client kid data alg opts env auth =
     ebind (elift (validate_options opts)) (\<lambda>_.
       if so_require_fresh opts \<and> rc_auth_mode config = ''webauthn''
       then ethrow (Unsupported ''r2ps'' ''require_fresh_user_authentication in WebAuthn mode'')
       else
         ebind (started ''sign'' env) (\<lambda>_.
         ebind (on_snd (on_progress env WaitingForUser)) (\<lambda>_.
         ebind (if rc_auth_mode config = ''webauthn''
                then sign_webauthn X R config client kid data opts env auth
                else sign_opaque X config client kid data opts env auth) (\<lambda>(sig_bytes, factors).
         ebind (completed env) (\<lambda>_.
           ereturn \<lparr>out_signature = sig_bytes, out_factors = factors\<rparr>)))))"

definition r2ps_sign ::
  "externals \<Rightarrow> ('g, 'a) r2ps_codec \<Rightarrow> r2ps_config \<Rightarrow> ('c, 'w, 'g, 'a) r2ps_client \<Rightarrow> key_id \<Rightarrow> bytes
   \<Rightarrow> algorithm \<Rightarrow> 'w env \<Rightarrow> 'w auth_callback \<Rightarrow> ('c r2ps_state \<times> 'w, bytes) weff" where
  "r2ps_sign X R config client kid data alg env auth =
     ebind (r2ps_sign_with_factors X R config client kid data alg
       \<lparr>so_require_fresh = False, so_host_factor = None\<rparr> env auth) (\<lambda>out. ereturn (out_signature out))"

subsection \<open>The other methods\<close>

definition r2ps_auth_method :: "r2ps_config \<Rightarrow> auth_method" where
  "r2ps_auth_method config = (if rc_auth_mode config = ''webauthn'' then AuthWebAuthn else AuthOpaque)"

definition r2ps_authentication_capability ::
  "r2ps_config \<Rightarrow> 'c r2ps_state \<Rightarrow> key_id \<Rightarrow> factor_capability wres" where
  "r2ps_authentication_capability config p kid =
     Inr (if rc_auth_mode config = ''opaque'' then capability_can
          else if rc_auth_mode config = ''webauthn'' then capability_with_host_factor
            (''WebAuthn user verification does not say how the user was verified unless ''
             @ ''the host's ceremony requested the uvm extension and it classifies cleanly ''
             @ ''(known only once the sign runs); until then, or if it doesn't, ''
             @ ''the host must supply host_verified_factor'')
          else capability_cannot (''unknown R2PS auth mode: '' @ rc_auth_mode config))"

definition r2ps_list_keys :: "('c, 'w, 'g, 'a) r2ps_client \<Rightarrow> ('c r2ps_state \<times> 'w, key_info list) weff" where
  "r2ps_list_keys client =
     ebind (on_client ''R2PS list_keys failed: '' (cl_list_keys client [''P-256''])) (\<lambda>keys.
       ereturn (map convert_key_info keys))"

definition r2ps_attestation_chain :: "key_id \<Rightarrow> 'c r2ps_state \<Rightarrow> attestation_chain option wres" where
  "r2ps_attestation_chain kid p = Inr None"

definition r2ps_delete_key :: "key_id \<Rightarrow> ('c r2ps_state \<times> 'w, unit) weff" where
  "r2ps_delete_key kid = ethrow (Unsupported ''r2ps'' ''delete_key'')"

definition r2ps_export_public_key ::
  "externals \<Rightarrow> ('g, 'a) r2ps_codec \<Rightarrow> ('c, 'w, 'g, 'a) r2ps_client \<Rightarrow> key_id
   \<Rightarrow> ('c r2ps_state \<times> 'w, json) weff" where
  "r2ps_export_public_key X R client kid =
     ebind (on_client ''R2PS list_keys failed: '' (cl_list_keys client [''P-256''])) (\<lambda>keys.
       elift (jwk_of_listed X R kid keys))"

text \<open>The same for every kid; \<open>amr\<close> is that of the last sign.\<close>

definition r2ps_security_properties :: "'c r2ps_state \<Rightarrow> key_id \<Rightarrow> security_properties wres" where
  "r2ps_security_properties p kid =
     Inr \<lparr>sp_key_storage = RemoteHsm, sp_user_authentication = [''iso_18045_high''],
          sp_certification = Unattested, sp_amr = r2_last_amr p\<rparr>"

subsection \<open>Lifecycle\<close>

definition r2ps_lifecycle_entry ::
  "'c r2ps_state \<Rightarrow> string \<Rightarrow> (factor_kind \<times> lifecycle_state \<times> int) option" where
  "r2ps_lifecycle_entry p cid = map_option
     (\<lambda>c. (rx_factor_kind c, rx_state c, rx_updated_at c)) (hm_get (r2_lifecycle p) cid)"

definition r2ps_factor_kind :: "string \<Rightarrow> 'c r2ps_state \<Rightarrow> factor_kind wres" where
  "r2ps_factor_kind cid p =
     ok_or (KeyNotFound cid) (map_option rx_factor_kind (hm_get (r2_lifecycle p) cid))"

text \<open>\<open>if let Some(ctx) = lifecycle.get_mut(..)\<close> and \<open>lifecycle.insert(..)\<close>.\<close>

definition set_context_state ::
  "string \<Rightarrow> lifecycle_state \<Rightarrow> int \<Rightarrow> 'c r2ps_state \<Rightarrow> 'c r2ps_state" where
  "set_context_state cid st now p =
     (case hm_get (r2_lifecycle p) cid of
        Some ctx \<Rightarrow> p\<lparr>r2_lifecycle :=
          hm_insert cid (ctx\<lparr>rx_state := st, rx_updated_at := now\<rparr>) (r2_lifecycle p)\<rparr>
      | None \<Rightarrow> p)"

definition insert_context ::
  "string \<Rightarrow> factor_kind \<Rightarrow> lifecycle_state \<Rightarrow> int \<Rightarrow> 'c r2ps_state \<Rightarrow> 'c r2ps_state" where
  "insert_context cid fk st now p =
     p\<lparr>r2_lifecycle := hm_insert cid
       \<lparr>rx_factor_kind = fk, rx_state = st, rx_updated_at = now\<rparr> (r2_lifecycle p)\<rparr>"

definition register_factor ::
  "externals \<Rightarrow> ('g, 'a) r2ps_codec \<Rightarrow> r2ps_config \<Rightarrow> ('c, 'w, 'g, 'a) r2ps_client \<Rightarrow> factor_kind
   \<Rightarrow> 'w auth_callback \<Rightarrow> ('c r2ps_state \<times> 'w, unit) weff" where
  "register_factor X R config client kind auth =
     (case kind of
        FkOpaque \<Rightarrow>
          ebind (on_snd (request_pin auth ''r2ps'')) (\<lambda>pin.
            on_client ''OPAQUE registration failed: '' (cl_register client pin))
      | FkWebAuthn \<Rightarrow>
          if rc_rp_id config = [] then ethrow (Plugin ''R2PS WebAuthn mode requires non-empty rp_id'')
          else register_fido2 X R config client auth
      | FkRawSign \<Rightarrow> ethrow (Unsupported ''r2ps'' ''register_lifecycle(raw_sign)''))"

definition r2ps_register_lifecycle ::
  "externals \<Rightarrow> ('g, 'a) r2ps_codec \<Rightarrow> r2ps_config \<Rightarrow> ('c, 'w, 'g, 'a) r2ps_client
   \<Rightarrow> register_request \<Rightarrow> 'w env \<Rightarrow> 'w auth_callback \<Rightarrow> ('c r2ps_state \<times> 'w, lifecycle_outcome) weff" where
  "r2ps_register_lifecycle X R config client request env auth =
     ebind (started ''register_lifecycle'' env) (\<lambda>_.
     ebind (register_factor X R config client (rr_factor_kind request) auth) (\<lambda>_.
     ebind (on_snd (now_unix env)) (\<lambda>now.
     ebind (modify_state (insert_context (rr_context_id request) (rr_factor_kind request)
       Registered now)) (\<lambda>_.
     ebind (completed env) (\<lambda>_.
       ereturn \<lparr>lo_context_id = rr_context_id request, lo_state = Registered\<rparr>)))))"

definition activate_factor ::
  "externals \<Rightarrow> ('g, 'a) r2ps_codec \<Rightarrow> r2ps_config \<Rightarrow> ('c, 'w, 'g, 'a) r2ps_client \<Rightarrow> factor_kind
   \<Rightarrow> 'w auth_callback \<Rightarrow> ('c r2ps_state \<times> 'w, unit) weff" where
  "activate_factor X R config client kind auth =
     (case kind of
        FkOpaque \<Rightarrow>
          ebind (on_snd (request_pin auth ''r2ps'')) (\<lambda>pin.
            on_client ''OPAQUE auth failed: '' (cl_authenticate client pin))
      | FkWebAuthn \<Rightarrow>
          ebind (in_ceremony X R auth ''FIDO2 auth failed: ''
            (cl_authenticate_fido2 client (rc_rp_id config) ''session''
              (rc_allowed_credential_ids config))) (\<lambda>_. ereturn ())
      | FkRawSign \<Rightarrow> ethrow (Unsupported ''r2ps'' ''activate_lifecycle(raw_sign)''))"

definition r2ps_activate_lifecycle ::
  "externals \<Rightarrow> ('g, 'a) r2ps_codec \<Rightarrow> r2ps_config \<Rightarrow> ('c, 'w, 'g, 'a) r2ps_client
   \<Rightarrow> context_request \<Rightarrow> 'w env \<Rightarrow> 'w auth_callback \<Rightarrow> ('c r2ps_state \<times> 'w, lifecycle_outcome) weff" where
  "r2ps_activate_lifecycle X R config client request env auth =
     ebind (started ''activate_lifecycle'' env) (\<lambda>_.
     ebind get_state (\<lambda>p.
     ebind (elift (r2ps_factor_kind (cr_context_id request) p)) (\<lambda>kind.
     ebind (activate_factor X R config client kind auth) (\<lambda>_.
     ebind (on_snd (now_unix env)) (\<lambda>now.
     ebind (modify_state (set_context_state (cr_context_id request) Active now)) (\<lambda>_.
     ebind (completed env) (\<lambda>_.
       ereturn \<lparr>lo_context_id = cr_context_id request, lo_state = Active\<rparr>)))))))"

definition r2ps_rotate_lifecycle ::
  "externals \<Rightarrow> ('g, 'a) r2ps_codec \<Rightarrow> r2ps_config \<Rightarrow> ('c, 'w, 'g, 'a) r2ps_client
   \<Rightarrow> context_request \<Rightarrow> 'w env \<Rightarrow> 'w auth_callback \<Rightarrow> ('c r2ps_state \<times> 'w, lifecycle_outcome) weff" where
  "r2ps_rotate_lifecycle X R config client request env auth =
     ebind get_state (\<lambda>p.
     ebind (elift (r2ps_factor_kind (cr_context_id request) p)) (\<lambda>kind.
     ebind (r2ps_register_lifecycle X R config client
       \<lparr>rr_plugin_id = cr_plugin_id request, rr_context_id = cr_context_id request,
        rr_factor_kind = kind\<rparr> env auth) (\<lambda>_.
     ebind (on_snd (now_unix env)) (\<lambda>now.
     ebind (modify_state (set_context_state (cr_context_id request) Registered now)) (\<lambda>_.
       ereturn \<lparr>lo_context_id = cr_context_id request, lo_state = Registered\<rparr>)))))"

text \<open>The attempt at remote revocation: whether it was performed, or the error that ends a strict destroy.\<close>

definition revoke_remote ::
  "('c, 'w, 'g, 'a) r2ps_client \<Rightarrow> destroy_request \<Rightarrow> ('c r2ps_state \<times> 'w, bool) weff" where
  "revoke_remote client request =
     (if dr_mode request = LocalOnly then ereturn False
      else
        ecatch (ebind (on_client ''strict destroy failed remote revoke: ''
                  (cl_wi_revoke client (dr_reason request))) (\<lambda>_. ereturn True))
          (\<lambda>e. if dr_mode request = Strict then ethrow e else ereturn False))"

definition r2ps_destroy_lifecycle ::
  "('c, 'w, 'g, 'a) r2ps_client \<Rightarrow> destroy_request \<Rightarrow> 'w env \<Rightarrow> 'w auth_callback
   \<Rightarrow> ('c r2ps_state \<times> 'w, destruction_outcome) weff" where
  "r2ps_destroy_lifecycle client request env auth =
     ebind (started ''destroy_lifecycle'' env) (\<lambda>_.
     ebind (revoke_remote client request) (\<lambda>remote_performed.
     ebind (on_snd (now_unix env)) (\<lambda>now.
     ebind (modify_state (insert_context (dr_context_id request) FkOpaque Destroyed now)) (\<lambda>_.
     ebind (completed env) (\<lambda>_.
       ereturn \<lparr>do_context_id = dr_context_id request, do_state = Destroyed,
                do_remote_performed = remote_performed\<rparr>)))))"

definition r2ps_ops ::
  "externals \<Rightarrow> ('g, 'a) r2ps_codec \<Rightarrow> r2ps_config \<Rightarrow> ('c, 'w, 'g, 'a) r2ps_client
   \<Rightarrow> ('c r2ps_state, 'w) plugin_ops" where
  "r2ps_ops X R config client =
     \<lparr>po_id = ''r2ps'', po_auth_method = r2ps_auth_method config,
      po_generate_key = r2ps_generate_key X R client,
      po_sign = r2ps_sign X R config client,
      po_sign_with_factors = r2ps_sign_with_factors X R config client,
      po_authentication_capability = r2ps_authentication_capability config,
      po_list_keys = r2ps_list_keys client,
      po_attestation_chain = (\<lambda>kid. query (r2ps_attestation_chain kid)),
      po_delete_key = r2ps_delete_key,
      po_export_public_key = r2ps_export_public_key X R client,
      po_supports_import = False,
      po_import_key = unsupported_op ''r2ps'' ''import_key'',
      po_security_properties = r2ps_security_properties,
      po_lifecycle_status = status_from_entry ''r2ps'' r2ps_lifecycle_entry,
      po_register_lifecycle = r2ps_register_lifecycle X R config client,
      po_activate_lifecycle = r2ps_activate_lifecycle X R config client,
      po_rotate_lifecycle = r2ps_rotate_lifecycle X R config client,
      po_destroy_lifecycle = r2ps_destroy_lifecycle client\<rparr>"

subsection \<open>What the client can change\<close>

lemma on_client_eq [eff_elims]:
  "on_client prefix m s = (r, t) \<longleftrightarrow>
     (\<exists>r0 c. m (r2_client (fst s), snd s) = (r0, (c, snd t)) \<and>
        r = map_err (\<lambda>e. Plugin (prefix @ e)) r0 \<and> fst t = (fst s)\<lparr>r2_client := c\<rparr>)"
  by (cases t) (auto simp: on_client_def split: prod.splits)

lemma in_ceremony_eq [eff_elims]:
  "in_ceremony X R auth prefix d s = (r, t) \<longleftrightarrow>
     (\<exists>r0 cm c. run_dialogue X R auth (d (r2_client (fst s), snd s)) ceremony_new = (r0, cm, c, snd t) \<and>
        r = rbind (map_err (\<lambda>e. Plugin (prefix @ e)) r0) (\<lambda>x. Inr (x, cm)) \<and>
        fst t = (fst s)\<lparr>r2_client := c\<rparr>)"
  by (cases t) (auto simp: in_ceremony_def split: prod.splits)

lemma collect_pin_eq [eff_elims]:
  "collect_opaque_pin config ia auth fresh (p, v) = (r, t) \<longleftrightarrow>
     (if rc_auth_mode config \<noteq> ''opaque''
      then r = Inl (Plugin (''unknown R2PS auth mode: '' @ rc_auth_mode config)) \<and> t = (p, v)
      else if \<not> fresh \<and> ia (r2_client p) then r = Inr None \<and> t = (p, v)
      else \<exists>rp v'. request_pin auth ''r2ps'' v = (rp, v') \<and> r = rbind rp (\<lambda>pin. Inr (Some pin)) \<and> t = (p, v'))"
  by (cases "request_pin auth ''r2ps'' v"; cases "fst (request_pin auth ''r2ps'' v)")
     (auto simp: collect_opaque_pin_def ebind_def get_state_def on_snd_def)

lemma factor_steps_keep_contexts:
  "register_factor X R config client kind auth (p, w) = (r, (p', w')) \<Longrightarrow>
     r2_lifecycle p' = r2_lifecycle p"
  "activate_factor X R config client kind auth (p, w) = (r, (p', w')) \<Longrightarrow>
     r2_lifecycle p' = r2_lifecycle p"
  "revoke_remote client request (p, w) = (rb, (p', w')) \<Longrightarrow> r2_lifecycle p' = r2_lifecycle p"
  by ((cases kind; cases r; auto simp: register_factor_def activate_factor_def register_fido2_def
        eff_elims rbind_eq_Inr rbind_eq_Inl split: if_splits)+)
     (cases rb; auto simp: revoke_remote_def eff_elims split: if_splits)

subsection \<open>What the adapter's state means\<close>

definition recorded :: "externals \<Rightarrow> string list \<Rightarrow> ceremony_state" where
  "recorded X ds = fold (record_assertion X) ds ceremony_new"

lemma recorded_Nil [simp]: "recorded X [] = ceremony_new"
  by (simp add: recorded_def)

lemma recorded_snoc [simp]: "recorded X (ds @ [d]) = record_assertion X d (recorded X ds)"
  by (simp add: recorded_def)

lemma recorded_counts:
  "cm_assertions (recorded X ds) = length ds"
  "cm_uv_assertions (recorded X ds) = length (filter (authenticator_data_uv_flag X) ds)"
  by (induction ds rule: rev_induct) (simp_all add: ceremony_new_def record_assertion_def)

lemma all_filtered: "length (filter P xs) = length xs \<longleftrightarrow> list_all P xs"
proof (induction xs)
  case (Cons x xs)
  then show ?case using length_filter_le [of P xs] by (auto simp del: length_filter_le)
qed simp

lemma recorded_verified:
  "all_assertions_user_verified (recorded X ds) \<longleftrightarrow>
     ds \<noteq> [] \<and> list_all (authenticator_data_uv_flag X) ds"
  by (simp add: all_assertions_user_verified_def recorded_counts all_filtered)

lemma recorded_agreement:
  "cm_verified_factor (recorded X ds) =
     (case ds of
        [] \<Rightarrow> Unseen
      | d # _ \<Rightarrow>
          (case classify_authenticator_data_uvm X d of
             None \<Rightarrow> Disagreed
           | Some f \<Rightarrow> if list_all (\<lambda>d. classify_authenticator_data_uvm X d = Some f) ds
                       then Agreed f else Disagreed))"
proof (induction ds rule: rev_induct)
  case Nil
  show ?case by (simp add: ceremony_new_def)
next
  case (snoc e ds)
  show ?case
    unfolding recorded_snoc
    using snoc
    by (cases ds)
       (auto simp: record_assertion_def ceremony_new_def split: option.splits if_splits)
qed

lemma recorded_agreed_factor:
  "agreed_verified_factor (recorded X ds) = Some f \<longleftrightarrow>
     ds \<noteq> [] \<and> list_all (authenticator_data_uv_flag X) ds \<and>
     list_all (\<lambda>d. classify_authenticator_data_uvm X d = Some f) ds"
  unfolding agreed_verified_factor_def recorded_verified recorded_agreement
  by (cases ds) (auto split: option.splits if_splits)

text \<open>The authenticator data of the assertions the host returns in a dialogue, in order.\<close>

primrec assertions_made ::
  "externals \<Rightarrow> ('g, 'a) r2ps_codec \<Rightarrow> 'w auth_callback \<Rightarrow> ('c \<times> 'w, 'g, 'a, 'r) dialogue \<Rightarrow> string list" where
  "assertions_made X R auth (Finished r s) = []"
| "assertions_made X R auth (AskCredential challenge rp user s k) =
     (case create_credential X R auth challenge rp user (snd s) of
        (a, w) \<Rightarrow> assertions_made X R auth (k (a, (fst s, w))))"
| "assertions_made X R auth (AskAssertion challenge rp allow s k) =
     (case adapter_get_assertion X R auth challenge rp allow (ceremony_new, snd s) of
        (a, (cm, w)) \<Rightarrow> (case a of Inl _ \<Rightarrow> [] | Inr x \<Rightarrow> [authenticator_data R x])
          @ assertions_made X R auth (k (a, (fst s, w))))"

lemma adapter_step:
  "adapter_get_assertion X R auth challenge rp allow (cm, w) =
     (case adapter_get_assertion X R auth challenge rp allow (ceremony_new, w) of
        (a, (cm0, w')) \<Rightarrow>
          (a, ((case a of Inl _ \<Rightarrow> cm | Inr x \<Rightarrow> record_assertion X (authenticator_data R x) cm), w')))"
  by (auto simp: adapter_get_assertion_def ebind_def on_snd_def split: prod.splits sum.splits)

lemma dialogue_records:
  "fst (snd (run_dialogue X R auth d cm)) = fold (record_assertion X) (assertions_made X R auth d) cm"
proof (induction d arbitrary: cm)
  case (AskCredential challenge rp user s k)
  show ?case by (auto simp: AskCredential split: prod.splits)
next
  case (AskAssertion challenge rp allow s k)
  show ?case
    by (subst run_dialogue.simps, subst adapter_step)
       (auto simp: AskAssertion split: prod.splits sum.splits)
qed simp

lemma in_ceremony_recorded:
  assumes "in_ceremony X R auth prefix d (p, w) = (Inr (x, cm), t)"
  shows "cm = recorded X (assertions_made X R auth (d (r2_client p, w)))"
proof -
  obtain r0 c u where "run_dialogue X R auth (d (r2_client p, w)) ceremony_new = (r0, cm, c, u)"
    using assms by (cases "run_dialogue X R auth (d (r2_client p, w)) ceremony_new")
      (auto simp: in_ceremony_def rbind_eq_Inr)
  then show ?thesis
    using dialogue_records [of X R auth "d (r2_client p, w)" ceremony_new] by (simp add: recorded_def)
qed

text \<open>The world once the three progress reports of a sign are made.\<close>

definition sign_reported :: "'w env \<Rightarrow> 'w \<Rightarrow> 'w" where
  "sign_reported env w = env_progress env WaitingForUser (env_progress env (Started ''sign'') w)"

lemma sign_with_factors_cases:
  assumes "r2ps_sign_with_factors X R config client kid data alg opts env auth (p, w) = (Inr out, (p', w'))"
  obtains (webauthn) sig f w2 where "rc_auth_mode config = ''webauthn''" "\<not> so_require_fresh opts"
      "out = \<lparr>out_signature = sig, out_factors = f\<rparr>"
      "sign_webauthn X R config client kid data opts env auth (p, sign_reported env w) = (Inr (sig, f), (p', w2))"
  | (opaque) sig f w2 where "rc_auth_mode config \<noteq> ''webauthn''"
      "out = \<lparr>out_signature = sig, out_factors = f\<rparr>"
      "sign_opaque X config client kid data opts env auth (p, sign_reported env w) = (Inr (sig, f), (p', w2))"
  using assms
  by (auto simp: r2ps_sign_with_factors_def sign_reported_def eff_elims split: if_splits)

text \<open>A sign over WebAuthn runs one dialogue; its factors follow from the assertions made in it.\<close>

lemma sign_webauthn_factors:
  assumes "sign_webauthn X R config client kid data opts env auth (p, w) = (Inr (sig, f), (p', w'))"
  shows "f = (let cm = recorded X (assertions_made X R auth (cl_sign_with_sad client (rc_rp_id config)
      (rc_allowed_credential_ids config) kid data (r2_client p, env_progress env (NetworkRoundTrip 1 1) w)))
    in derive_factors ''key_in_remote_wscd'' None (all_assertions_user_verified cm)
      (agreed_verified_factor cm) opts ''the WebAuthn assertion did not carry the user-verified flag'')"
  using assms unfolding sign_webauthn_def sign_with_sad_sync_def
  by (auto simp: eff_elims Let_def simp del: in_ceremony_eq dest!: in_ceremony_recorded)

text \<open>Collecting the PIN under a recorder: reuse, or one question.\<close>

lemma collect_recorded:
  assumes "run_recorded (collect_opaque_pin config ia (recording_auth X auth) fresh) (p, w) = (Inr (pin, log), (p', w'))"
  shows "rc_auth_mode config = ''opaque'' \<and> p' = p \<and>
    ((\<not> fresh \<and> ia (r2_client p) \<and> pin = None \<and> log = [] \<and> w' = w) \<or>
     ((fresh \<or> \<not> ia (r2_client p)) \<and>
        (\<exists>s. request_pin auth ''r2ps'' w = (Inr s, w') \<and> pin = Some s \<and> log = [classify_pin X ''r2ps'' s])))"
proof -
  have c: "collect_opaque_pin config ia (recording_auth X auth) fresh (p, ([], w)) = (Inr pin, (p', (log, w')))"
    using assms by (simp add: run_recorded_eq)
  then have m: "rc_auth_mode config = ''opaque''" by (simp add: collect_pin_eq split: if_splits)
  show ?thesis
  proof (cases "\<not> fresh \<and> ia (r2_client p)")
    case True
    then show ?thesis using c m by (simp add: collect_pin_eq)
  next
    case False
    obtain rp v where "record_pin X ''r2ps'' (request_pin auth ''r2ps'') ([], w) = (rp, v)"
      "Inr pin = rbind rp (\<lambda>pin. Inr (Some pin))" "(p', (log, w')) = (p, v)"
      using c m False by (auto simp: collect_pin_eq recording_auth_def)
    then show ?thesis using m False by (cases rp) (auto simp: record_pin_def eff_elims)
  qed
qed

text \<open>An OPAQUE sign either reuses the session or asks, authenticates and signs.\<close>

lemma sign_opaque_cases:
  assumes "sign_opaque X config client kid data opts env auth (p, w) = (Inr (sig, f), (p', w'))"
  obtains (cached) s where "rc_auth_mode config = ''opaque''"
      "\<not> so_require_fresh opts" "cl_is_authenticated client (r2_client p)"
      "cl_sign client (as_bytes kid) data (r2_client p, env_progress env (NetworkRoundTrip 1 1) w) = (Inr sig, s)"
      "f = derive_factors ''key_in_remote_wscd'' None False None opts
         (''no PIN was entered for this sign: a cached session was reused ''
          @ ''(set require_fresh_user_authentication)'')"
  | (asked) pin v t s where "rc_auth_mode config = ''opaque''"
      "so_require_fresh opts \<or> \<not> cl_is_authenticated client (r2_client p)"
      "request_pin auth ''r2ps'' w = (Inr pin, v)"
      "cl_authenticate client pin (r2_client p, env_progress env (NetworkRoundTrip 1 1) v) = (Inr (), t)"
      "cl_sign client (as_bytes kid) data t = (Inr sig, s)"
      "f = derive_factors ''key_in_remote_wscd'' (Some (classify_pin X ''r2ps'' pin)) False None opts
         (''no PIN was entered for this sign: a cached session was reused ''
          @ ''(set require_fresh_user_authentication)'')"
proof -
  obtain pin log u1 u2 u3 where
    c: "run_recorded (collect_opaque_pin config (cl_is_authenticated client) (recording_auth X auth)
      (so_require_fresh opts)) (p, w) = (Inr (pin, log), u1)"
    and a: "(case pin of Some pin \<Rightarrow> on_client ''OPAQUE auth failed: '' (cl_authenticate client pin)
      | None \<Rightarrow> ereturn ()) (fst u1, env_progress env (NetworkRoundTrip 1 1) (snd u1)) = (Inr (), u2)"
    and s: "on_client ''R2PS sign failed: '' (cl_sign client (as_bytes kid) data) u2 = (Inr sig, u3)"
    and f: "f = derive_factors ''key_in_remote_wscd'' (last_pin log) False None opts
         (''no PIN was entered for this sign: a cached session was reused ''
          @ ''(set require_fresh_user_authentication)'')"
    using assms unfolding sign_opaque_def by (auto simp: ebind_eq_Inr on_snd_eq)
  have sg: "\<exists>t. cl_sign client (as_bytes kid) data (r2_client (fst u2), snd u2) = (Inr sig, t)"
    using s by (cases "cl_sign client (as_bytes kid) data (r2_client (fst u2), snd u2)";
      cases "fst (cl_sign client (as_bytes kid) data (r2_client (fst u2), snd u2))")
      (auto simp: on_client_def)
  note k = collect_recorded [of _ _ _ _ _ _ _ _ _ "fst u1" "snd u1", simplified, OF c]
  show ?thesis
  proof (cases pin)
    case None
    then have "u1 = (p, w)" "log = []" "\<not> so_require_fresh opts" "cl_is_authenticated client (r2_client p)"
      using k by (auto simp: prod_eq_iff)
    then show ?thesis using cached a sg f k None by (auto simp: last_pin_def list_last_def)
  next
    case (Some pin')
    then have "fst u1 = p" "log = [classify_pin X ''r2ps'' pin']"
      "so_require_fresh opts \<or> \<not> cl_is_authenticated client (r2_client p)"
      "request_pin auth ''r2ps'' w = (Inr pin', snd u1)" using k by auto
    moreover have "cl_authenticate client pin' (r2_client p, env_progress env (NetworkRoundTrip 1 1) (snd u1))
        = (Inr (), (r2_client (fst u2), snd u2))"
      using a Some calculation(1)
      by (cases "cl_authenticate client pin' (r2_client p, env_progress env (NetworkRoundTrip 1 1) (snd u1))";
          cases "fst (cl_authenticate client pin' (r2_client p, env_progress env (NetworkRoundTrip 1 1) (snd u1)))")
         (auto simp: on_client_def)
    moreover obtain t where "cl_sign client (as_bytes kid) data (r2_client (fst u2), snd u2) = (Inr sig, t)"
      using sg by blast
    ultimately show ?thesis
      using k f by (intro asked [of pin' "snd u1" "(r2_client (fst u2), snd u2)" t])
        (simp_all add: last_pin_def list_last_def)
  qed
qed

subsection \<open>What the lifecycle operations write\<close>

lemma hm_get_insert_fun: "hm_get (hm_insert k v m) = (hm_get m)(k \<mapsto> v)"
  by (simp add: fun_eq_iff)

lemma ebind_clock [simp]:
  "ebind (on_snd (now_unix env)) h s =
     h (fst (env_now env (snd s))) (fst s, snd (env_now env (snd s)))"
  by (simp add: ebind_def on_snd_def now_unix_def etotal_def split: prod.splits)

text \<open>A step that was run, in front of a continuation.\<close>

lemma ebind_ran: "m s = (r, t) \<Longrightarrow> ebind m h s = (case r of Inl e \<Rightarrow> (Inl e, t) | Inr x \<Rightarrow> h x t)"
  by (simp add: ebind_def)

text \<open>
  The exchange with the service that a lifecycle operation rests on: for an OPAQUE factor the host is asked for
  the PIN and the client's call gets exactly that PIN; for a WebAuthn factor a dialogue is run to its
  end. The result is the client and the world after an exchange that succeeded.
\<close>

definition opaque_exchange ::
  "'w auth_callback \<Rightarrow> (bytes \<Rightarrow> ('c \<times> 'w, string, unit) eff) \<Rightarrow> 'c \<times> 'w \<Rightarrow> ('c \<times> 'w) option" where
  "opaque_exchange auth call s =
     (case request_pin auth ''r2ps'' (snd s) of
        (Inl _, _) \<Rightarrow> None
      | (Inr pin, v) \<Rightarrow> (case call pin (fst s, v) of (Inl _, _) \<Rightarrow> None | (Inr _, t) \<Rightarrow> Some t))"

definition webauthn_exchange ::
  "externals \<Rightarrow> ('g, 'a) r2ps_codec \<Rightarrow> 'w auth_callback \<Rightarrow> ('c \<times> 'w \<Rightarrow> ('c \<times> 'w, 'g, 'a, 'r) dialogue)
   \<Rightarrow> 'c \<times> 'w \<Rightarrow> ('c \<times> 'w) option" where
  "webauthn_exchange X R auth d s =
     (case run_dialogue X R auth (d s) ceremony_new of (Inl _, _) \<Rightarrow> None | (Inr _, _, t) \<Rightarrow> Some t)"

definition registration_exchange ::
  "externals \<Rightarrow> ('g, 'a) r2ps_codec \<Rightarrow> r2ps_config \<Rightarrow> ('c, 'w, 'g, 'a) r2ps_client \<Rightarrow> 'w auth_callback
   \<Rightarrow> factor_kind \<Rightarrow> 'c \<times> 'w \<Rightarrow> ('c \<times> 'w) option" where
  "registration_exchange X R config client auth kind s =
     (case kind of
        FkOpaque \<Rightarrow> opaque_exchange auth (cl_register client) s
      | FkWebAuthn \<Rightarrow> if rc_rp_id config = [] then None
          else webauthn_exchange X R auth (cl_register_fido2 client (rc_rp_id config)) s
      | FkRawSign \<Rightarrow> None)"

definition activation_exchange ::
  "externals \<Rightarrow> ('g, 'a) r2ps_codec \<Rightarrow> r2ps_config \<Rightarrow> ('c, 'w, 'g, 'a) r2ps_client \<Rightarrow> 'w auth_callback
   \<Rightarrow> factor_kind \<Rightarrow> 'c \<times> 'w \<Rightarrow> ('c \<times> 'w) option" where
  "activation_exchange X R config client auth kind s =
     (case kind of
        FkOpaque \<Rightarrow> opaque_exchange auth (cl_authenticate client) s
      | FkWebAuthn \<Rightarrow> webauthn_exchange X R auth (cl_authenticate_fido2 client (rc_rp_id config) ''session''
          (rc_allowed_credential_ids config)) s
      | FkRawSign \<Rightarrow> None)"

text \<open>The code's two steps are these exchanges, and they leave the contexts alone.\<close>

lemma on_client_run:
  "on_client prefix m (p, w) =
     (case m (r2_client p, w) of (r, (c, w')) \<Rightarrow> (map_err (\<lambda>e. Plugin (prefix @ e)) r, (p\<lparr>r2_client := c\<rparr>, w')))"
  by (simp add: on_client_def)

lemma opaque_step:
  "case opaque_exchange auth call (r2_client p, w) of
      None \<Rightarrow> \<exists>e c w'. ebind (on_snd (request_pin auth ''r2ps'')) (\<lambda>pin. on_client prefix (call pin)) (p, w) =
        (Inl e, (p\<lparr>r2_client := c\<rparr>, w'))
    | Some (c, w') \<Rightarrow> ebind (on_snd (request_pin auth ''r2ps'')) (\<lambda>pin. on_client prefix (call pin)) (p, w) =
        (Inr (), (p\<lparr>r2_client := c\<rparr>, w'))"
proof -
  have same: "p = p\<lparr>r2_client := r2_client p\<rparr>" by simp
  show ?thesis
    by (auto simp: opaque_exchange_def ebind_def on_snd_def on_client_run split: prod.splits sum.splits
        intro: same)
qed

lemma webauthn_step:
  "case webauthn_exchange X R auth d (r2_client p, w) of
      None \<Rightarrow> \<exists>e c w'. ebind (in_ceremony X R auth prefix d) (\<lambda>_. ereturn ()) (p, w) =
        (Inl e, (p\<lparr>r2_client := c\<rparr>, w'))
    | Some (c, w') \<Rightarrow> ebind (in_ceremony X R auth prefix d) (\<lambda>_. ereturn ()) (p, w) =
        (Inr (), (p\<lparr>r2_client := c\<rparr>, w'))"
  by (auto simp: webauthn_exchange_def ebind_def in_ceremony_def ereturn_def split: prod.splits sum.splits)

lemma factor_step_is_exchange:
  "case registration_exchange X R config client auth kind (r2_client p, w) of
      None \<Rightarrow> \<exists>e c w'. register_factor X R config client kind auth (p, w) = (Inl e, (p\<lparr>r2_client := c\<rparr>, w'))
    | Some (c, w') \<Rightarrow> register_factor X R config client kind auth (p, w) = (Inr (), (p\<lparr>r2_client := c\<rparr>, w'))"
  "case activation_exchange X R config client auth kind (r2_client p, w) of
      None \<Rightarrow> \<exists>e c w'. activate_factor X R config client kind auth (p, w) = (Inl e, (p\<lparr>r2_client := c\<rparr>, w'))
    | Some (c, w') \<Rightarrow> activate_factor X R config client kind auth (p, w) = (Inr (), (p\<lparr>r2_client := c\<rparr>, w'))"
proof -
  have refused: "\<exists>e' c w'. ethrow e (p, w) = (Inl e', (p\<lparr>r2_client := c\<rparr>, w'))" for e
    by (intro exI [of _ e] exI [of _ "r2_client p"] exI [of _ w]) (simp add: ethrow_def)
  show "case registration_exchange X R config client auth kind (r2_client p, w) of
      None \<Rightarrow> \<exists>e c w'. register_factor X R config client kind auth (p, w) = (Inl e, (p\<lparr>r2_client := c\<rparr>, w'))
    | Some (c, w') \<Rightarrow> register_factor X R config client kind auth (p, w) = (Inr (), (p\<lparr>r2_client := c\<rparr>, w'))"
  proof (cases kind)
    case FkWebAuthn
    note defs = FkWebAuthn registration_exchange_def register_factor_def register_fido2_def factor_kind.case
    show ?thesis
    proof (cases "rc_rp_id config = []")
      case True
      show ?thesis unfolding defs if_P [OF True] option.case by (rule refused)
    next
      case False
      show ?thesis unfolding defs if_not_P [OF False] by (rule webauthn_step)
    qed
  qed (simp_all only: registration_exchange_def register_factor_def factor_kind.case option.case refused opaque_step)
  show "case activation_exchange X R config client auth kind (r2_client p, w) of
      None \<Rightarrow> \<exists>e c w'. activate_factor X R config client kind auth (p, w) = (Inl e, (p\<lparr>r2_client := c\<rparr>, w'))
    | Some (c, w') \<Rightarrow> activate_factor X R config client kind auth (p, w) = (Inr (), (p\<lparr>r2_client := c\<rparr>, w'))"
    by (cases kind)
      (simp_all only: activation_exchange_def activate_factor_def factor_kind.case
        option.case refused opaque_step webauthn_step)
qed

text \<open>
  What a lifecycle operation that rests on an exchange does: without a successful exchange it fails and no
  context changes; with one it succeeds, the client is the exchange's, and the one context is written.
\<close>

definition writes_context ::
  "'c r2ps_state \<Rightarrow> string \<Rightarrow> factor_kind \<Rightarrow> lifecycle_state \<Rightarrow> ('c \<times> 'w) option
   \<Rightarrow> lifecycle_outcome wres \<times> 'c r2ps_state \<times> 'w \<Rightarrow> bool" where
  "writes_context p cid fk st exchange run \<longleftrightarrow>
     (case (exchange, run) of
        (None, Inl _, p', _) \<Rightarrow> r2_lifecycle p' = r2_lifecycle p
      | (Some (c, v), Inr out, p', _) \<Rightarrow>
          lo_context_id out = cid \<and> lo_state out = st \<and> r2_client p' = c \<and>
          (\<exists>t. hm_get (r2_lifecycle p') = (hm_get (r2_lifecycle p))(cid \<mapsto>
             \<lparr>rx_factor_kind = fk, rx_state = st, rx_updated_at = t\<rparr>))
      | _ \<Rightarrow> False)"

lemma set_context_lookup:
  "hm_get (r2_lifecycle p) cid = Some c \<Longrightarrow>
     hm_get (r2_lifecycle (set_context_state cid st now p)) =
       (hm_get (r2_lifecycle p))(cid \<mapsto> \<lparr>rx_factor_kind = rx_factor_kind c, rx_state = st, rx_updated_at = now\<rparr>)"
  by (cases c) (auto simp: set_context_state_def)

lemma register_writes:
  "writes_context p (rr_context_id rq) (rr_factor_kind rq) Registered
     (registration_exchange X R config client auth (rr_factor_kind rq)
       (r2_client p, env_progress env (Started ''register_lifecycle'') w))
     (r2ps_register_lifecycle X R config client rq env auth (p, w))"
  using factor_step_is_exchange(1) [where X = X and R = R and config = config and client = client and auth = auth
      and kind = "rr_factor_kind rq" and p = p and w = "env_progress env (Started ''register_lifecycle'') w"]
  by (auto simp: writes_context_def r2ps_register_lifecycle_def insert_context_def hm_get_insert_fun
      split: option.splits) (auto simp: ebind_ran insert_context_def hm_get_insert_fun)

lemma activate_writes:
  assumes "hm_get (r2_lifecycle p) (cr_context_id cq) = Some ctx"
  shows "writes_context p (cr_context_id cq) (rx_factor_kind ctx) Active
     (activation_exchange X R config client auth (rx_factor_kind ctx)
       (r2_client p, env_progress env (Started ''activate_lifecycle'') w))
     (r2ps_activate_lifecycle X R config client cq env auth (p, w))"
  using factor_step_is_exchange(2) [where X = X and R = R and config = config and client = client and auth = auth
      and kind = "rx_factor_kind ctx" and p = p and w = "env_progress env (Started ''activate_lifecycle'') w"]
    set_context_lookup [of "p\<lparr>r2_client := c\<rparr>" "cr_context_id cq" ctx Active for c] assms
  by (auto simp: writes_context_def r2ps_activate_lifecycle_def r2ps_factor_kind_def ebind_ran
      set_context_state_def split: option.splits) (rule exI, rule refl)

lemma rotate_writes:
  assumes "hm_get (r2_lifecycle p) (cr_context_id cq) = Some ctx"
  shows "writes_context p (cr_context_id cq) (rx_factor_kind ctx) Registered
     (registration_exchange X R config client auth (rx_factor_kind ctx)
       (r2_client p, env_progress env (Started ''register_lifecycle'') w))
     (r2ps_rotate_lifecycle X R config client cq env auth (p, w))"
proof -
  let ?rq = "\<lparr>rr_plugin_id = cr_plugin_id cq, rr_context_id = cr_context_id cq,
    rr_factor_kind = rx_factor_kind ctx\<rparr>"
  obtain r p1 w1 where f: "r2ps_register_lifecycle X R config client ?rq env auth (p, w) = (r, (p1, w1))"
    by (metis prod.collapse)
  have run: "r2ps_rotate_lifecycle X R config client cq env auth (p, w) =
      (case r of Inl e \<Rightarrow> (Inl e, (p1, w1))
       | Inr _ \<Rightarrow> (Inr \<lparr>lo_context_id = cr_context_id cq, lo_state = Registered\<rparr>,
           (set_context_state (cr_context_id cq) Registered (fst (env_now env w1)) p1, snd (env_now env w1))))"
    using assms by (cases r) (simp_all add: r2ps_rotate_lifecycle_def r2ps_factor_kind_def ebind_ran f)
  show ?thesis
    using register_writes [where rq = ?rq and X = X and R = R and config = config and client = client
        and env = env and auth = auth and p = p and w = w, unfolded f]
    unfolding run
    by (cases r) (auto simp: writes_context_def set_context_state_def hm_get_insert_fun split: option.splits,
      (rule exI, rule refl)?)
qed

lemma unknown_context_refused:
  assumes "hm_get (r2_lifecycle p) (cr_context_id cq) = None"
  shows "r2ps_activate_lifecycle X R config client cq env auth (p, w) =
      (Inl (KeyNotFound (cr_context_id cq)), (p, env_progress env (Started ''activate_lifecycle'') w))"
    and "r2ps_rotate_lifecycle X R config client cq env auth (p, w) =
      (Inl (KeyNotFound (cr_context_id cq)), (p, w))"
  using assms by (simp_all add: r2ps_activate_lifecycle_def r2ps_rotate_lifecycle_def r2ps_factor_kind_def)


subsection \<open>Properties\<close>

text \<open>A client whose sign asks the host for one assertion and then signs, with a session that any PIN
  opens, and the bytes as JSON of themselves.\<close>

definition ref_client :: "(bool, nat, bytes, bytes) r2ps_client" where
  "ref_client =
     \<lparr>cl_is_authenticated = (\<lambda>c. c), cl_authenticate = (\<lambda>pin (c, w). (Inr (), (True, w))),
      cl_register = (\<lambda>pin s. (Inr (), s)), cl_generate_key = (\<lambda>s. (Inr (as_bytes ''k''), s)),
      cl_list_keys = (\<lambda>crv s. (Inr [\<lparr>hk_kid = ''k'', hk_creation_time = 0, hk_public_key = []\<rparr>], s)),
      cl_sign = (\<lambda>kid data (c, w). (if c then Inr data else Inl ''no session'', (c, w))),
      cl_wi_revoke = (\<lambda>reason s. (Inl ''unreachable'', s)),
      cl_register_fido2 = (\<lambda>rp s. AskCredential [] rp [] s (\<lambda>(a, s). Finished (Inr ()) s)),
      cl_authenticate_fido2 = (\<lambda>rp label ids s. AskAssertion [] rp ids s (\<lambda>(a, s). Finished (Inr ()) s)),
      cl_sign_with_sad = (\<lambda>rp ids kid data s. AskAssertion [] rp ids s
        (\<lambda>(a, s). Finished (case a of Inl _ \<Rightarrow> Inl ''refused'' | Inr _ \<Rightarrow> Inr data) s))\<rparr>"

definition ref_codec :: "(bytes, bytes) r2ps_codec" where
  "ref_codec = \<lparr>parse_registration = Inr, parse_assertion = Inr, authenticator_data = of_bytes,
     b64_dec = (\<lambda>s. Inr (as_bytes s)), p256_from_spki = (\<lambda>b. Inr \<lparr>pt_x = b, pt_y = b\<rparr>),
     utf8_error_text = (\<lambda>b. ''invalid utf-8 sequence'')\<rparr>"

definition ref_r2ps_config :: "string \<Rightarrow> r2ps_config" where
  "ref_r2ps_config mode = \<lparr>rc_server_url = [], rc_client_id = [], rc_context = [], rc_auth_mode = mode,
     rc_rp_id = ''example.org'', rc_allowed_credential_ids = []\<rparr>"

definition ref_host :: "bytes \<Rightarrow> nat auth_callback" where
  "ref_host answer = \<lparr>request_pin = (\<lambda>p w. (Inr (as_bytes ''123456''), w)),
     request_pin_for = (\<lambda>p k w. (Inr (as_bytes ''123456''), w)),
     request_webauthn_assertion = (\<lambda>p c r i w. (Inr answer, w))\<rparr>"

definition ref_r2ps_state :: "bool r2ps_state" where
  "ref_r2ps_state = \<lparr>r2_client = False, r2_last_amr = [], r2_lifecycle = []\<rparr>"

text \<open>C6: the second factor of a WebAuthn sign on the remote HSM. The sign reports two categories
  exactly when the host returned at least one assertion during it, every one carried the
  user-verified flag, and either all of them name the same method in their signed \<open>uvm\<close> data, or they
  do not and the host asserted a factor, of another category than possession in both cases.\<close>

theorem remote_webauthn_factors:
  assumes "rc_auth_mode config = ''webauthn''"
    and "r2ps_sign_with_factors X R config client kid data alg opts env auth (p, w) = (Inr out, (p', w'))"
    and "ds = assertions_made X R auth (cl_sign_with_sad client (rc_rp_id config)
      (rc_allowed_credential_ids config) kid data
      (r2_client p, env_progress env (NetworkRoundTrip 1 1) (sign_reported env w)))"
  shows "fs_shortfall (out_factors out) = None \<longleftrightarrow>
    ds \<noteq> [] \<and> list_all (authenticator_data_uv_flag X) ds \<and>
    (\<exists>f. in_vocabulary f \<and> af_category f \<noteq> Possession \<and>
       (list_all (\<lambda>d. classify_authenticator_data_uvm X d = Some f) ds \<or>
        so_host_factor opts = Some f \<and>
        \<not> (\<exists>g. list_all (\<lambda>d. classify_authenticator_data_uvm X d = Some g) ds)))"
proof -
  have p: "''key_in_remote_wscd'' \<in> set (category_methods Possession)" by simp
  let ?u = "all_assertions_user_verified (recorded X ds)" and ?a = "agreed_verified_factor (recorded X ds)"
  let ?c = "\<lambda>f. list_all (\<lambda>d. classify_authenticator_data_uvm X d = Some f) ds"
  from assms(2) show ?thesis
  proof (cases rule: sign_with_factors_cases)
    case (webauthn sig f w2)
    have "out_factors out = derive_factors ''key_in_remote_wscd'' None ?u ?a opts
        ''the WebAuthn assertion did not carry the user-verified flag''"
      using sign_webauthn_factors [OF webauthn(4)] webauthn(3) assms(3) by (simp add: Let_def)
    then have "fs_shortfall (out_factors out) = None \<longleftrightarrow>
        ?u \<and> (\<exists>f. or_else ?a (so_host_factor opts) = Some f \<and> in_vocabulary f \<and> af_category f \<noteq> Possession)"
      by (simp add: derive_factors_two_categories [OF p] second_factor_def)
    moreover have "?c f \<longleftrightarrow> ?a = Some f" if "?u" for f
      using that by (simp add: recorded_agreed_factor recorded_verified)
    ultimately show ?thesis
      unfolding recorded_verified [symmetric] conj_assoc [symmetric]
      by (cases ?a) auto
  qed (use assms(1) in simp)
qed

theorem remote_webauthn_factors_witness:
  "\<exists>out s. r2ps_sign_with_factors ref_externals ref_codec (ref_r2ps_config ''webauthn'') ref_client
       ''k'' [1] ES256 \<lparr>so_require_fresh = False, so_host_factor =
         Some \<lparr>af_category = Inherence, af_method = ''face_device''\<rparr>\<rparr> ref_env
       (ref_host (replicate 32 0 @ [0x05])) (ref_r2ps_state, 0) = (Inr out, s) \<and>
     fs_shortfall (out_factors out) = None"
proof -
  let ?opts = "\<lparr>so_require_fresh = False, so_host_factor =
         Some \<lparr>af_category = Inherence, af_method = ''face_device''\<rparr>\<rparr>"
  let ?auth = "ref_host (replicate 32 0 @ [0x05])"
  let ?run = "r2ps_sign_with_factors ref_externals ref_codec (ref_r2ps_config ''webauthn'') ref_client
       ''k'' [1] ES256 ?opts ref_env ?auth (ref_r2ps_state, 0)"
  have ad: "adapter_get_assertion ref_externals ref_codec ?auth [] ''example.org'' [] (cm, w) =
      (Inr (replicate 32 0 @ [0x05]),
       (record_assertion ref_externals (of_bytes (replicate 32 0 @ [0x05])) cm, w))" for cm w
    by (simp add: adapter_get_assertion_def decode_challenge_def ask_host_def ref_host_def ref_codec_def
        ebind_def ecatch_def on_snd_def ref_externals_def as_bytes_def)
  have dia: "run_dialogue ref_externals ref_codec ?auth (cl_sign_with_sad ref_client ''example.org'' [] ''k'' [1] (c, w))
      ceremony_new = (Inr [1], record_assertion ref_externals (of_bytes (replicate 32 0 @ [0x05])) ceremony_new, (c, w))"
    for c w by (simp add: ref_client_def ad)
  have opts: "validate_options ?opts = Inr ()" by (simp add: validate_options_ok in_vocabulary_def)
  obtain out s where run: "?run = (Inr out, s)"
    by (simp add: r2ps_sign_with_factors_def sign_webauthn_def sign_with_sad_sync_def in_ceremony_def
        ref_r2ps_config_def dia opts ebind_def on_snd_def on_progress_def modify_state_def
        started_def completed_def in_vocabulary_def)
  obtain p' w' where s: "s = (p', w')" by (cases s)
  have ds: "assertions_made ref_externals ref_codec ?auth (cl_sign_with_sad ref_client ''example.org'' [] ''k'' [1] (c, w))
      = [of_bytes (replicate 32 0 @ [0x05])]" for c w
    by (simp add: ref_client_def ad) (simp add: ref_codec_def)
  have dec: "b64url_dec ref_externals (of_bytes b) = Inr b" for b
    by (simp add: ref_externals_def)
  have "authenticator_data_uv_flag ref_externals (of_bytes (replicate 32 0 @ [0x05]))"
    "classify_authenticator_data_uvm ref_externals (of_bytes (replicate 32 0 @ [0x05])) = None"
    by (simp_all add: authenticator_data_uv_flag_def classify_authenticator_data_uvm_def
        decode_authenticator_data_def dec list_at_def parse_uvm_extension_def AUTH_DATA_FLAG_ED_def nth_append)
  then show ?thesis
    using remote_webauthn_factors [OF _ run [unfolded s] refl] run
    by (simp add: ref_r2ps_config_def ds in_vocabulary_def)
qed


text \<open>C7: an OPAQUE sign and its session. A sign that need not be fresh reuses an authenticated session,
  asks nobody and reports a shortfall. Every other sign asks for the PIN first, authenticates with
  exactly that PIN and signs in the state the authentication left; it reports two categories exactly
  when that PIN can be classified.\<close>

theorem opaque_sign_session:
  assumes "rc_auth_mode config = ''opaque''"
    and "r2ps_sign_with_factors X R config client kid data alg opts env auth (p, w) = (Inr out, (p', w'))"
  shows "if \<not> so_require_fresh opts \<and> cl_is_authenticated client (r2_client p)
    then fs_shortfall (out_factors out) \<noteq> None \<and>
      (\<exists>s. cl_sign client (as_bytes kid) data
         (r2_client p, env_progress env (NetworkRoundTrip 1 1) (sign_reported env w)) = (Inr (out_signature out), s))
    else \<exists>pin v t s. request_pin auth ''r2ps'' (sign_reported env w) = (Inr pin, v) \<and>
      cl_authenticate client pin (r2_client p, env_progress env (NetworkRoundTrip 1 1) v) = (Inr (), t) \<and>
      cl_sign client (as_bytes kid) data t = (Inr (out_signature out), s) \<and>
      (fs_shortfall (out_factors out) = None \<longleftrightarrow> classify_pin X ''r2ps'' pin \<noteq> None)"
proof -
  have p: "''key_in_remote_wscd'' \<in> set (category_methods Possession)" by simp
  from assms(2) show ?thesis
  proof (cases rule: sign_with_factors_cases)
    case (opaque sig f w2)
    from opaque(3) show ?thesis
    proof (cases rule: sign_opaque_cases)
      case (cached s)
      then show ?thesis
        using opaque(2) by (auto simp: derive_factors_two_categories [OF p] second_factor_def)
    next
      case (asked pin v t s)
      have "fs_shortfall (out_factors out) = None \<longleftrightarrow> classify_pin X ''r2ps'' pin \<noteq> None"
        using asked(6) opaque(2)
        by (auto simp: derive_factors_two_categories [OF p] second_factor_def
            dest: classify_pin_vocabulary split: option.splits)
      moreover have "\<not> (\<not> so_require_fresh opts \<and> cl_is_authenticated client (r2_client p))"
        using asked(2) by blast
      ultimately show ?thesis
        using asked opaque(2)
        by (simp only: if_False) (intro exI [of _ pin] exI [of _ v] exI [of _ t] exI [of _ s] conjI; simp)
    qed
  qed (use assms(1) in simp)
qed

theorem opaque_sign_session_witness:
  "\<exists>out s. r2ps_sign_with_factors ref_externals ref_codec (ref_r2ps_config ''opaque'') ref_client
       ''k'' [1] ES256 \<lparr>so_require_fresh = True, so_host_factor = None\<rparr> ref_env (ref_host [])
       (ref_r2ps_state, 0) = (Inr out, s) \<and>
     cl_sign ref_client (as_bytes ''k'') [1] (True, 0) = (Inr (out_signature out), (True, 0))"
proof -
  let ?opts = "\<lparr>so_require_fresh = True, so_host_factor = None\<rparr>"
  have opts: "validate_options ?opts = Inr ()" by (simp add: validate_options_ok)
  obtain out p' w' where run: "r2ps_sign_with_factors ref_externals ref_codec (ref_r2ps_config ''opaque'')
      ref_client ''k'' [1] ES256 ?opts ref_env (ref_host []) (ref_r2ps_state, 0) = (Inr out, (p', w'))"
    by (simp add: r2ps_sign_with_factors_def sign_opaque_def ref_r2ps_config_def opts ebind_def on_snd_def
        on_progress_def modify_state_def started_def completed_def run_recorded_def collect_opaque_pin_def
        get_state_def recording_auth_def record_pin_def ref_host_def on_client_def ref_client_def)
  show ?thesis
    using opaque_sign_session [OF _ run] run
    by (auto simp: ref_r2ps_config_def ref_client_def ref_host_def ref_r2ps_state_def sign_reported_def)
qed

text \<open>C34: the lifecycle contexts of the remote HSM. Registering and activating succeed exactly when the exchange
  with the service does: for an OPAQUE factor the host supplied a PIN and the service accepted exactly that PIN,
  for a WebAuthn factor the dialogue ended well; a raw-sign factor never succeeds. Rotating registers again,
  with the kind the context has. On success the client's session is the one the exchange left
  and exactly that context is written; without a successful exchange no context changes. Activating
  and rotating an unknown context is refused before anything is asked or sent.\<close>

theorem remote_lifecycle_contexts:
  "writes_context p (rr_context_id rq) (rr_factor_kind rq) Registered
     (registration_exchange X R config client auth (rr_factor_kind rq)
       (r2_client p, env_progress env (Started ''register_lifecycle'') w))
     (r2ps_register_lifecycle X R config client rq env auth (p, w)) \<and>
   (case hm_get (r2_lifecycle p) (cr_context_id cq) of
      None \<Rightarrow>
        r2ps_activate_lifecycle X R config client cq env auth (p, w) =
          (Inl (KeyNotFound (cr_context_id cq)), (p, env_progress env (Started ''activate_lifecycle'') w)) \<and>
        r2ps_rotate_lifecycle X R config client cq env auth (p, w) =
          (Inl (KeyNotFound (cr_context_id cq)), (p, w))
    | Some ctx \<Rightarrow>
        writes_context p (cr_context_id cq) (rx_factor_kind ctx) Active
          (activation_exchange X R config client auth (rx_factor_kind ctx)
            (r2_client p, env_progress env (Started ''activate_lifecycle'') w))
          (r2ps_activate_lifecycle X R config client cq env auth (p, w)) \<and>
        writes_context p (cr_context_id cq) (rx_factor_kind ctx) Registered
          (registration_exchange X R config client auth (rx_factor_kind ctx)
            (r2_client p, env_progress env (Started ''register_lifecycle'') w))
          (r2ps_rotate_lifecycle X R config client cq env auth (p, w)))"
  by (cases "hm_get (r2_lifecycle p) (cr_context_id cq)")
    (simp_all add: register_writes activate_writes rotate_writes unknown_context_refused)

text \<open>C35: destroying a context of the remote HSM. A strict destroy succeeds only if the service revoked
  the client and otherwise changes no context; the other modes always succeed, report the revocation
  truthfully, and a local destroy contacts nobody. On success the context is destroyed, and recorded
  as an OPAQUE context, whatever it was and whether or not it existed.\<close>

theorem remote_destroy_outcome:
  "let w1 = env_progress env (Started ''destroy_lifecycle'') w;
       (revoked, t) = cl_wi_revoke client (dr_reason dq) (r2_client p, w1)
   in case r2ps_destroy_lifecycle client dq env auth (p, w) of
      (Inl e, (p', _)) \<Rightarrow> dr_mode dq = Strict \<and> \<not> is_ok revoked \<and> r2_lifecycle p' = r2_lifecycle p
    | (Inr out, (p', _)) \<Rightarrow>
        do_remote_performed out = (dr_mode dq \<noteq> LocalOnly \<and> is_ok revoked) \<and>
        \<not> (dr_mode dq = Strict \<and> \<not> is_ok revoked) \<and>
        r2_client p' = (if dr_mode dq = LocalOnly then r2_client p else fst t) \<and>
        (\<exists>now. hm_get (r2_lifecycle p') = (hm_get (r2_lifecycle p))(dr_context_id dq \<mapsto>
          \<lparr>rx_factor_kind = FkOpaque, rx_state = Destroyed, rx_updated_at = now\<rparr>))"
proof -
  obtain rv c w2 where v: "cl_wi_revoke client (dr_reason dq)
      (r2_client p, env_progress env (Started ''destroy_lifecycle'') w) = (rv, (c, w2))"
    by (metis prod.collapse)
  have r: "ebind (on_client pre (cl_wi_revoke client (dr_reason dq))) h
      (p, env_progress env (Started ''destroy_lifecycle'') w) =
    (case rv of Inl e \<Rightarrow> (Inl (Plugin (pre @ e)), (p\<lparr>r2_client := c\<rparr>, w2))
     | Inr x \<Rightarrow> h x (p\<lparr>r2_client := c\<rparr>, w2))" for pre and h :: "unit \<Rightarrow> ('b r2ps_state \<times> 'a, bool) weff"
    by (simp add: ebind_def on_client_def v split: sum.splits)
  obtain rr p1 w3 where rr: "revoke_remote client dq (p, env_progress env (Started ''destroy_lifecycle'') w) =
      (rr, (p1, w3))" by (metis prod.collapse)
  then have "r2_lifecycle p1 = r2_lifecycle p \<and>
      (case rr of Inl e \<Rightarrow> dr_mode dq = Strict \<and> \<not> is_ok rv
       | Inr b \<Rightarrow> b = (dr_mode dq \<noteq> LocalOnly \<and> is_ok rv) \<and> \<not> (dr_mode dq = Strict \<and> \<not> is_ok rv) \<and>
           r2_client p1 = (if dr_mode dq = LocalOnly then r2_client p else c))"
    by (cases rv; cases "dr_mode dq") (auto simp: revoke_remote_def ecatch_def r)
  then show ?thesis
    by (cases rr) (auto simp: v r2ps_destroy_lifecycle_def ebind_ran rr insert_context_def hm_get_insert_fun)
qed


subsection \<open>The remote HSM among the candidates of a generation\<close>

lemma r2ps_ops_simps [simp]:
  "po_id (r2ps_ops X R config client) = ''r2ps''"
  "po_generate_key (r2ps_ops X R config client) = r2ps_generate_key X R client"
  "po_delete_key (r2ps_ops X R config client) = r2ps_delete_key"
  "po_security_properties (r2ps_ops X R config client) = r2ps_security_properties"
  by (simp_all add: r2ps_ops_def)

lemma r2ps_generate_on:
  assumes "hm_get (mg_plugins m) ''r2ps'' = Some (lift_ops i p (r2ps_ops X R config client), i a)"
    and "\<And>a. p (i a) = Some a"
    and "generate_key_on ''r2ps'' alg env auth (m, w) = (Inr g, (m', w'))"
  shows "\<exists>b. hm_get (mg_plugins m') ''r2ps'' = Some (lift_ops i p (r2ps_ops X R config client), i b) \<and>
    bound m' (gk_kid g) = Some ''r2ps''"
proof -
  obtain r s1 w1 where run: "lift_eff i p (r2ps_generate_key X R client alg env auth) (i a, w) = (r, (s1, w1))"
    by (metis prod.collapse)
  obtain b where b: "s1 = i b" using run assms(2) by (auto simp: lift_eff_iff [of p i, OF assms(2)])
  have o: "on_plugin ''r2ps'' (\<lambda>ops. po_generate_key ops alg env auth) (m, w) =
      (r, (put_plugin ''r2ps'' (lift_ops i p (r2ps_ops X R config client)) (i b) m, w1))"
    using run assms(1) b by (simp add: on_plugin_def put_plugin_def)
  show ?thesis
    using assms(3) o
    by (cases r) (auto simp: generate_key_on_def ebind_ran id_of_plugin_def put_plugin_def bind_key_def
      Let_def split: option.splits if_splits)
qed

text \<open>C36: a remote key that falls short ends the selection. The remote HSM vouches for no certification
  and cannot delete. When it generates a key for a level above \<open>Unattested\<close>, the operation ends in an
  error with the key still on the HSM and bound to it, whatever candidates follow: none of them is
  tried.\<close>

theorem remote_shortfall_ends_selection:
  assumes "hm_get (mg_plugins m) ''r2ps'' = Some (lift_ops i p (r2ps_ops X R config client), i a)"
    and "\<And>a. p (i a) = Some a" and "Unattested < required"
    and "generate_key_on ''r2ps'' alg env auth (m, w) = (Inr g, (m1, w1))"
  shows "\<exists>msg m'. (\<forall>others. generate_key_for_level required (''r2ps'' # others) alg env auth (m, w) =
      (Inl (Plugin msg), (m', w1))) \<and> bound m' (gk_kid g) = Some ''r2ps''"
proof -
  obtain b where h: "hm_get (mg_plugins m1) ''r2ps'' = Some (lift_ops i p (r2ps_ops X R config client), i b)"
    and bd: "bound m1 (gk_kid g) = Some ''r2ps''"
    using r2ps_generate_on [OF assms(1,2,4)] by blast
  let ?m' = "put_plugin ''r2ps'' (lift_ops i p (r2ps_ops X R config client)) (i b) m1"
  have sec: "manager_security_properties m1 (gk_kid g) = r2ps_security_properties b (gk_kid g)"
    using h bd assms(2)
    by (simp add: manager_security_properties_def resolve_for_key_def get_plugin_def hm_contains_def
        plugin_query_def lift_query_def)
  have del: "manager_delete_key (gk_kid g) (m1, w1) = (Inl (Unsupported ''r2ps'' ''delete_key''), (?m', w1))"
    using h bd assms(2)
    by (simp add: manager_delete_key_def routed_def resolve_for_key_def get_plugin_def hm_contains_def
        on_plugin_def put_plugin_def ebind_def get_state_def lift_eff_def r2ps_delete_key_def)
  have "\<not> certification_rank required \<le> certification_rank Unattested"
    using assms(3) by (cases required) (auto simp: less_certification_level_def)
  then have "generate_key_for_level required (''r2ps'' # others) alg env auth (m, w) =
      (Inl (Plugin (show_error (level_shortfall ''r2ps'' Unattested required) @ '', and deleting the insufficient''
         @ '' key also failed ('' @ show_error (Unsupported ''r2ps'' ''delete_key'') @ '')'')), (?m', w1))" for others
    using assms(1,4) by (simp add: generate_key_for_level_def get_plugin_def hm_contains_def sec del
        r2ps_security_properties_def Let_def)
  moreover have "bound ?m' (gk_kid g) = Some ''r2ps''" using bd by (simp add: put_plugin_def)
  ultimately show ?thesis by blast
qed

theorem remote_shortfall_ends_selection_witness:
  "\<exists>msg m' w'. generate_key_for_level AttestedDedicatedHardware [''r2ps'', ''fido2''] ES256 ref_env (ref_host [])
     (register_plugin (lift_ops id Some (r2ps_ops ref_externals ref_codec (ref_r2ps_config ''opaque'') ref_client))
        ref_r2ps_state (manager_new default_config), 0) = (Inl (Plugin msg), (m', w')) \<and>
     bound m' ''k'' = Some ''r2ps''"
proof -
  let ?ops = "lift_ops id Some (r2ps_ops ref_externals ref_codec (ref_r2ps_config ''opaque'') ref_client)"
  let ?m = "register_plugin ?ops ref_r2ps_state (manager_new default_config)"
  have h: "hm_get (mg_plugins ?m) ''r2ps'' = Some (?ops, id ref_r2ps_state)"
    by (simp add: register_plugin_def)
  have k: "utf8_decode (as_bytes ''k'') = Some [107]" "of_bytes (as_bytes ''k'') = ''k''"
    by (code_simp, rule of_bytes_as_bytes)
  obtain g m1 w1 where run: "generate_key_on ''r2ps'' ES256 ref_env (ref_host []) (?m, 0) = (Inr g, (m1, w1))"
    and kid: "gk_kid g = ''k''"
    using h by (simp add: generate_key_on_def on_plugin_def lift_eff_def r2ps_generate_key_def
        on_client_def ref_client_def k jwk_of_listed_def public_key_jwk_from_spki_def ref_codec_def
        ebind_def on_snd_def on_progress_def started_def completed_def get_state_def modify_state_def
        id_of_plugin_def Let_def register_plugin_def manager_new_def default_config_def bind_key_def)
  show ?thesis
    using remote_shortfall_ends_selection [OF h _ _ run, of AttestedDedicatedHardware] kid
    by (auto simp: less_certification_level_def)
qed

end
