(* ===== verification/Wallet.thy ===== *)
theory Wallet
  imports Manager Softkey Apple_Secure_Enclave Android_Keystore Fido2_Sign R2ps
begin

section \<open>The manager with the plugins of the crate\<close>

text \<open>
  \<open>HashMap<String, Arc<dyn WscdPlugin>>\<close> holds plugins of different types: their states are the
  constructors of \<open>plugin_state\<close>, and \<open>lift_ops\<close> makes a plugin's method table one over
  \<open>plugin_state\<close>. A table never meets a state of another constructor (the invariant
  \<open>wallet_good\<close>), as a Rust method never meets another type's \<open>self\<close>.

  The manager's contract \<open>plugin_host\<close> is interpreted on the four plugins that hold their own keys, so
  what the manager promises holds for the crate's own key stores. The remote plugin's keys are on
  its server, not in its state; it can be registered, and theory R2ps says what selection does with
  it, but it is outside \<open>wallet_good\<close>.
\<close>

datatype 'c plugin_state =
    SoftkeyState softkey_state
  | FidoState fido_state
  | AppleState apple_state
  | AndroidState android_state
  | RemoteState "'c r2ps_state"

fun the_softkey :: "'c plugin_state \<Rightarrow> softkey_state option" where
  "the_softkey (SoftkeyState p) = Some p" | "the_softkey _ = None"

fun the_fido :: "'c plugin_state \<Rightarrow> fido_state option" where
  "the_fido (FidoState p) = Some p" | "the_fido _ = None"

fun the_apple :: "'c plugin_state \<Rightarrow> apple_state option" where
  "the_apple (AppleState p) = Some p" | "the_apple _ = None"

fun the_remote :: "'c plugin_state \<Rightarrow> 'c r2ps_state option" where
  "the_remote (RemoteState p) = Some p" | "the_remote _ = None"

fun the_android :: "'c plugin_state \<Rightarrow> android_state option" where
  "the_android (AndroidState p) = Some p" | "the_android _ = None"

subsection \<open>The four plugins\<close>

definition softkey_plugin :: "externals \<Rightarrow> ('c plugin_state, 'w) plugin_ops" where
  "softkey_plugin X = lift_ops SoftkeyState the_softkey (softkey_ops X)"

definition fido_plugin :: "externals \<Rightarrow> 'w ctap2_transport \<Rightarrow> ('c plugin_state, 'w) plugin_ops" where
  "fido_plugin X t = lift_ops FidoState the_fido (fido_ops X t)"

definition apple_plugin :: "externals \<Rightarrow> 'w secure_enclave_callback \<Rightarrow> ('c plugin_state, 'w) plugin_ops" where
  "apple_plugin X cb = lift_ops AppleState the_apple (apple_ops X cb)"

definition android_plugin :: "externals \<Rightarrow> 'w android_callback \<Rightarrow> ('c plugin_state, 'w) plugin_ops" where
  "android_plugin X cb = lift_ops AndroidState the_android (android_ops X cb)"

definition wallet_plugins :: "externals \<Rightarrow> ('c plugin_state, 'w) plugin_ops set" where
  "wallet_plugins X = {softkey_plugin X} \<union> range (fido_plugin X) \<union> range (apple_plugin X)
     \<union> range (android_plugin X)"

text \<open>The state under a plugin's id is that plugin's, and it is well formed.\<close>

definition wallet_good :: "string \<Rightarrow> 'c plugin_state \<Rightarrow> bool" where
  "wallet_good pid s =
     (case s of
        SoftkeyState p \<Rightarrow> pid = ''softkey'' \<and> sk_inv p
      | FidoState p \<Rightarrow> pid = ''fido2'' \<and> fd_inv p
      | AppleState p \<Rightarrow> pid = ''apple-se'' \<and> se_inv p
      | AndroidState p \<Rightarrow> pid = PLUGIN_ID \<and> an_inv p
      | RemoteState p \<Rightarrow> False)"

definition wallet_held :: "'c plugin_state \<Rightarrow> key_id set" where
  "wallet_held s =
     (case s of SoftkeyState p \<Rightarrow> sk_held p | FidoState p \<Rightarrow> fd_held p
      | AppleState p \<Rightarrow> se_held p | AndroidState p \<Rightarrow> an_held p | RemoteState p \<Rightarrow> {})"

lemma wallet_held_simps [simp]:
  "wallet_held (SoftkeyState p) = sk_held p" "wallet_held (FidoState q) = fd_held q"
  "wallet_held (AppleState a) = se_held a" "wallet_held (AndroidState d) = an_held d"
  by (simp_all add: wallet_held_def)

lemma wallet_plugin_ids [simp]:
  "po_id (softkey_plugin X) = ''softkey''" "po_id (fido_plugin X t) = ''fido2''"
  "po_id (apple_plugin X c) = ''apple-se''" "po_id (android_plugin X d) = PLUGIN_ID"
  by (simp_all add: softkey_plugin_def fido_plugin_def apple_plugin_def android_plugin_def)

lemma wallet_good_at:
  "wallet_good ''softkey'' s \<longleftrightarrow> (\<exists>a. s = SoftkeyState a \<and> sk_inv a)"
  "wallet_good ''fido2'' s \<longleftrightarrow> (\<exists>a. s = FidoState a \<and> fd_inv a)"
  "wallet_good ''apple-se'' s \<longleftrightarrow> (\<exists>a. s = AppleState a \<and> se_inv a)"
  "wallet_good PLUGIN_ID s \<longleftrightarrow> (\<exists>a. s = AndroidState a \<and> an_inv a)"
  by (cases s; simp add: wallet_good_def PLUGIN_ID_def)+

lemma wallet_key_store:
  assumes "ops \<in> wallet_plugins X"
  shows "key_store ops (wallet_good (po_id ops)) wallet_held"
proof -
  consider "ops = softkey_plugin X" | t where "ops = fido_plugin X t"
    | c where "ops = apple_plugin X c" | d where "ops = android_plugin X d"
    using assms by (auto simp: wallet_plugins_def)
  then show ?thesis
  proof cases
    case 1
    show ?thesis unfolding 1 wallet_plugin_ids unfolding softkey_plugin_def
      by (rule lift_key_store [OF sk.key_store_axioms]) (simp_all add: wallet_good_at)
  next
    case 2
    show ?thesis unfolding 2 wallet_plugin_ids unfolding fido_plugin_def
      by (rule lift_key_store [OF fd.key_store_axioms]) (simp_all add: wallet_good_at)
  next
    case 3
    show ?thesis unfolding 3 wallet_plugin_ids unfolding apple_plugin_def
      by (rule lift_key_store [OF se.key_store_axioms]) (simp_all add: wallet_good_at)
  next
    case 4
    show ?thesis unfolding 4 wallet_plugin_ids unfolding android_plugin_def
      by (rule lift_key_store [OF ak.key_store_axioms]) (simp_all add: wallet_good_at)
  qed
qed

text \<open>The keys a context lists, and those that go when it is destroyed: with FIDO2, every key of the store.\<close>

definition context_keys :: "'c plugin_state \<Rightarrow> string \<Rightarrow> key_id set" where
  "context_keys s cid =
     (case s of SoftkeyState p \<Rightarrow> sk_context_keys p cid | FidoState p \<Rightarrow> fd_context_keys p cid | _ \<Rightarrow> {})"

definition destroyed_keys :: "'c plugin_state \<Rightarrow> string \<Rightarrow> key_id set" where
  "destroyed_keys s cid =
     (case s of SoftkeyState p \<Rightarrow> sk_context_keys p cid | FidoState p \<Rightarrow> fd_held p | _ \<Rightarrow> {})"

lemma context_keys_simps [simp]:
  "context_keys (SoftkeyState p) = sk_context_keys p" "context_keys (FidoState q) = fd_context_keys q"
  "context_keys (AppleState a) = (\<lambda>cid. {})" "context_keys (AndroidState d) = (\<lambda>cid. {})"
  "destroyed_keys (SoftkeyState p) = sk_context_keys p" "destroyed_keys (FidoState q) = fd_destroyed_keys q"
  "destroyed_keys (AppleState a) = (\<lambda>cid. {})" "destroyed_keys (AndroidState d) = (\<lambda>cid. {})"
  by (simp_all add: context_keys_def destroyed_keys_def fd_destroyed_keys_def fun_eq_iff)

lemma wallet_managed_store:
  assumes "ops \<in> wallet_plugins X"
  shows "managed_store ops (wallet_good (po_id ops)) wallet_held context_keys destroyed_keys"
proof -
  consider "ops = softkey_plugin X" | t where "ops = fido_plugin X t"
    | c where "ops = apple_plugin X c" | d where "ops = android_plugin X d"
    using assms by (auto simp: wallet_plugins_def)
  then show ?thesis
  proof cases
    case 1
    show ?thesis unfolding 1 wallet_plugin_ids unfolding softkey_plugin_def
      by (rule lift_managed_store [OF skm.managed_store_axioms]) (simp_all add: wallet_good_at)
  next
    case 2
    show ?thesis unfolding 2 wallet_plugin_ids unfolding fido_plugin_def
      by (rule lift_managed_store [OF fdm.managed_store_axioms]) (simp_all add: wallet_good_at)
  next
    case 3
    show ?thesis unfolding 3 wallet_plugin_ids unfolding apple_plugin_def
      by (rule lift_managed_store [OF sem.managed_store_axioms]) (simp_all add: wallet_good_at)
  next
    case 4
    show ?thesis unfolding 4 wallet_plugin_ids unfolding android_plugin_def
      by (rule lift_managed_store [OF akm.managed_store_axioms]) (simp_all add: wallet_good_at)
  qed
qed

interpretation wallet: plugin_host "wallet_plugins X" wallet_good wallet_held for X
  by (rule plugin_host.intro) (rule wallet_key_store)

abbreviation wallet_ok :: "externals \<Rightarrow> ('c plugin_state, 'w) manager \<Rightarrow> bool" where
  "wallet_ok X \<equiv> mgr_ok (wallet_plugins X) wallet_good"

subsection \<open>Properties\<close>

text \<open>A wallet with the software key store registered and every operation routed to it.\<close>

definition ref_wallet :: "(unit plugin_state, nat) manager" where
  "ref_wallet = register_plugin (softkey_plugin ref_externals) (SoftkeyState softkey_new)
     (manager_new default_config)"

lemma ref_wallet_ok: "wallet_ok ref_externals ref_wallet"
  unfolding ref_wallet_def
  by (intro mgr_ok_register mgr_ok_new)
     (simp_all add: wallet_plugins_def wallet_good_def softkey_new_def sk_inv_def)

lemma ref_wallet_get: "hm_get (mg_plugins ref_wallet) ''softkey'' =
    Some (softkey_plugin ref_externals, SoftkeyState softkey_new)"
  by (simp add: ref_wallet_def register_plugin_def)

text \<open>The same wallet once the software key store has generated a key, bound to it.\<close>

lemma ref_wallet_with_key:
  obtains g p1 w1 and m1 :: "(unit plugin_state, nat) manager" where
    "softkey_generate_key ref_externals ES256 ref_env (ref_auth []) (softkey_new, 0 :: nat) = (Inr g, (p1, w1))"
    "wallet_ok ref_externals m1" "bound m1 (gk_kid g) = Some ''softkey''"
    "hm_get (mg_plugins m1) ''softkey'' = Some (softkey_plugin ref_externals, SoftkeyState p1)"
proof -
  obtain g p1 w1 where g: "softkey_generate_key ref_externals ES256 ref_env (ref_auth []) (softkey_new, 0 :: nat) =
      (Inr g, (p1, w1))" using ref_softkey_generates by blast
  have "sk_inv p1"
    using sk.generate_ok [of softkey_new ref_externals ES256 ref_env "ref_auth []" 0 g p1 w1] g
    by (simp add: softkey_new_def sk_inv_def)
  then have "wallet_ok ref_externals (bind_key (gk_kid g) ''softkey''
      (register_plugin (softkey_plugin ref_externals) (SoftkeyState p1) (manager_new default_config)))"
    unfolding binding_simps
    by (intro mgr_ok_register mgr_ok_new) (simp_all add: wallet_plugins_def wallet_good_def)
  then show thesis by (rule that [OF g]) (simp_all add: register_plugin_def)
qed

lemma ref_wallet_generates:
  "\<exists>g m' w'. manager_generate_key ES256 ref_env auth (ref_wallet, w) = (Inr g, (m', w')) \<and>
     generate_key_on ''softkey'' ES256 ref_env auth (ref_wallet, w) = (Inr g, (m', w'))"
proof -
  obtain g p' w' where g: "softkey_generate_key ref_externals ES256 ref_env auth (softkey_new, w)
      = (Inr g, (p', w'))" using ref_softkey_generates by blast
  have cfg: "mg_config ref_wallet = default_config"
    by (simp add: ref_wallet_def register_plugin_def manager_new_def)
  have "on_plugin ''softkey'' (\<lambda>ops. po_generate_key ops ES256 ref_env auth) (ref_wallet, w) =
      (Inr g, (put_plugin ''softkey'' (softkey_plugin ref_externals) (SoftkeyState p') ref_wallet, w'))"
    using g by (simp add: on_plugin_def ref_wallet_get put_plugin_def softkey_plugin_def lift_eff_def)
  then show ?thesis
    using cfg ref_wallet_get
    by (auto simp: manager_generate_key_def generate_key_on_def resolve_for_generate_def
        default_config_def get_plugin_def hm_contains_def ebind_def get_state_def modify_state_def Let_def)
qed

lemma ref_wallet_reaches_unattested:
  "\<exists>g m' w'. generate_key_for_level Unattested [''softkey''] ES256 ref_env auth (ref_wallet, w) = (Inr g, (m', w'))"
proof -
  obtain g m' w' where run: "manager_generate_key ES256 ref_env auth (ref_wallet, w) = (Inr g, (m', w'))"
    and on: "generate_key_on ''softkey'' ES256 ref_env auth (ref_wallet, w) = (Inr g, (m', w'))"
    using ref_wallet_generates by blast
  obtain props where "manager_security_properties m' (gk_kid g) = Inr props"
    using wallet.generated_usable [OF ref_wallet_ok run] by (cases "manager_security_properties m' (gk_kid g)") auto
  then show ?thesis
    using on by (simp add: generate_key_for_level_def get_plugin_def hm_contains_def ref_wallet_get)
qed

text \<open>C2: the keys of a store have a history. Whatever sequence of requests a client makes to one of the four key
  stores - generate, import, sign, list, attest, export, delete and the four lifecycle operations, failing or not -
  the store stays well formed and holds exactly the keys of the ledger of these requests: a request adds the key it
  generated or imported (registering a context and rotating one generate a key; the key of a rotation stays even
  when it fails for an unknown context); a successful deletion takes away the key it names, registering a context
  anew the keys that context listed, and destroying one its keys, or with FIDO2 every key of the store. Nothing else
  does: a key stays until such a request, and no key appears that was not held or generated before.\<close>

theorem keys_have_a_history:
  assumes "ops \<in> wallet_plugins X" and "wallet_good (po_id ops) (fst s)"
  shows "wallet_good (po_id ops) (fst (perform_all ops env auth reqs s)) \<and>
    wallet_held (fst (perform_all ops env auth reqs s)) =
      key_ledger context_keys destroyed_keys ops env auth reqs s (wallet_held (fst s)) \<and>
    wallet_held (fst s) - lost_in context_keys destroyed_keys ops env auth reqs s
      \<subseteq> wallet_held (fst (perform_all ops env auth reqs s)) \<and>
    wallet_held (fst (perform_all ops env auth reqs s))
      \<subseteq> wallet_held (fst s) \<union> generated_in ops env auth reqs s"
  using managed_store.key_history [OF wallet_managed_store [OF assms(1)] assms(2)] key_ledger_keeps key_ledger_adds
  by metis

text \<open>A key is generated into a context; destroying another context leaves it, destroying its own removes it.\<close>

definition register_a :: store_request where
  "register_a = ReqRegister \<lparr>rr_plugin_id = ''softkey'', rr_context_id = ''a'', rr_factor_kind = FkOpaque\<rparr>"

definition destroy_of :: "string \<Rightarrow> store_request" where
  "destroy_of cid = ReqDestroy \<lparr>dr_plugin_id = ''softkey'', dr_context_id = cid, dr_mode = LocalOnly,
     dr_reason = None\<rparr>"

theorem keys_have_a_history_witness:
  "\<exists>kid. wallet_held (fst (perform_all (softkey_plugin ref_externals) ref_env (ref_auth [])
       [register_a, destroy_of ''b''] (SoftkeyState softkey_new :: unit plugin_state, 0))) = {kid} \<and>
     wallet_held (fst (perform_all (softkey_plugin ref_externals) ref_env (ref_auth [])
       [register_a, destroy_of ''a''] (SoftkeyState softkey_new :: unit plugin_state, 0))) = {}"
proof -
  let ?ops = "softkey_plugin ref_externals :: (unit plugin_state, nat) plugin_ops"
  let ?s = "(SoftkeyState softkey_new :: unit plugin_state, 0 :: nat)"
  have h: "wallet_held (fst (perform_all ?ops ref_env (ref_auth []) reqs ?s)) =
      key_ledger context_keys destroyed_keys ?ops ref_env (ref_auth []) reqs ?s {}" for reqs
    using keys_have_a_history [of ?ops ref_externals ?s ref_env "ref_auth []" reqs]
    by (simp add: wallet_plugins_def wallet_good_def softkey_new_def sk_inv_def sk_held_def)
  let ?rq = "\<lparr>rr_plugin_id = ''softkey'', rr_context_id = ''a'', rr_factor_kind = FkOpaque\<rparr>"
  obtain g p1 w1 where g: "softkey_generate_key ref_externals ES256 ref_env (ref_auth []) (softkey_new, 0 :: nat)
      = (Inr g, (p1, w1))" using ref_softkey_generates by blast
  have "\<exists>out p2 w2. softkey_register_lifecycle ref_externals ?rq ref_env (ref_auth []) (softkey_new, 0 :: nat)
      = (Inr out, (p2, w2))"
    using g by (simp add: softkey_register_lifecycle_def register_lifecycle_context_def now_unix_def
        on_snd_def etotal_def ebind_def modify_state_def get_state_def split: prod.split)
  then obtain out p2 w2 where r: "softkey_register_lifecycle ref_externals ?rq ref_env (ref_auth [])
      (softkey_new, 0 :: nat) = (Inr out, (p2, w2))" by blast
  then have lc: "sk_context_keys p2 ''a'' = {gk_kid g}" "hm_get (sk_lifecycle p2) ''a'' \<noteq> None"
    "hm_get (sk_lifecycle p2) ''b'' = None"
    using softkey_register_run [OF r] g softkey_generate_effect(3) [OF _ g]
    by (auto simp: sk_context_keys_def softkey_new_def sk_inv_def)
  have d: "is_ok (fst (softkey_destroy_lifecycle \<lparr>dr_plugin_id = ''softkey'', dr_context_id = cid,
      dr_mode = LocalOnly, dr_reason = None\<rparr> ref_env (ref_auth []) (p2, w2))) \<longleftrightarrow>
      hm_get (sk_lifecycle p2) cid \<noteq> None" for cid
  proof -
    obtain q p3 w3 where run: "softkey_destroy_lifecycle \<lparr>dr_plugin_id = ''softkey'', dr_context_id = cid,
        dr_mode = LocalOnly, dr_reason = None\<rparr> ref_env (ref_auth []) (p2, w2) = (q, (p3, w3))"
      by (metis prod.collapse)
    show ?thesis using softkey_destroy_run [OF run] run by (auto split: option.splits)
  qed
  have "key_ledger context_keys destroyed_keys ?ops ref_env (ref_auth []) [register_a, destroy_of cid] ?s {} =
      {gk_kid g} - (if hm_get (sk_lifecycle p2) cid \<noteq> None then sk_context_keys p2 cid else {})" for cid
    using g r d [of cid]
    by (simp add: register_a_def destroy_of_def perform_def generated_by_def lost_by_def softkey_plugin_def
        lift_ops_def lift_eff_def softkey_ops_def new_key_def sk_context_keys_def softkey_new_def
        case_prod_unfold)
  then show ?thesis unfolding h using lc by simp
qed

text \<open>C1: generating for a level, among the four key stores. On success the key is bound to one of the candidates, which holds
  it and vouches for at least the level required. However it ends, no key of a rejected candidate is
  left: a plugin holds afterwards only keys it held before, the key returned, or a key whose name is
  bound to another plugin, except when the error says that a key could not be deleted.\<close>

theorem generate_for_level_keeps_promise:
  assumes "wallet_ok X m"
    and "generate_key_for_level required candidates alg env auth (m, w) = (r, (m', w'))"
  shows "wallet_ok X m' \<and>
    (\<forall>pid. mgr_held wallet_held m' pid \<subseteq>
       mgr_held wallet_held m pid \<union> new_keys r \<union> bound_elsewhere m pid \<union>
       {kid. \<exists>e. r = Inl e \<and> is_cleanup_failure e}) \<and>
    (\<forall>g. r = Inr g \<longrightarrow>
       (\<exists>pid \<in> set candidates. bound m' (gk_kid g) = Some pid \<and>
          gk_kid g \<in> mgr_held wallet_held m' pid) \<and>
       (\<exists>props. manager_security_properties m' (gk_kid g) = Inr props \<and>
          required \<le> sp_certification props))"
proof -
  have "loop_promise (wallet_plugins X) wallet_good wallet_held required (set candidates) m r m'"
  proof (cases "candidates = []")
    case True
    then show ?thesis
      using assms wallet.loop_ended [OF candidate_rejected_refl [OF assms(1)]]
      by (fastforce simp: generate_key_for_level_def)
  next
    case False
    then show ?thesis
      using assms wallet.try_candidates_promise by (fastforce simp: generate_key_for_level_def)
  qed
  then show ?thesis unfolding loop_promise_def by blast
qed

theorem generate_for_level_keeps_promise_witness:
  "\<exists>g m' w'. generate_key_for_level Unattested [''softkey''] ES256 ref_env (ref_auth []) (ref_wallet, 0)
     = (Inr g, (m', w')) \<and> gk_kid g \<in> mgr_held wallet_held m' ''softkey'' \<and> wallet_ok ref_externals m'"
proof -
  obtain g m' w' where run: "generate_key_for_level Unattested [''softkey''] ES256 ref_env (ref_auth [])
      (ref_wallet, 0) = (Inr g, (m', w'))" using ref_wallet_reaches_unattested by blast
  show ?thesis using generate_for_level_keeps_promise [OF ref_wallet_ok run] run by auto
qed

text \<open>C9: a key generated through the manager is usable through it, whichever of the four key stores it
  comes from. It is bound to the plugin the
  generation was routed to, that plugin holds it, and asking the manager for its security properties
  succeeds.\<close>

theorem generated_key_is_routable:
  assumes "wallet_ok X m" and "manager_generate_key alg env auth (m, w) = (Inr g, (m', w'))"
  shows "\<exists>pid. resolve_for_generate m = Inr pid \<and> bound m' (gk_kid g) = Some pid \<and>
    gk_kid g \<in> mgr_held wallet_held m' pid \<and> is_ok (manager_security_properties m' (gk_kid g))"
  by (rule wallet.generated_usable [OF assms])

theorem generated_key_is_routable_witness:
  "\<exists>g m' w'. manager_generate_key ES256 ref_env (ref_auth []) (ref_wallet, 0) = (Inr g, (m', w')) \<and>
     is_ok (manager_security_properties m' (gk_kid g))"
proof -
  obtain g m' w' where run: "manager_generate_key ES256 ref_env (ref_auth []) (ref_wallet, 0)
      = (Inr g, (m', w'))" using ref_wallet_generates by blast
  show ?thesis using generated_key_is_routable [OF ref_wallet_ok run] run by blast
qed

text \<open>C10: signing through the manager, with the four key stores registered. Signing with a bound key is
  exactly the sign of the plugin it is bound to: the manager returns that plugin's answer - its
  signature or its error - to these data, and the outside world is what that plugin made of it. A
  signature comes only from a plugin that holds the key; without the plugin nothing happens at all.
  No plugin's keys and no binding change, whether or not it signs.\<close>

theorem sign_reaches_the_holder:
  assumes "wallet_ok X m" and "bound m kid = Some pid"
    and "manager_sign kid data alg env auth (m, w) = (r, (m', w'))"
  shows "(\<forall>q. mgr_held wallet_held m' q = mgr_held wallet_held m q) \<and> (\<forall>k. bound m' k = bound m k) \<and>
    (case hm_get (mg_plugins m) pid of
       None \<Rightarrow> r = Inl (NoPlugin pid) \<and> w' = w
     | Some (ops, st) \<Rightarrow> po_sign ops kid data alg env auth (st, w) = (r, (st, w')) \<and>
         (is_ok r \<longrightarrow> kid \<in> wallet_held st))"
proof -
  have o: "on_plugin pid (\<lambda>ops. po_sign ops kid data alg env auth) (m, w) = (r, (m', w'))"
    using assms(3) manager_sign_bound [OF assms(2)] by simp
  have h: "kid \<in> mgr_held wallet_held m pid" if "is_ok r"
    using wallet.sign_bound(3) [OF assms] that by (cases r) auto
  have "case hm_get (mg_plugins m) pid of
       None \<Rightarrow> r = Inl (NoPlugin pid) \<and> w' = w
     | Some (ops, st) \<Rightarrow> po_sign ops kid data alg env auth (st, w) = (r, (st, w')) \<and>
         (is_ok r \<longrightarrow> kid \<in> wallet_held st)"
    using o
  proof (cases rule: on_plugin_cases)
    case (ran ops st st')
    have reg: "ops \<in> wallet_plugins X" "wallet_good (po_id ops) st" using mgr_okD [OF assms(1) ran(1)] by auto
    have "st' = st" by (rule key_store.sign_frame [OF wallet_key_store [OF reg(1)] reg(2) ran(2)])
    then show ?thesis using ran h by (simp add: mgr_held_def)
  qed simp
  then show ?thesis using wallet.sign_bound(1,2) [OF assms] by blast
qed

theorem sign_reaches_the_holder_witness:
  "\<exists>kid sig m m' w w' p. manager_sign kid [1, 2] ES256 ref_env (ref_auth []) (m, w) =
       (Inr sig, (m' :: (unit plugin_state, nat) manager, w')) \<and>
     bound m kid = Some ''softkey'' \<and> hm_get (mg_plugins m) ''softkey'' = Some (softkey_plugin ref_externals, p) \<and>
     po_sign (softkey_plugin ref_externals) kid [1, 2] ES256 ref_env (ref_auth []) (p, w) = (Inr sig, (p, w')) \<and>
     kid \<in> wallet_held p"
proof -
  obtain g p1 w1 and m1 :: "(unit plugin_state, nat) manager" where
    g: "softkey_generate_key ref_externals ES256 ref_env (ref_auth []) (softkey_new, 0 :: nat) = (Inr g, (p1, w1))"
    and ok: "wallet_ok ref_externals m1" and b: "bound m1 (gk_kid g) = Some ''softkey''"
    and m1: "hm_get (mg_plugins m1) ''softkey'' = Some (softkey_plugin ref_externals, SoftkeyState p1)"
    by (rule ref_wallet_with_key)
  obtain sig w2 where sig: "softkey_sign ref_externals (gk_kid g) [1, 2] ES256 ref_env (ref_auth []) (p1, w1) =
      (Inr sig, (p1, w2))"
    using generated_software_key_works [OF ref_base64_ok ref_secrets_ok g, of "[1, 2]" ES256 w1] by blast
  have "on_plugin ''softkey'' (\<lambda>ops. po_sign ops (gk_kid g) [1, 2] ES256 ref_env (ref_auth [])) (m1, w1) =
      (Inr sig, (put_plugin ''softkey'' (softkey_plugin ref_externals) (SoftkeyState p1) m1, w2))"
    using sig by (simp add: on_plugin_def m1 put_plugin_def softkey_plugin_def lift_eff_def)
  then have run: "manager_sign (gk_kid g) [1, 2] ES256 ref_env (ref_auth []) (m1, w1) =
      (Inr sig, (put_plugin ''softkey'' (softkey_plugin ref_externals) (SoftkeyState p1) m1, w2))"
    using manager_sign_bound [OF b] by simp
  have "po_sign (softkey_plugin ref_externals) (gk_kid g) [1, 2] ES256 ref_env (ref_auth []) (SoftkeyState p1 :: unit plugin_state, w1) =
      (Inr sig, (SoftkeyState p1, w2))" "gk_kid g \<in> wallet_held (SoftkeyState p1 :: unit plugin_state)"
    using sign_reaches_the_holder [OF ok b run] m1 by simp_all
  then show ?thesis using run b m1 by blast
qed

text \<open>C8: deleting a bound key, with the four key stores registered. On success the plugin of the binding held the key and no longer does,
  its binding is gone, and every other key and binding is as before; on failure nothing changed.\<close>

theorem delete_removes_key_and_binding:
  assumes "wallet_ok X m" and "bound m kid = Some pid"
    and "manager_delete_key kid (m, w) = (r, (m', w'))"
  shows "(case r of
      Inr _ \<Rightarrow> kid \<in> mgr_held wallet_held m pid \<and>
        (\<forall>k. bound m' k = (if k = kid then None else bound m k)) \<and>
        (\<forall>q. mgr_held wallet_held m' q = mgr_held wallet_held m q - (if q = pid then {kid} else {}))
    | Inl _ \<Rightarrow> (\<forall>k. bound m' k = bound m k) \<and>
        (\<forall>q. mgr_held wallet_held m' q = mgr_held wallet_held m q)) \<and> wallet_ok X m'"
  using wallet.delete_bound [OF assms] by (cases r) auto

theorem delete_removes_key_and_binding_witness:
  "\<exists>kid m m' w w'. manager_delete_key kid (m :: (unit plugin_state, nat) manager, w) = (Inr (), (m', w')) \<and>
     bound m kid = Some ''softkey'' \<and> kid \<in> mgr_held wallet_held m ''softkey'' \<and>
     bound m' kid = None \<and> kid \<notin> mgr_held wallet_held m' ''softkey'' \<and> wallet_ok ref_externals m'"
proof -
  obtain g p1 w1 and m1 :: "(unit plugin_state, nat) manager" where
    g: "softkey_generate_key ref_externals ES256 ref_env (ref_auth []) (softkey_new, 0 :: nat) = (Inr g, (p1, w1))"
    and ok: "wallet_ok ref_externals m1" and b: "bound m1 (gk_kid g) = Some ''softkey''"
    and m1: "hm_get (mg_plugins m1) ''softkey'' = Some (softkey_plugin ref_externals, SoftkeyState p1)"
    by (rule ref_wallet_with_key)
  have "gk_kid g \<in> sk_held p1"
    using sk.generate_ok [of softkey_new ref_externals ES256 ref_env "ref_auth []" 0 g p1 w1] g
    by (simp add: softkey_new_def sk_inv_def)
  then have "\<exists>m' w'. manager_delete_key (gk_kid g) (m1, 0) = (Inr (), (m', w'))"
    using m1 b
    by (auto simp: manager_delete_key_def routed_def ebind_def get_state_def resolve_bound get_plugin_def
        hm_contains_def on_plugin_def softkey_plugin_def lift_eff_def softkey_delete_cases sk_held_def
        modify_state_def)
  then obtain m' w' where run: "manager_delete_key (gk_kid g) (m1, 0) = (Inr (), (m', w'))" by blast
  have "gk_kid g \<in> mgr_held wallet_held m1 ''softkey''" "bound m' (gk_kid g) = None"
    "gk_kid g \<notin> mgr_held wallet_held m' ''softkey''" "wallet_ok ref_externals m'"
    using delete_removes_key_and_binding [OF ok b run] by simp_all
  then show ?thesis using run b by blast
qed

text \<open>The first sufficient candidate wins. If a list of candidates yields a key, any longer list
  starting with it yields the same key, the same manager and the same outside world: later candidates
  are not consulted.\<close>

lemma first_sufficient_candidate_wins:
  assumes "generate_key_for_level required ps alg env auth s = (Inr g, t)"
  shows "generate_key_for_level required (ps @ qs) alg env auth s = (Inr g, t)"
  using assms try_candidates_first_fit [of required None ps alg env auth s g t qs]
  by (auto simp: generate_key_for_level_def split: if_splits)

end
