(* ===== verification/Ffi_Types.thy ===== *)
theory Ffi_Types
  imports Wallet
begin

section \<open>The types of the foreign interface: src/ffi.rs, first half\<close>

text \<open>
  The interface for Swift and Kotlin has a copy of every type that crosses it, with \<open>From\<close>
  conversions, and adapters that present the host's callbacks to the crate. A conversion into the
  interface is named \<open>.._to_ffi\<close>, out of it \<open>.._from_ffi\<close>. The conversions that exist in both
  directions are inverse to each other. The adapters differ in which of the host's errors they keep
  apart: the lemmas on \<open>auth_error\<close>, \<open>enclave_error\<close>, \<open>generate_error\<close> and \<open>callback_error\<close> say what
  becomes of a refusal.

  \<open>FfiAuthMethod\<close>, which no function uses, has no counterpart. \<open>FfiPanic\<close> stands for the error UniFFI
  itself raises when the Rust code panics.
\<close>

subsection \<open>Enumerations\<close>

datatype ffi_algorithm = FfiES256 | FfiEdDSA | FfiBls12381G1Schnorr

fun algorithm_from_ffi :: "ffi_algorithm \<Rightarrow> algorithm" where
  "algorithm_from_ffi FfiES256 = ES256"
| "algorithm_from_ffi FfiEdDSA = EdDSA"
| "algorithm_from_ffi FfiBls12381G1Schnorr = Bls12381G1Schnorr"

fun algorithm_to_ffi :: "algorithm \<Rightarrow> ffi_algorithm" where
  "algorithm_to_ffi ES256 = FfiES256"
| "algorithm_to_ffi EdDSA = FfiEdDSA"
| "algorithm_to_ffi Bls12381G1Schnorr = FfiBls12381G1Schnorr"

datatype ffi_operation_progress =
    FfiStarted string
  | FfiNetworkRoundTrip nat nat
  | FfiWaitingForUser
  | FfiComplete

fun progress_to_ffi :: "operation_progress \<Rightarrow> ffi_operation_progress" where
  "progress_to_ffi (Started operation) = FfiStarted operation"
| "progress_to_ffi (NetworkRoundTrip st n) = FfiNetworkRoundTrip st n"
| "progress_to_ffi WaitingForUser = FfiWaitingForUser"
| "progress_to_ffi Complete = FfiComplete"

datatype ffi_migration_result = FfiMigrated string | FfiReEnrollmentRequired string

fun migration_to_ffi :: "migration_result \<Rightarrow> ffi_migration_result" where
  "migration_to_ffi (Migrated new_kid) = FfiMigrated new_kid"
| "migration_to_ffi (ReEnrollmentRequired old_kid) = FfiReEnrollmentRequired old_kid"

datatype ffi_factor_kind = FfiOpaque | FfiWebAuthn | FfiRawSign

fun factor_kind_from_ffi :: "ffi_factor_kind \<Rightarrow> factor_kind" where
  "factor_kind_from_ffi FfiOpaque = FkOpaque"
| "factor_kind_from_ffi FfiWebAuthn = FkWebAuthn"
| "factor_kind_from_ffi FfiRawSign = FkRawSign"

fun factor_kind_to_ffi :: "factor_kind \<Rightarrow> ffi_factor_kind" where
  "factor_kind_to_ffi FkOpaque = FfiOpaque"
| "factor_kind_to_ffi FkWebAuthn = FfiWebAuthn"
| "factor_kind_to_ffi FkRawSign = FfiRawSign"

datatype ffi_lifecycle_state =
  FfiUninitialized | FfiRegistered | FfiActive | FfiSuspended | FfiDestroyed

fun lifecycle_state_to_ffi :: "lifecycle_state \<Rightarrow> ffi_lifecycle_state" where
  "lifecycle_state_to_ffi Uninitialized = FfiUninitialized"
| "lifecycle_state_to_ffi Registered = FfiRegistered"
| "lifecycle_state_to_ffi Active = FfiActive"
| "lifecycle_state_to_ffi Suspended = FfiSuspended"
| "lifecycle_state_to_ffi Destroyed = FfiDestroyed"

fun lifecycle_state_from_ffi :: "ffi_lifecycle_state \<Rightarrow> lifecycle_state" where
  "lifecycle_state_from_ffi FfiUninitialized = Uninitialized"
| "lifecycle_state_from_ffi FfiRegistered = Registered"
| "lifecycle_state_from_ffi FfiActive = Active"
| "lifecycle_state_from_ffi FfiSuspended = Suspended"
| "lifecycle_state_from_ffi FfiDestroyed = Destroyed"

datatype ffi_destroy_mode = FfiLocalOnly | FfiRemoteRevokeIfSupported | FfiStrict

fun destroy_mode_from_ffi :: "ffi_destroy_mode \<Rightarrow> destroy_mode" where
  "destroy_mode_from_ffi FfiLocalOnly = LocalOnly"
| "destroy_mode_from_ffi FfiRemoteRevokeIfSupported = RemoteRevokeIfSupported"
| "destroy_mode_from_ffi FfiStrict = Strict"

datatype ffi_key_storage_type = FfiSoftware | FfiHardware | FfiRemoteHsm | FfiTrustedExecution

fun key_storage_to_ffi :: "key_storage_type \<Rightarrow> ffi_key_storage_type" where
  "key_storage_to_ffi Software = FfiSoftware"
| "key_storage_to_ffi Hardware = FfiHardware"
| "key_storage_to_ffi RemoteHsm = FfiRemoteHsm"
| "key_storage_to_ffi TrustedExecution = FfiTrustedExecution"

datatype ffi_certification_level =
  FfiUnattested | FfiAttestedSharedEnvironment | FfiAttestedDedicatedHardware

fun certification_to_ffi :: "certification_level \<Rightarrow> ffi_certification_level" where
  "certification_to_ffi Unattested = FfiUnattested"
| "certification_to_ffi AttestedSharedEnvironment = FfiAttestedSharedEnvironment"
| "certification_to_ffi AttestedDedicatedHardware = FfiAttestedDedicatedHardware"

fun certification_from_ffi :: "ffi_certification_level \<Rightarrow> certification_level" where
  "certification_from_ffi FfiUnattested = Unattested"
| "certification_from_ffi FfiAttestedSharedEnvironment = AttestedSharedEnvironment"
| "certification_from_ffi FfiAttestedDedicatedHardware = AttestedDedicatedHardware"

datatype ffi_android_level = FfiLvStrongBox | FfiLvTrustedExecution | FfiLvSoftware | FfiLvUnknown

fun android_level_to_ffi :: "android_level \<Rightarrow> ffi_android_level" where
  "android_level_to_ffi LvStrongBox = FfiLvStrongBox"
| "android_level_to_ffi LvTrustedExecution = FfiLvTrustedExecution"
| "android_level_to_ffi LvSoftware = FfiLvSoftware"
| "android_level_to_ffi LvUnknown = FfiLvUnknown"

fun android_level_from_ffi :: "ffi_android_level \<Rightarrow> android_level" where
  "android_level_from_ffi FfiLvStrongBox = LvStrongBox"
| "android_level_from_ffi FfiLvTrustedExecution = LvTrustedExecution"
| "android_level_from_ffi FfiLvSoftware = LvSoftware"
| "android_level_from_ffi FfiLvUnknown = LvUnknown"

datatype ffi_factor_category = FfiKnowledge | FfiPossession | FfiInherence

fun category_to_ffi :: "factor_category \<Rightarrow> ffi_factor_category" where
  "category_to_ffi Knowledge = FfiKnowledge"
| "category_to_ffi Possession = FfiPossession"
| "category_to_ffi Inherence = FfiInherence"

fun category_from_ffi :: "ffi_factor_category \<Rightarrow> factor_category" where
  "category_from_ffi FfiKnowledge = Knowledge"
| "category_from_ffi FfiPossession = Possession"
| "category_from_ffi FfiInherence = Inherence"

datatype ffi_attestation_format = FfiX509Chain | FfiOpaqueAttestation

fun attestation_format_to_ffi :: "attestation_format \<Rightarrow> ffi_attestation_format" where
  "attestation_format_to_ffi X509Chain = FfiX509Chain"
| "attestation_format_to_ffi Opaque = FfiOpaqueAttestation"

text \<open>The enumerations that cross in both directions lose nothing.\<close>

lemma enum_round_trips [simp]:
  "algorithm_from_ffi (algorithm_to_ffi a) = a" "algorithm_to_ffi (algorithm_from_ffi a') = a'"
  "factor_kind_from_ffi (factor_kind_to_ffi k) = k" "factor_kind_to_ffi (factor_kind_from_ffi k') = k'"
  "lifecycle_state_from_ffi (lifecycle_state_to_ffi s) = s"
  "lifecycle_state_to_ffi (lifecycle_state_from_ffi s') = s'"
  "certification_from_ffi (certification_to_ffi c) = c"
  "certification_to_ffi (certification_from_ffi c') = c'"
  "android_level_from_ffi (android_level_to_ffi l) = l"
  "android_level_to_ffi (android_level_from_ffi l') = l'"
  "category_from_ffi (category_to_ffi f) = f" "category_to_ffi (category_from_ffi f') = f'"
  by ((cases a; simp), (cases a'; simp), (cases k; simp), (cases k'; simp), (cases s; simp), (cases s'; simp),
      (cases c; simp), (cases c'; simp), (cases l; simp), (cases l'; simp), (cases f; simp), (cases f'; simp))

subsection \<open>Errors\<close>

datatype ffi_pin_failure =
    FfiTooShort nat
  | FfiTooLong
  | FfiInvalidEncoding
  | FfiPolicyViolation
  | FfiPinInvalid
  | FfiPinBlocked
  | FfiAuthBlocked
  | FfiNotSet

fun pin_failure_to_ffi :: "pin_failure \<Rightarrow> ffi_pin_failure" where
  "pin_failure_to_ffi (TooShort min_length) = FfiTooShort min_length"
| "pin_failure_to_ffi TooLong = FfiTooLong"
| "pin_failure_to_ffi InvalidEncoding = FfiInvalidEncoding"
| "pin_failure_to_ffi PolicyViolation = FfiPolicyViolation"
| "pin_failure_to_ffi PinInvalid = FfiPinInvalid"
| "pin_failure_to_ffi PinBlocked = FfiPinBlocked"
| "pin_failure_to_ffi AuthBlocked = FfiAuthBlocked"
| "pin_failure_to_ffi NotSet = FfiNotSet"

datatype ffi_error =
    FfiNoPlugin string
  | FfiUnsupported string
  | FfiKeyNotFound string
  | FfiAuthRequired string
  | FfiAuthCancelled string
  | FfiReEnrollmentError string
  | FfiPlugin string
  | FfiCallback string
  | FfiSerialization string
  | FfiCrypto string
  | FfiPin ffi_pin_failure string
  | FfiStrongBoxUnavailable string
  | FfiUnconfirmedCleanup string
  | FfiPanic string

fun show_ffi_error :: "ffi_error \<Rightarrow> string" where
  "show_ffi_error (FfiNoPlugin msg) = ''no plugin: '' @ msg"
| "show_ffi_error (FfiUnsupported msg) = ''unsupported: '' @ msg"
| "show_ffi_error (FfiKeyNotFound msg) = ''key not found: '' @ msg"
| "show_ffi_error (FfiAuthRequired msg) = ''auth required: '' @ msg"
| "show_ffi_error (FfiAuthCancelled msg) = ''auth cancelled: '' @ msg"
| "show_ffi_error (FfiReEnrollmentError msg) = ''re-enrollment required: '' @ msg"
| "show_ffi_error (FfiPlugin msg) = ''plugin error: '' @ msg"
| "show_ffi_error (FfiCallback msg) = ''callback error: '' @ msg"
| "show_ffi_error (FfiSerialization msg) = ''serialization error: '' @ msg"
| "show_ffi_error (FfiCrypto msg) = ''crypto error: '' @ msg"
| "show_ffi_error (FfiPin reason msg) = ''PIN error: '' @ msg"
| "show_ffi_error (FfiStrongBoxUnavailable msg) = ''StrongBox unavailable: '' @ msg"
| "show_ffi_error (FfiUnconfirmedCleanup msg) = ''unconfirmed cleanup: '' @ msg"
| "show_ffi_error (FfiPanic msg) = msg"

definition error_to_ffi :: "wscd_error \<Rightarrow> ffi_error" where
  "error_to_ffi e =
     (let msg = show_error e in
      case e of
        NoPlugin _ \<Rightarrow> FfiNoPlugin msg
      | NoDefault _ \<Rightarrow> FfiNoPlugin msg
      | Unsupported _ _ \<Rightarrow> FfiUnsupported msg
      | KeyNotFound _ \<Rightarrow> FfiKeyNotFound msg
      | AuthRequired \<Rightarrow> FfiAuthRequired msg
      | AuthCancelled \<Rightarrow> FfiAuthCancelled msg
      | ReEnrollmentRequiredError _ \<Rightarrow> FfiReEnrollmentError msg
      | Plugin _ \<Rightarrow> FfiPlugin msg
      | Callback _ \<Rightarrow> FfiCallback msg
      | Serialization _ \<Rightarrow> FfiSerialization msg
      | Crypto _ \<Rightarrow> FfiCrypto msg
      | Pin f \<Rightarrow> FfiPin (pin_failure_to_ffi f) msg
      | StrongBoxUnavailable \<Rightarrow> FfiStrongBoxUnavailable msg
      | UnconfirmedCleanup _ _ \<Rightarrow> FfiUnconfirmedCleanup msg
      | RustPanic _ \<Rightarrow> FfiPanic msg)"

definition is_ffi_cancelled :: "ffi_error \<Rightarrow> bool" where
  "is_ffi_cancelled e = (case e of FfiAuthCancelled _ \<Rightarrow> True | _ \<Rightarrow> False)"

lemma error_to_ffi_cancelled [simp]: "is_ffi_cancelled (error_to_ffi e) \<longleftrightarrow> e = AuthCancelled"
  by (cases e) (simp_all add: error_to_ffi_def is_ffi_cancelled_def)

subsection \<open>Records\<close>

record ffi_lifecycle_status =
  fls_context_id :: string
  fls_plugin_id :: string
  fls_factor_kind :: ffi_factor_kind
  fls_state :: ffi_lifecycle_state
  fls_updated_at :: int

definition lifecycle_status_to_ffi :: "lifecycle_status \<Rightarrow> ffi_lifecycle_status" where
  "lifecycle_status_to_ffi v =
     \<lparr>fls_context_id = ls_context_id v, fls_plugin_id = ls_plugin_id v,
      fls_factor_kind = factor_kind_to_ffi (ls_factor_kind v),
      fls_state = lifecycle_state_to_ffi (ls_state v), fls_updated_at = ls_updated_at v\<rparr>"

record ffi_register_request =
  frr_plugin_id :: string
  frr_context_id :: string
  frr_factor_kind :: ffi_factor_kind

definition register_request_from_ffi :: "ffi_register_request \<Rightarrow> register_request" where
  "register_request_from_ffi v =
     \<lparr>rr_plugin_id = frr_plugin_id v, rr_context_id = frr_context_id v,
      rr_factor_kind = factor_kind_from_ffi (frr_factor_kind v)\<rparr>"

text \<open>\<open>FfiActivateLifecycleRequest\<close> and \<open>FfiRotateLifecycleRequest\<close> have the same two fields.\<close>

record ffi_context_request =
  fcr_plugin_id :: string
  fcr_context_id :: string

definition context_request_from_ffi :: "ffi_context_request \<Rightarrow> context_request" where
  "context_request_from_ffi v =
     \<lparr>cr_plugin_id = fcr_plugin_id v, cr_context_id = fcr_context_id v\<rparr>"

record ffi_destroy_request =
  fdr_plugin_id :: string
  fdr_context_id :: string
  fdr_mode :: ffi_destroy_mode
  fdr_reason :: "string option"

definition destroy_request_from_ffi :: "ffi_destroy_request \<Rightarrow> destroy_request" where
  "destroy_request_from_ffi v =
     \<lparr>dr_plugin_id = fdr_plugin_id v, dr_context_id = fdr_context_id v,
      dr_mode = destroy_mode_from_ffi (fdr_mode v), dr_reason = fdr_reason v\<rparr>"

text \<open>The registration, activation and rotation outcomes have the same two fields.\<close>

record ffi_lifecycle_outcome =
  flo_context_id :: string
  flo_state :: ffi_lifecycle_state

definition lifecycle_outcome_to_ffi :: "lifecycle_outcome \<Rightarrow> ffi_lifecycle_outcome" where
  "lifecycle_outcome_to_ffi v =
     \<lparr>flo_context_id = lo_context_id v, flo_state = lifecycle_state_to_ffi (lo_state v)\<rparr>"

record ffi_destruction_outcome =
  fdo_context_id :: string
  fdo_state :: ffi_lifecycle_state
  fdo_remote_performed :: bool

definition destruction_outcome_to_ffi :: "destruction_outcome \<Rightarrow> ffi_destruction_outcome" where
  "destruction_outcome_to_ffi v =
     \<lparr>fdo_context_id = do_context_id v, fdo_state = lifecycle_state_to_ffi (do_state v),
      fdo_remote_performed = do_remote_performed v\<rparr>"

record ffi_key_info =
  fki_kid :: string
  fki_algorithm :: ffi_algorithm
  fki_plugin_id :: string
  fki_created_at :: int

definition key_info_to_ffi :: "key_info \<Rightarrow> ffi_key_info" where
  "key_info_to_ffi k =
     \<lparr>fki_kid = ki_kid k, fki_algorithm = algorithm_to_ffi (ki_algorithm k),
      fki_plugin_id = ki_plugin_id k, fki_created_at = ki_created_at k\<rparr>"

text \<open>A JWK crosses as text: \<open>to_text\<close> is \<open>serde_json::Value::to_string\<close>.\<close>

record ffi_generated_key =
  fgk_kid :: string
  fgk_public_key_jwk :: string

definition generated_key_to_ffi :: "(json \<Rightarrow> string) \<Rightarrow> generated_key \<Rightarrow> ffi_generated_key" where
  "generated_key_to_ffi to_text g =
     \<lparr>fgk_kid = gk_kid g, fgk_public_key_jwk = to_text (gk_public_key_jwk g)\<rparr>"

record ffi_signature =
  fsg_data :: bytes

definition signature_to_ffi :: "bytes \<Rightarrow> ffi_signature" where
  "signature_to_ffi s = \<lparr>fsg_data = s\<rparr>"

record ffi_attestation_chain =
  fac_format :: ffi_attestation_format
  fac_certificates :: "bytes list"
  fac_client_data_hash :: bytes
  fac_opaque_attestation :: bytes

definition attestation_chain_to_ffi :: "attestation_chain \<Rightarrow> ffi_attestation_chain" where
  "attestation_chain_to_ffi a =
     \<lparr>fac_format = attestation_format_to_ffi (ac_format a), fac_certificates = ac_certificates a,
      fac_client_data_hash = ac_client_data_hash a,
      fac_opaque_attestation = ac_opaque_attestation a\<rparr>"

record ffi_wscd_config =
  fcfg_default_plugin :: string

record ffi_r2ps_config =
  frc_server_url :: string
  frc_client_id :: string
  frc_context :: string
  frc_auth_mode :: string
  frc_rp_id :: string
  frc_allowed_credential_ids :: "string list"
  frc_client_key_pem :: string
  frc_server_public_key_pem :: string

record ffi_security_properties =
  fsp_key_storage :: ffi_key_storage_type
  fsp_user_authentication :: "string list"
  fsp_certification :: ffi_certification_level
  fsp_amr :: "string list"

definition security_properties_to_ffi :: "security_properties \<Rightarrow> ffi_security_properties" where
  "security_properties_to_ffi s =
     \<lparr>fsp_key_storage = key_storage_to_ffi (sp_key_storage s),
      fsp_user_authentication = sp_user_authentication s,
      fsp_certification = certification_to_ffi (sp_certification s), fsp_amr = sp_amr s\<rparr>"

record ffi_auth_factor =
  faf_category :: ffi_factor_category
  faf_method :: string

definition auth_factor_to_ffi :: "auth_factor \<Rightarrow> ffi_auth_factor" where
  "auth_factor_to_ffi f =
     \<lparr>faf_category = category_to_ffi (af_category f), faf_method = af_method f\<rparr>"

record ffi_auth_factors =
  ffs_factors :: "ffi_auth_factor list"
  ffs_satisfies_two_categories :: bool
  ffs_shortfall :: "string option"

definition auth_factors_to_ffi :: "auth_factors \<Rightarrow> ffi_auth_factors" where
  "auth_factors_to_ffi f =
     \<lparr>ffs_factors = map auth_factor_to_ffi (fs_factors f),
      ffs_satisfies_two_categories = satisfies_two_categories (fs_factors f),
      ffs_shortfall = fs_shortfall f\<rparr>"

record ffi_sign_options =
  fso_require_fresh :: bool
  fso_host_factor :: "ffi_auth_factor option"

definition host_factor_from_ffi :: "ffi_auth_factor option \<Rightarrow> auth_factor option wres" where
  "host_factor_from_ffi f =
     (case f of
        None \<Rightarrow> Inr None
      | Some g \<Rightarrow> rbind (auth_factor_new (category_from_ffi (faf_category g)) (faf_method g))
                    (\<lambda>x. Inr (Some x)))"

definition sign_options_from_ffi :: "ffi_sign_options \<Rightarrow> sign_options wres" where
  "sign_options_from_ffi v =
     rbind (host_factor_from_ffi (fso_host_factor v)) (\<lambda>host_factor.
       let options = \<lparr>so_require_fresh = fso_require_fresh v, so_host_factor = host_factor\<rparr>
       in rbind (validate_options options) (\<lambda>_. Inr options))"

record ffi_sign_outcome =
  fout_signature :: ffi_signature
  fout_factors :: ffi_auth_factors

definition sign_outcome_to_ffi :: "sign_outcome \<Rightarrow> ffi_sign_outcome" where
  "sign_outcome_to_ffi v =
     \<lparr>fout_signature = signature_to_ffi (out_signature v),
      fout_factors = auth_factors_to_ffi (out_factors v)\<rparr>"

record ffi_factor_capability =
  ffc_can_reach :: bool
  ffc_requires_host_factor :: bool
  ffc_reason :: "string option"

definition capability_to_ffi :: "factor_capability \<Rightarrow> ffi_factor_capability" where
  "capability_to_ffi c =
     \<lparr>ffc_can_reach = fc_can_reach c, ffc_requires_host_factor = fc_requires_host_factor c,
      ffc_reason = fc_reason c\<rparr>"

record ffi_ec_public_key =
  fec_x :: bytes
  fec_y :: bytes

datatype ffi_client_pin_state = FfiPinSet | FfiPinNotSet | FfiPinUnsupported

datatype ffi_enrolment_suitability = FfiSuitable | FfiUnsuitable string

record ffi_authenticator_info =
  fai_versions :: "string list"
  fai_aaguid :: bytes
  fai_client_pin :: ffi_client_pin_state
  fai_min_pin_length :: nat
  fai_force_pin_change :: bool
  fai_pin_retries :: "nat option"
  fai_pin_uv_auth_protocols :: "nat list"
  fai_extensions :: "string list"
  fai_options :: "(string, bool) hashmap"
  fai_suitability :: ffi_enrolment_suitability

definition authenticator_info_to_ffi :: "authenticator_info \<Rightarrow> ffi_authenticator_info" where
  "authenticator_info_to_ffi i =
     \<lparr>fai_versions = ai_versions i, fai_aaguid = ai_aaguid i,
      fai_client_pin = (case ai_client_pin i of PinSet \<Rightarrow> FfiPinSet | PinNotSet \<Rightarrow> FfiPinNotSet
        | PinUnsupported \<Rightarrow> FfiPinUnsupported),
      fai_min_pin_length = ai_min_pin_length i, fai_force_pin_change = ai_force_pin_change i,
      fai_pin_retries = ai_pin_retries i, fai_pin_uv_auth_protocols = ai_pin_uv_auth_protocols i,
      fai_extensions = ai_extensions i, fai_options = ai_options i,
      fai_suitability = (case ai_suitability i of Suitable \<Rightarrow> FfiSuitable
        | Unsuitable reason \<Rightarrow> FfiUnsuitable reason)\<rparr>"

subsection \<open>The host's callbacks and their adapters\<close>

text \<open>
  The traits the host implements, as records of functions on the outside world.
\<close>

record 'w ffi_auth_callback =
  fa_request_pin :: "string \<Rightarrow> ('w, ffi_error, bytes) eff"
  fa_request_new_pin :: "string \<Rightarrow> nat \<Rightarrow> ('w, ffi_error, bytes) eff"
  fa_request_webauthn_assertion ::
    "string \<Rightarrow> bytes \<Rightarrow> string \<Rightarrow> bytes list \<Rightarrow> ('w, ffi_error, bytes) eff"

type_synonym 'w ffi_progress_callback = "ffi_operation_progress \<Rightarrow> 'w \<Rightarrow> 'w"

type_synonym 'w ffi_transport = "bytes \<Rightarrow> ('w, ffi_error, bytes) eff"

record 'w ffi_android_callback =
  fk_generate :: "string \<Rightarrow> bytes option \<Rightarrow> bool \<Rightarrow> string list \<Rightarrow> bool \<Rightarrow> ('w, ffi_error, ffi_android_level) eff"
  fk_certificate_chain :: "string \<Rightarrow> ('w, ffi_error, bytes list) eff"
  fk_public_key_jwk :: "string \<Rightarrow> ('w, ffi_error, string) eff"
  fk_security_level :: "string \<Rightarrow> ('w, ffi_error, ffi_android_level) eff"
  fk_user_authentication_methods :: "string \<Rightarrow> ('w, ffi_error, string list) eff"
  fk_sign :: "string \<Rightarrow> bytes \<Rightarrow> ('w, ffi_error, bytes) eff"
  fk_aliases :: "('w, ffi_error, string list) eff"
  fk_delete :: "string \<Rightarrow> ('w, ffi_error, unit) eff"

record ffi_enclave_public_key =
  fep_x :: bytes
  fep_y :: bytes

record 'w ffi_enclave_callback =
  fe_generate_key :: "string \<Rightarrow> ('w, ffi_error, ffi_enclave_public_key) eff"
  fe_sign :: "string \<Rightarrow> bytes \<Rightarrow> ('w, ffi_error, bytes) eff"
  fe_delete_key :: "string \<Rightarrow> ('w, ffi_error, unit) eff"

text \<open>\<open>map_err(|e| InternalError::Callback(format!("{e}")))\<close>: nothing is kept apart.\<close>

definition callback_error :: "ffi_error \<Rightarrow> wscd_error" where
  "callback_error e = Callback (show_ffi_error e)"

definition auth_error :: "ffi_error \<Rightarrow> wscd_error" where
  "auth_error e =
     (case e of
        FfiAuthCancelled _ \<Rightarrow> AuthCancelled
      | FfiAuthRequired _ \<Rightarrow> AuthRequired
      | other \<Rightarrow> Callback (show_ffi_error other))"

definition generate_error :: "ffi_error \<Rightarrow> wscd_error" where
  "generate_error e =
     (case e of
        FfiStrongBoxUnavailable _ \<Rightarrow> StrongBoxUnavailable
      | other \<Rightarrow> Callback (show_ffi_error other))"

definition enclave_error :: "ffi_error \<Rightarrow> wscd_error" where
  "enclave_error e =
     (case e of
        FfiAuthCancelled _ \<Rightarrow> AuthCancelled
      | FfiAuthRequired _ \<Rightarrow> AuthRequired
      | FfiKeyNotFound msg \<Rightarrow> KeyNotFound msg
      | other \<Rightarrow> Callback (show_ffi_error other))"

definition auth_bridge :: "'w ffi_auth_callback \<Rightarrow> 'w auth_callback" where
  "auth_bridge c =
     \<lparr>request_pin = (\<lambda>plugin_id. emap_err auth_error (fa_request_pin c plugin_id)),
      request_pin_for = (\<lambda>plugin_id kind.
        case kind of
          EnterPin \<Rightarrow> emap_err auth_error (fa_request_pin c plugin_id)
        | SetNewPin min_length \<Rightarrow> emap_err auth_error (fa_request_new_pin c plugin_id min_length)),
      request_webauthn_assertion = (\<lambda>plugin_id challenge rp_id allowed.
        emap_err auth_error (fa_request_webauthn_assertion c plugin_id challenge rp_id allowed))\<rparr>"

definition progress_bridge :: "'w ffi_progress_callback \<Rightarrow> 'w env \<Rightarrow> 'w env" where
  "progress_bridge c env = env\<lparr>env_progress := (\<lambda>p. c (progress_to_ffi p))\<rparr>"

text \<open>\<open>performs_user_verification\<close> keeps its default, so a native host's transport is a raw one.\<close>

definition transport_bridge :: "'w ffi_transport \<Rightarrow> 'w ctap2_transport" where
  "transport_bridge t =
     \<lparr>ctap2_send_command = (\<lambda>command. emap_err callback_error (t command)),
      performs_user_verification = False\<rparr>"

definition android_bridge :: "(string \<Rightarrow> string + json) \<Rightarrow> 'w ffi_android_callback \<Rightarrow> 'w android_callback" where
  "android_bridge of_text c =
     \<lparr>ak_generate = (\<lambda>alias challenge strong_box methods unlocked.
        emap android_level_from_ffi
          (emap_err generate_error (fk_generate c alias challenge strong_box methods unlocked))),
      ak_certificate_chain = (\<lambda>alias. emap_err callback_error (fk_certificate_chain c alias)),
      ak_public_key_jwk = (\<lambda>alias.
        ebind (emap_err callback_error (fk_public_key_jwk c alias)) (\<lambda>text_jwk.
          elift (map_err Serialization (of_text text_jwk)))),
      ak_security_level = (\<lambda>alias.
        emap android_level_from_ffi (emap_err callback_error (fk_security_level c alias))),
      ak_user_authentication_methods = (\<lambda>alias.
        emap_err callback_error (fk_user_authentication_methods c alias)),
      ak_sign = (\<lambda>alias data. emap_err callback_error (fk_sign c alias data)),
      ak_aliases = emap_err callback_error (fk_aliases c),
      ak_delete = (\<lambda>alias. emap_err callback_error (fk_delete c alias))\<rparr>"

definition enclave_bridge :: "'w ffi_enclave_callback \<Rightarrow> 'w secure_enclave_callback" where
  "enclave_bridge c =
     \<lparr>se_generate_key = (\<lambda>tag. emap (\<lambda>k. (fep_x k, fep_y k))
        (emap_err enclave_error (fe_generate_key c tag))),
      se_sign = (\<lambda>tag data. emap_err enclave_error (fe_sign c tag data)),
      se_delete_key = (\<lambda>tag. emap_err enclave_error (fe_delete_key c tag))\<rparr>"

text \<open>What becomes of the host's errors.\<close>

lemma bridged_cancellation [simp]:
  "auth_error e = AuthCancelled \<longleftrightarrow> is_ffi_cancelled e"
  "enclave_error e = AuthCancelled \<longleftrightarrow> is_ffi_cancelled e"
  "generate_error e \<noteq> AuthCancelled" "callback_error e \<noteq> AuthCancelled"
  by (cases e; simp add: auth_error_def enclave_error_def generate_error_def callback_error_def
      is_ffi_cancelled_def)+

lemma bridged_never_panics:
  "\<not> is_panic (auth_error e)" "\<not> is_panic (enclave_error e)" "\<not> is_panic (generate_error e)"
  "\<not> is_panic (callback_error e)"
  by (cases e; simp add: auth_error_def enclave_error_def generate_error_def callback_error_def)+

lemma emap_err_calm: "(\<And>e. \<not> is_panic (f e)) \<Longrightarrow> never_panics (emap_err f m)"
  by (simp add: never_panics_def emap_err_apply)

text \<open>The bridged callbacks are those the ceremonies need: they do not panic.\<close>

lemma bridges_calm: "calm_transport (transport_bridge t)" "calm_auth (auth_bridge c)"
  by (auto simp: calm_transport_def calm_auth_def transport_bridge_def auth_bridge_def
      intro!: emap_err_calm bridged_never_panics split: pin_request_kind.splits)

end
