(* ===== verification/Wasm_Transport.thy ===== *)
theory Wasm_Transport
  imports Wallet
begin

section \<open>The browser transport: src/wasm\_fido2.rs\<close>

text \<open>
  In a browser the FIDO2 plugin's commands are not sent to an authenticator: this transport reads the
  structured fields back out of a command, calls \<open>navigator.credentials\<close> with them, and encodes
  what the page got as an authenticator's response.

  The JavaScript engine and the browser are not part of the repository. \<open>js_engine\<close> is the record of
  the \<open>js-sys\<close> functions the code calls on values of an abstract type \<open>'v\<close>, \<open>browser\<close> the record of
  the \<open>web-sys\<close> calls, which act on the outside world. An options object is the record of what the
  code puts into it. The properties compose this transport with the ceremonies: what the plugin gets
  is what the browser reported, and a user's refusal stays a refusal.
\<close>

subsection \<open>The engine and the browser\<close>

text \<open>
  \<open>js_get\<close> and \<open>js_set\<close> are \<open>Reflect::get\<close> and \<open>Reflect::set\<close>; the left side is the value thrown, and
  \<open>js_set\<close> returns the updated object. \<open>js_to_bytes\<close> is \<open>Uint8Array::new(v).to_vec()\<close>, and \<open>js_as_i64\<close>
  is \<open>as_f64\<close> followed by the saturating cast to \<open>i64\<close>.
\<close>

record 'v js_engine =
  js_get :: "'v \<Rightarrow> string \<Rightarrow> 'v + 'v"
  js_set :: "'v \<Rightarrow> string \<Rightarrow> 'v \<Rightarrow> 'v + 'v"
  js_new_object :: 'v
  js_bytes :: "bytes \<Rightarrow> 'v"
  js_i32_array :: "int list \<Rightarrow> 'v"
  js_to_bytes :: "'v \<Rightarrow> bytes"
  js_as_string :: "'v \<Rightarrow> string option"
  js_as_i64 :: "'v \<Rightarrow> int option"
  js_is_undefined :: "'v \<Rightarrow> bool"
  js_is_null :: "'v \<Rightarrow> bool"
  js_debug :: "'v \<Rightarrow> string"

record 'v creation_options =
  co_rp_id :: string
  co_user_name :: string
  co_user_display_name :: string
  co_user_id :: bytes
  co_challenge :: bytes
  co_pub_key_algorithms :: "int list"
  co_extensions :: 'v

record 'v request_options =
  ro_rp_id :: string
  ro_challenge :: bytes
  ro_allow_credentials :: "bytes list"
  ro_extensions :: 'v
  ro_uvm :: bool

text \<open>
  A \<open>PublicKeyCredential\<close>: its raw id, its client extension results, and the authenticator data of
  its response when that is an \<open>AuthenticatorAssertionResponse\<close>. A call that resolves to anything
  else gives \<open>None\<close>.
\<close>

record 'v public_key_credential =
  pk_raw_id :: bytes
  pk_extension_results :: 'v
  pk_authenticator_data :: "bytes option"

record ('v, 'w) browser =
  br_has_window :: "'w \<Rightarrow> bool"
  br_hostname :: "('w, 'v, string) eff"
  br_create :: "'v creation_options \<Rightarrow> ('w, 'v, 'v public_key_credential option) eff"
  br_get :: "'v request_options \<Rightarrow> ('w, 'v, 'v public_key_credential option) eff"

subsection \<open>Errors and the window\<close>

definition js_string_property :: "'v js_engine \<Rightarrow> 'v \<Rightarrow> string \<Rightarrow> string option" where
  "js_string_property J v name = Option.bind (res_ok (js_get J v name)) (js_as_string J)"

definition js_message :: "'v js_engine \<Rightarrow> 'v \<Rightarrow> string" where
  "js_message J err =
     (case or_else (js_as_string J err) (js_string_property J err ''message'') of
        Some msg \<Rightarrow> msg | None \<Rightarrow> js_debug J err)"

definition is_not_allowed :: "'v js_engine \<Rightarrow> 'v \<Rightarrow> bool" where
  "is_not_allowed J err \<longleftrightarrow> js_string_property J err ''name'' = Some ''NotAllowedError''"

definition js_err :: "'v js_engine \<Rightarrow> string \<Rightarrow> 'v \<Rightarrow> wscd_error" where
  "js_err J context err =
     (if is_not_allowed J err then AuthCancelled
      else Callback (context @ '': '' @ js_message J err))"

definition browser_window :: "('v, 'w) browser \<Rightarrow> ('w, unit) weff" where
  "browser_window B w =
     (if br_has_window B w then (Inr (), w)
      else (Inl (Callback ''no window (not running in a browser)''), w))"

definition browser_hostname :: "'v js_engine \<Rightarrow> ('v, 'w) browser \<Rightarrow> ('w, string) weff" where
  "browser_hostname J B =
     ebind (browser_window B) (\<lambda>_. emap_err (js_err J ''read location.hostname'') (br_hostname B))"

subsection \<open>Building the extension objects\<close>

definition set_extension :: "'v js_engine \<Rightarrow> 'v \<Rightarrow> string \<Rightarrow> 'v \<Rightarrow> 'v wres" where
  "set_extension J inputs key v = map_err (js_err J ''set extension property'') (js_set J inputs key v)"

definition reflect_set :: "'v js_engine \<Rightarrow> 'v \<Rightarrow> string \<Rightarrow> 'v \<Rightarrow> 'v wres" where
  "reflect_set J obj key v =
     map_err (js_err J ''build previewSign extension object'') (js_set J obj key v)"

text \<open>\<open>as i32\<close> on an \<open>i64\<close> keeps the low 32 bits.\<close>

definition as_i32 :: "int \<Rightarrow> int" where
  "as_i32 i = signed_take_bit 31 i"

definition set_generate_key_extension :: "'v js_engine \<Rightarrow> 'v \<Rightarrow> int list \<Rightarrow> 'v wres" where
  "set_generate_key_extension J extensions algorithms =
     rbind (reflect_set J (js_new_object J) ''algorithms'' (js_i32_array J (map as_i32 algorithms)))
       (\<lambda>generate_key.
     rbind (reflect_set J (js_new_object J) ''generateKey'' generate_key) (\<lambda>preview_sign.
       set_extension J extensions ''previewSign'' preview_sign))"

definition set_sign_by_credential_extension ::
  "externals \<Rightarrow> 'v js_engine \<Rightarrow> 'v \<Rightarrow> bytes \<Rightarrow> sign_input \<Rightarrow> 'v wres" where
  "set_sign_by_credential_extension X J extensions credential_id sign =
     rbind (reflect_set J (js_new_object J) ''keyHandle'' (js_bytes J (si_key_handle sign))) (\<lambda>s1.
     rbind (reflect_set J s1 ''tbs'' (js_bytes J (si_tbs sign))) (\<lambda>s2.
     rbind (case si_additional_args sign of
              Some args \<Rightarrow> reflect_set J s2 ''additionalArgs'' (js_bytes J args)
            | None \<Rightarrow> Inr s2) (\<lambda>sign_in.
     rbind (reflect_set J (js_new_object J) (b64url_enc X credential_id) sign_in) (\<lambda>by_credential.
     rbind (reflect_set J (js_new_object J) ''signByCredential'' by_credential) (\<lambda>preview_sign.
       set_extension J extensions ''previewSign'' preview_sign)))))"

subsection \<open>Reading the generated key\<close>

definition reflect_get_bytes :: "'v js_engine \<Rightarrow> 'v \<Rightarrow> string \<Rightarrow> bytes wres" where
  "reflect_get_bytes J obj key =
     rbind (map_err (js_err J (''read previewSign.'' @ key)) (js_get J obj key)) (\<lambda>v.
       if js_is_undefined J v \<or> js_is_null J v
       then Inl (Callback (''previewSign result missing field '' @ key))
       else Inr (js_to_bytes J v))"

definition read_generated_key :: "'v js_engine \<Rightarrow> 'v \<Rightarrow> preview_generated_key wres" where
  "read_generated_key J extension_results =
     rbind (map_err (js_err J ''read previewSign extension result'')
       (js_get J extension_results ''previewSign'')) (\<lambda>preview_sign_result.
     if js_is_undefined J preview_sign_result
     then Inl (Callback (''authenticator did not return a previewSign result''
       @ of_bytes [32, 0xE2, 0x80, 0x94, 32] @ ''it may not support the sign extension''))
     else
     rbind (map_err (js_err J ''read previewSign.generatedKey'')
       (js_get J preview_sign_result ''generatedKey'')) (\<lambda>generated_key.
     if js_is_undefined J generated_key
     then Inl (Callback
       ''authenticator did not generate a signing key (previewSign.generatedKey missing)'')
     else
     rbind (reflect_get_bytes J generated_key ''keyHandle'') (\<lambda>key_handle.
     rbind (reflect_get_bytes J generated_key ''publicKey'') (\<lambda>public_key_cose.
     rbind (reflect_get_bytes J generated_key ''attestationObject'') (\<lambda>attestation_object.
     rbind (ok_or (Callback ''previewSign.generatedKey missing algorithm'')
       (Option.bind (res_ok (js_get J generated_key ''algorithm'')) (js_as_i64 J))) (\<lambda>algorithm.
       Inr \<lparr>pg_key_handle = key_handle, pg_public_key_cose = public_key_cose,
            pg_algorithm = algorithm, pg_attestation_object = attestation_object\<rparr>))))))"

subsection \<open>The two calls\<close>

definition make_credential_via_browser ::
  "'v js_engine \<Rightarrow> ('v, 'w) browser \<Rightarrow> bytes \<Rightarrow> bytes \<Rightarrow> int list \<Rightarrow> ('w, make_credential_result) weff" where
  "make_credential_via_browser J B user_id client_data_hash algorithms =
     ebind (browser_hostname J B) (\<lambda>rp_id.
     ebind (elift (set_generate_key_extension J (js_new_object J) algorithms)) (\<lambda>extensions.
     ebind (browser_window B) (\<lambda>_.
     ebind (emap_err (js_err J ''navigator.credentials.create'') (br_create B
       \<lparr>co_rp_id = rp_id, co_user_name = ''siros-wallet-instance'',
        co_user_display_name = ''SIROS Wallet'', co_user_id = user_id,
        co_challenge = client_data_hash, co_pub_key_algorithms = map as_i32 algorithms,
        co_extensions = extensions\<rparr>)) (\<lambda>c.
     ebind (elift (ok_or (Callback ''create() did not return a PublicKeyCredential'') c)) (\<lambda>credential.
     ebind (elift (read_generated_key J (pk_extension_results credential))) (\<lambda>generated_key.
       ereturn \<lparr>mr_credential_id = pk_raw_id credential, mr_generated_key = generated_key\<rparr>))))))"

definition sign_result_of_auth_data :: "externals \<Rightarrow> bytes \<Rightarrow> sign_result wres" where
  "sign_result_of_auth_data X auth_data =
     rbind (extract_previewsign_signature X auth_data) (\<lambda>signature.
       Inr \<lparr>sr_signature = signature,
            sr_user_verified =
              (case list_at 32 auth_data of
                 Some flags \<Rightarrow> flags AND AUTH_DATA_FLAG_UV \<noteq> 0 | None \<Rightarrow> False),
            sr_verified_factor =
              Option.bind (parse_uvm_extension X auth_data) classify_uvm_for_ts12\<rparr>)"

definition get_assertion_via_browser ::
  "externals \<Rightarrow> 'v js_engine \<Rightarrow> ('v, 'w) browser \<Rightarrow> bytes \<Rightarrow> bytes \<Rightarrow> sign_input
   \<Rightarrow> ('w, sign_result) weff" where
  "get_assertion_via_browser X J B challenge credential_id sign =
     ebind (browser_hostname J B) (\<lambda>rp_id.
     ebind (elift (set_sign_by_credential_extension X J (js_new_object J) credential_id sign))
       (\<lambda>extensions.
     ebind (browser_window B) (\<lambda>_.
     ebind (emap_err (js_err J ''navigator.credentials.get'') (br_get B
       \<lparr>ro_rp_id = rp_id, ro_challenge = challenge, ro_allow_credentials = [credential_id],
        ro_extensions = extensions, ro_uvm = True\<rparr>)) (\<lambda>c.
     ebind (elift (ok_or (Callback ''get() did not return a PublicKeyCredential'') c)) (\<lambda>credential.
     ebind (elift (ok_or
       (Callback ''credential.response is not an AuthenticatorAssertionResponse'')
       (pk_authenticator_data credential))) (\<lambda>auth_data.
       elift (sign_result_of_auth_data X auth_data)))))))"

text \<open>\<open>{other:?}\<close> on an \<open>Option<&u8>\<close>.\<close>

definition debug_opt_byte :: "byte option \<Rightarrow> string" where
  "debug_opt_byte b = debug_opt_int (map_option uint b)"

definition wasm_send_command ::
  "externals \<Rightarrow> 'v js_engine \<Rightarrow> ('v, 'w) browser \<Rightarrow> bytes \<Rightarrow> ('w, bytes) weff" where
  "wasm_send_command X J B command =
     (if list_head command = Some 0x01 then
        ebind (elift (parse_make_credential_request X command)) (\<lambda>req.
        ebind (make_credential_via_browser J B (mq_user_id req) (mq_client_data_hash req)
          (mq_algorithms req)) (\<lambda>result.
          ereturn (encode_make_credential_response X result)))
      else if list_head command = Some 0x02 then
        ebind (elift (parse_get_assertion_request X command)) (\<lambda>req.
        ebind (get_assertion_via_browser X J B (gq_challenge req) (gq_credential_id req)
          (gq_sign req)) (\<lambda>result.
          ereturn (encode_get_assertion_response X result)))
      else ethrow (Callback (''unsupported CTAP2 command: '' @ debug_opt_byte (list_head command))))"

definition wasm_transport ::
  "externals \<Rightarrow> 'v js_engine \<Rightarrow> ('v, 'w) browser \<Rightarrow> 'w ctap2_transport" where
  "wasm_transport X J B =
     \<lparr>ctap2_send_command = wasm_send_command X J B, performs_user_verification = True\<rparr>"

subsection \<open>The transport is transparent\<close>

lemma wasm_transport_simps [simp]:
  "ctap2_send_command (wasm_transport X J B) = wasm_send_command X J B"
  "performs_user_verification (wasm_transport X J B)"
  by (simp_all add: wasm_transport_def)

lemma wasm_send_requests:
  "parse_make_credential_request X (build_make_credential_request X rp uid cdh algs p) = Inr q \<Longrightarrow>
     wasm_send_command X J B (build_make_credential_request X rp uid cdh algs p) =
       ebind (make_credential_via_browser J B (mq_user_id q) (mq_client_data_hash q) (mq_algorithms q))
         (\<lambda>result. ereturn (encode_make_credential_response X result))"
  "parse_get_assertion_request X (build_get_assertion_request X rp ch cid sign p) = Inr g \<Longrightarrow>
     wasm_send_command X J B (build_get_assertion_request X rp ch cid sign p) =
       ebind (get_assertion_via_browser X J B (gq_challenge g) (gq_credential_id g) (gq_sign g))
         (\<lambda>result. ereturn (encode_get_assertion_response X result))"
  by (auto simp: wasm_send_command_def build_make_credential_request_def build_get_assertion_request_def
      encode_command_def list_head_def CTAP2_MAKE_CREDENTIAL_def CTAP2_GET_ASSERTION_def fun_eq_iff
      ebind_apply)

text \<open>A factor read from \<open>uvm\<close> is one the response format carries.\<close>

lemma reported_uvm_factor:
  "reported_factor (Option.bind u classify_uvm_for_ts12) = Option.bind u classify_uvm_for_ts12"
proof (cases "Option.bind u classify_uvm_for_ts12")
  case (Some f)
  then obtain es where "classify_uvm_for_ts12 es = Some f" by (cases u) auto
  then show ?thesis using Some classify_uvm_knowledge by (fastforce simp: reported_factor_def)
qed (simp add: reported_factor_def)

lemma browser_assertion_factor:
  assumes "get_assertion_via_browser X J B ch cid sign w = (Inr r, w')"
  shows "reported_factor (sr_verified_factor r) = sr_verified_factor r"
proof -
  obtain d where "sign_result_of_auth_data X d = Inr r"
    using assms by (auto simp: get_assertion_via_browser_def eff_elims)
  then show ?thesis by (auto simp: sign_result_of_auth_data_def rbind_eq_Inr reported_uvm_factor)
qed

text \<open>The values the codec has to carry for one response.\<close>

definition assertion_fits :: "externals \<Rightarrow> sign_result \<Rightarrow> bool" where
  "assertion_fits X r \<longleftrightarrow>
     cbor_roundtrips X (assertion_extensions r) \<and>
     cbor_roundtrips X (CMap [(CInteger 2, CBytes (assertion_auth_data X r))]) \<and>
     cbor_enc X (assertion_extensions r) \<noteq> []"

text \<open>
  A credential the response format can carry: its attestation object, or the synthetic one when the
  browser gave none, describes the key the browser reported.
\<close>

definition credential_fits :: "externals \<Rightarrow> make_credential_result \<Rightarrow> bool" where
  "credential_fits X r \<longleftrightarrow>
     length (mr_credential_id r) < 65536 \<and> is_i64 (pg_algorithm (mr_generated_key r)) \<and>
     cbor_roundtrips X (outer_attestation X r) \<and> cbor_roundtrips X placeholder_cose_value \<and>
     cbor_roundtrips X (algorithm_extension (pg_algorithm (mr_generated_key r))) \<and>
     (\<exists>gm ad a. from_reader X (inner_attestation_bytes X (mr_generated_key r)) = Inr (CMap gm) \<and>
        get_bytes_by_int gm 2 = Some ad \<and>
        parse_attested_credential_data X ad =
          Inr (pg_key_handle (mr_generated_key r), pg_public_key_cose (mr_generated_key r), a))"

definition with_attestation :: "externals \<Rightarrow> make_credential_result \<Rightarrow> make_credential_result" where
  "with_attestation X r = r\<lparr>mr_generated_key := (mr_generated_key r)
     \<lparr>pg_attestation_object := inner_attestation_bytes X (mr_generated_key r)\<rparr>\<rparr>"

lemma credential_response:
  "credential_fits X r \<Longrightarrow>
     parse_make_credential_response X (encode_make_credential_response X r) = Inr (with_attestation X r)"
  unfolding credential_fits_def with_attestation_def
  using make_credential_response_roundtrip [of r X] by blast

lemma browser_make_credential:
  assumes "cbor_roundtrips X (make_credential_params rp uid cdh algs None)" and "list_all is_i64 algs"
  shows "make_credential X env (wasm_transport X J B) auth rp uid cdh algs w =
    (case make_credential_via_browser J B uid cdh algs w of
       (Inl e, w') \<Rightarrow> (Inl e, w')
     | (Inr r, w') \<Rightarrow> (parse_make_credential_response X (encode_make_credential_response X r), w'))"
  by (simp add: make_credential_def pin_uv_auth_for_def ebind_apply
      wasm_send_requests(1) [OF make_credential_request_roundtrip [OF assms]] split: sum.splits prod.splits)

lemma browser_get_assertion:
  assumes "cbor_roundtrips X (get_assertion_params rp ch cid sign None)"
  shows "get_assertion X env (wasm_transport X J B) auth rp ch cid sign w =
    (case get_assertion_via_browser X J B ch cid sign w of
       (Inl e, w') \<Rightarrow> (Inl e, w')
     | (Inr r, w') \<Rightarrow> (parse_get_assertion_response X (encode_get_assertion_response X r), w'))"
  by (simp add: get_assertion_def pin_uv_auth_for_def ebind_apply
      wasm_send_requests(2) [OF get_assertion_request_roundtrip [OF assms]] split: sum.splits prod.splits)

text \<open>C25: a signature made in the browser reaches the plugin as the browser reported it. Through the
  request encoding, the page's \<open>navigator.credentials.get\<close> and the response encoding, the ceremony
  returns exactly what the call gave: the signature, the user-verified flag and the factor read from
  \<open>uvm\<close> on success, and otherwise the same error, with nothing else done to the outside world.\<close>

theorem browser_assertion_passes_through:
  assumes "cbor_roundtrips X (get_assertion_params rp ch cid sign None)"
    and "\<And>r w'. get_assertion_via_browser X J B ch cid sign w = (Inr r, w') \<Longrightarrow> assertion_fits X r"
  shows "get_assertion X env (wasm_transport X J B) auth rp ch cid sign w =
    get_assertion_via_browser X J B ch cid sign w"
proof (cases "get_assertion_via_browser X J B ch cid sign w")
  case (Pair q w')
  show ?thesis
  proof (cases q)
    case (Inl e)
    then show ?thesis by (simp add: browser_get_assertion [OF assms(1)] Pair)
  next
    case (Inr r)
    note fits = assms(2) [OF Pair [unfolded Inr], unfolded assertion_fits_def]
    have "parse_get_assertion_response X (encode_get_assertion_response X r) = Inr r"
      using get_assertion_response_roundtrip fits browser_assertion_factor [OF Pair [unfolded Inr]]
      by simp
    then show ?thesis by (simp add: browser_get_assertion [OF assms(1)] Pair Inr)
  qed
qed

text \<open>A key generated in the browser reaches the plugin as the browser reported it: credential id,
  key handle, public key and algorithm, with the attestation object of the authenticator or, when
  the browser gave none, the synthetic one; and an error of the browser unchanged.\<close>

lemma browser_registration_passes_through:
  assumes "cbor_roundtrips X (make_credential_params rp uid cdh algs None)" and "list_all is_i64 algs"
    and "\<And>r w'. make_credential_via_browser J B uid cdh algs w = (Inr r, w') \<Longrightarrow> credential_fits X r"
  shows "make_credential X env (wasm_transport X J B) auth rp uid cdh algs w =
    (case make_credential_via_browser J B uid cdh algs w of
       (Inl e, w') \<Rightarrow> (Inl e, w') | (Inr r, w') \<Rightarrow> (Inr (with_attestation X r), w'))"
  using assms(3) by (auto simp: browser_make_credential [OF assms(1,2)] credential_response
      split: prod.splits sum.splits)

subsection \<open>A page that refuses\<close>

text \<open>
  What the properties ask of a browser: it has a window with a host name, and plain objects can be
  given members.
\<close>

definition browser_ready :: "'v js_engine \<Rightarrow> ('v, 'w) browser \<Rightarrow> bool" where
  "browser_ready J B \<longleftrightarrow>
     (\<forall>w. br_has_window B w \<and> is_ok (fst (br_hostname B w)) \<and> br_has_window B (snd (br_hostname B w))) \<and>
     (\<forall>obj key v. is_ok (js_set J obj key v))"

definition refuses_creation :: "'v js_engine \<Rightarrow> ('v, 'w) browser \<Rightarrow> bool" where
  "refuses_creation J B \<longleftrightarrow>
     (\<forall>opts w. \<exists>err. fst (br_create B opts w) = Inl err \<and> is_not_allowed J err)"

lemma is_ok_iff: "is_ok r \<longleftrightarrow> (\<exists>x. r = Inr x)"
  by (cases r) auto

lemma refused_creation:
  assumes "browser_ready J B" and "refuses_creation J B"
  shows "fst (make_credential_via_browser J B uid cdh algs w) = Inl AuthCancelled"
proof -
  obtain h w1 where h: "br_hostname B w = (Inr h, w1)" and w: "br_has_window B w" "br_has_window B w1"
    using assms(1) unfolding browser_ready_def is_ok_iff by (metis prod.collapse snd_conv)
  have set: "\<exists>y. js_set J obj key v = Inr y" for obj key v
    using assms(1) unfolding browser_ready_def is_ok_iff by blast
  obtain ext where ext: "set_generate_key_extension J (js_new_object J) algs = Inr ext"
  proof -
    obtain a b c where "js_set J (js_new_object J) ''algorithms'' (js_i32_array J (map as_i32 algs)) = Inr a"
      "js_set J (js_new_object J) ''generateKey'' a = Inr b"
      "js_set J (js_new_object J) ''previewSign'' b = Inr c" using set by metis
    then show ?thesis
      by (intro that [of c]) (simp add: set_generate_key_extension_def reflect_set_def set_extension_def)
  qed
  have "fst (emap_err (js_err J ''navigator.credentials.create'') (br_create B opts) v) = Inl AuthCancelled"
    for opts v
    using assms(2) [unfolded refuses_creation_def, rule_format, of opts v]
    by (auto simp: emap_err_apply js_err_def)
  then show ?thesis
    using h w ext
    by (simp add: make_credential_via_browser_def browser_hostname_def browser_window_def ebind_apply
        emap_err_apply)
qed

text \<open>A ceremony that fails ends the generation with its error, whatever the plugin held.\<close>

lemma fido_generate_ceremony_fails:
  assumes "alg \<noteq> EdDSA"
    and "\<And>uid cdh v. length uid = 32 \<Longrightarrow> length cdh = 32 \<Longrightarrow>
      fst (make_credential X env t auth RAW_SIGN_RP_ID uid cdh
        [if alg = Bls12381G1Schnorr then ECSDSA_BLS12381_BP1_SHA256_SEC1 else ARKG_P256_ESP256] v) = Inl e"
    and "env_fills env"
  shows "\<exists>w'. fido_generate_key X t alg env auth (p, w) = (Inl e, (p, w'))"
proof -
  let ?w1 = "env_progress env (Started ''generate_key'') w"
  obtain uid w2 where u: "env_rand env 32 ?w1 = (uid, w2)" by (metis prod.collapse)
  obtain cdh w3 where c: "env_rand env 32 w2 = (cdh, w3)" by (metis prod.collapse)
  have l: "length uid = 32" "length cdh = 32"
    using assms(3) u c unfolding env_fills_def by (metis fst_conv)+
  obtain w4 where m: "make_credential X env t auth RAW_SIGN_RP_ID uid cdh
      [if alg = Bls12381G1Schnorr then ECSDSA_BLS12381_BP1_SHA256_SEC1 else ARKG_P256_ESP256]
      (env_progress env WaitingForUser w3) = (Inl e, w4)"
    using assms(2) [OF l] by (metis prod.collapse)
  show ?thesis
    using assms(1) u c m
    by (auto simp: fido_generate_key_def Let_def ebind_apply on_snd_apply rand_fill_def etotal_apply
        on_progress_def started_def)
qed

text \<open>
  With the FIDO2 plugin as first candidate, a ceremony the user cancels ends the whole selection.
\<close>

lemma cancelled_ceremony_ends_selection:
  assumes "hm_get (mg_plugins m) ''fido2'' = Some (fido_plugin X t, FidoState p :: 'c plugin_state)"
    and "alg \<noteq> EdDSA" and "env_fills env"
    and "\<And>uid cdh v. length uid = 32 \<Longrightarrow> length cdh = 32 \<Longrightarrow>
      fst (make_credential X env t auth RAW_SIGN_RP_ID uid cdh
        [if alg = Bls12381G1Schnorr then ECSDSA_BLS12381_BP1_SHA256_SEC1 else ARKG_P256_ESP256] v) =
      Inl AuthCancelled"
  shows "\<exists>m' w'. (\<forall>others. generate_key_for_level required (''fido2'' # others) alg env auth (m, w) =
      (Inl AuthCancelled, (m', w'))) \<and>
    (\<forall>k. bound m' k = bound m k) \<and> (\<forall>pid. mgr_held wallet_held m' pid = mgr_held wallet_held m pid)"
proof -
  obtain w' where g: "fido_generate_key X t alg env auth (p, w) = (Inl AuthCancelled, (p, w'))"
    using fido_generate_ceremony_fails [OF assms(2,4,3)] by blast
  let ?m' = "put_plugin ''fido2'' (fido_plugin X t) (FidoState p) m"
  have "generate_key_on ''fido2'' alg env auth (m, w) = (Inl AuthCancelled, (?m', w'))"
    using g assms(1)
    by (simp add: generate_key_on_def ebind_def on_plugin_def put_plugin_def fido_plugin_def lift_eff_def)
  then have "generate_key_for_level required (''fido2'' # others) alg env auth (m, w) =
      (Inl AuthCancelled, (?m', w'))" for others
    using assms(1) by (simp add: generate_key_for_level_def get_plugin_def hm_contains_def stops_candidates_def)
  moreover have "bound ?m' k = bound m k" for k by (simp add: put_plugin_def)
  moreover have "mgr_held wallet_held ?m' pid = mgr_held wallet_held m pid" for pid
    using assms(1) by (simp add: put_plugin_def mgr_held_def)
  ultimately show ?thesis by blast
qed

text \<open>C26: a user who declines in the browser ends the selection. When the page's creation prompt is
  refused (\<open>NotAllowedError\<close>), generating for any level with the FIDO2 plugin as first candidate ends
  in \<open>AuthCancelled\<close>: no later candidate is asked, and no key and no binding changes.\<close>

theorem browser_refusal_ends_selection:
  assumes "hm_get (mg_plugins m) ''fido2'' =
      Some (fido_plugin X (wasm_transport X J B), FidoState p :: 'c plugin_state)"
    and "browser_ready J B" and "refuses_creation J B" and "env_fills env" and "alg \<noteq> EdDSA"
    and "\<And>uid cdh algs. length uid = 32 \<Longrightarrow> length cdh = 32 \<Longrightarrow> algs \<in>
      {[ECSDSA_BLS12381_BP1_SHA256_SEC1], [ARKG_P256_ESP256]} \<Longrightarrow>
      cbor_roundtrips X (make_credential_params RAW_SIGN_RP_ID uid cdh algs None)"
  shows "\<exists>m' w'. (\<forall>others. generate_key_for_level required (''fido2'' # others) alg env auth (m, w) =
      (Inl AuthCancelled, (m', w'))) \<and>
    (\<forall>k. bound m' k = bound m k) \<and> (\<forall>pid. mgr_held wallet_held m' pid = mgr_held wallet_held m pid)"
proof -
  let ?algs = "[if alg = Bls12381G1Schnorr then ECSDSA_BLS12381_BP1_SHA256_SEC1 else ARKG_P256_ESP256]"
  have ceremony: "fst (make_credential X env (wasm_transport X J B) auth RAW_SIGN_RP_ID uid cdh ?algs v) =
      Inl AuthCancelled" if "length uid = 32" "length cdh = 32" for uid cdh v
  proof -
    have rt: "cbor_roundtrips X (make_credential_params RAW_SIGN_RP_ID uid cdh ?algs None)"
      by (rule assms(6) [OF that]) simp
    have i64: "list_all is_i64 ?algs"
      by (simp add: is_i64_def ECSDSA_BLS12381_BP1_SHA256_SEC1_def ARKG_P256_ESP256_def)
    obtain v' where v: "make_credential_via_browser J B uid cdh ?algs v = (Inl AuthCancelled, v')"
      using refused_creation [OF assms(2,3), of uid cdh ?algs v] by (metis prod.collapse)
    show ?thesis unfolding browser_make_credential [OF rt i64] v by simp
  qed
  show ?thesis by (rule cancelled_ceremony_ends_selection [OF assms(1,5,4) ceremony])
qed

subsection \<open>A reference page\<close>

datatype ref_js =
    JsUndefined
  | JsNum int
  | JsBytes bytes
  | JsStr string
  | JsNums "int list"
  | JsObj "(string \<times> ref_js) list"

fun js_members :: "ref_js \<Rightarrow> (string \<times> ref_js) list" where
  "js_members (JsObj ms) = ms" | "js_members _ = []"

definition ref_engine :: "ref_js js_engine" where
  "ref_engine = \<lparr>js_get = (\<lambda>v k. Inr (case map_of (js_members v) k of Some x \<Rightarrow> x | None \<Rightarrow> JsUndefined)),
     js_set = (\<lambda>v k x. Inr (JsObj ((k, x) # js_members v))),
     js_new_object = JsObj [], js_bytes = JsBytes, js_i32_array = JsNums,
     js_to_bytes = (\<lambda>v. case v of JsBytes b \<Rightarrow> b | _ \<Rightarrow> []),
     js_as_string = (\<lambda>v. case v of JsStr s \<Rightarrow> Some s | _ \<Rightarrow> None),
     js_as_i64 = (\<lambda>v. case v of JsNum i \<Rightarrow> Some i | _ \<Rightarrow> None),
     js_is_undefined = (\<lambda>v. v = JsUndefined), js_is_null = (\<lambda>v. False), js_debug = (\<lambda>v. ''JsValue'')\<rparr>"

definition not_allowed :: ref_js where
  "not_allowed = JsObj [(''name'', JsStr ''NotAllowedError'')]"

definition ref_browser :: "ref_js + ref_js public_key_credential \<Rightarrow> (ref_js, nat) browser" where
  "ref_browser answer = \<lparr>br_has_window = (\<lambda>w. True), br_hostname = (\<lambda>w. (Inr ''localhost'', w)),
     br_create = (\<lambda>opts w. (map_sum id Some answer, Suc w)),
     br_get = (\<lambda>opts w. (map_sum id Some answer, Suc w))\<rparr>"

lemma ref_browser_ready: "browser_ready ref_engine (ref_browser a)"
  by (simp add: browser_ready_def ref_engine_def ref_browser_def)

lemma ref_browser_refuses: "refuses_creation ref_engine (ref_browser (Inl not_allowed))"
  by (simp add: refuses_creation_def ref_browser_def is_not_allowed_def js_string_property_def ref_engine_def
      not_allowed_def)

definition uvm_extensions :: cbor where
  "uvm_extensions = CMap [(CText ''previewSign'', CMap [(CInteger 6, CBytes [1, 2, 3])]),
     (CText ''uvm'', CArray [CArray [CInteger 4, CInteger 1, CInteger 1]])]"

definition uvm_auth_data :: bytes where
  "uvm_auth_data = replicate 32 0 @ [0x84] @ [0, 0, 0, 1] @ cenc uvm_extensions"

definition uvm_sign_result :: sign_result where
  "uvm_sign_result = \<lparr>sr_signature = [1, 2, 3], sr_user_verified = True,
     sr_verified_factor = Some \<lparr>af_category = Knowledge, af_method = ''other''\<rparr>\<rparr>"

lemma uvm_auth_data_fields:
  "length uvm_auth_data = 37 + length (cenc uvm_extensions)" "drop 37 uvm_auth_data = cenc uvm_extensions"
  "uvm_auth_data ! 32 = 0x84" "cenc uvm_extensions \<noteq> []"
  by (simp_all add: uvm_auth_data_def nth_append uvm_extensions_def enc_head_def)

lemma uvm_result: "sign_result_of_auth_data ref_externals uvm_auth_data = Inr uvm_sign_result"
proof -
  note f = uvm_auth_data_fields
  have r: "cbor_roundtrips ref_externals uvm_extensions"
    by (rule ref_cbor_roundtrips) (simp add: uvm_extensions_def)
  have e: "cbor_enc ref_externals v = cenc v" for v by (simp add: ref_externals_def)
  have "from_reader ref_externals (cenc uvm_extensions) = Inr uvm_extensions"
    using from_reader_enc [OF r] by (simp add: e)
  moreover have "read_cbor ref_externals msg (cenc uvm_extensions) = Inr uvm_extensions" for msg
    using read_cbor_enc [OF r] by (simp add: e)
  ultimately show ?thesis
    using f by (simp add: sign_result_of_auth_data_def extract_previewsign_signature_def Let_def list_at_def
        parse_uvm_extension_def slice_from_def AUTH_DATA_FLAG_ED_def AUTH_DATA_FLAG_AT_def AUTH_DATA_FLAG_UV_def
        AUTH_DATA_HEADER_LEN_def)
      (simp add: uvm_extensions_def parse_uvm_entry_def try_u32_def try_u16_def classify_uvm_for_ts12_def
        user_verify_defs uvm_sign_result_def in_vocabulary_def)
qed

definition ref_sign_input :: sign_input where
  "ref_sign_input = \<lparr>si_key_handle = [3], si_tbs = [4], si_additional_args = Some [5]\<rparr>"

theorem browser_assertion_passes_through_witness:
  "get_assertion ref_externals ref_env (wasm_transport ref_externals ref_engine (ref_browser (Inr
       \<lparr>pk_raw_id = [2], pk_extension_results = JsUndefined, pk_authenticator_data = Some uvm_auth_data\<rparr>)))
     (ref_auth []) ''rp'' [1] [2] ref_sign_input 0 = (Inr uvm_sign_result, 1)"
proof -
  let ?B = "ref_browser (Inr \<lparr>pk_raw_id = [2], pk_extension_results = JsUndefined,
    pk_authenticator_data = Some uvm_auth_data\<rparr>)"
  have run: "get_assertion_via_browser ref_externals ref_engine ?B [1] [2] ref_sign_input 0 =
      (Inr uvm_sign_result, 1)"
    by (simp add: get_assertion_via_browser_def browser_hostname_def browser_window_def ebind_def
        emap_err_def ref_browser_def set_sign_by_credential_extension_def reflect_set_def set_extension_def
        ref_sign_input_def ref_engine_def uvm_result)
  have e: "cbor_ok (assertion_extensions uvm_sign_result)"
    by (simp add: uvm_sign_result_def assertion_extensions_def VERIFIED_FACTOR_EXTENSION_KEY_def)
  have d: "cbor_ok (CMap [(CInteger 2, CBytes (assertion_auth_data ref_externals uvm_sign_result))])"
    using assertion_auth_data_fields(1) [of ref_externals uvm_sign_result]
    by (simp add: uvm_sign_result_def assertion_extensions_def VERIFIED_FACTOR_EXTENSION_KEY_def
        enc_head_def)
  have "cbor_enc ref_externals (assertion_extensions uvm_sign_result) \<noteq> []"
    by (simp add: assertion_extensions_def enc_head_def)
  then have fits: "assertion_fits ref_externals uvm_sign_result"
    using ref_cbor_roundtrips [OF e] ref_cbor_roundtrips [OF d] by (simp add: assertion_fits_def)
  have "cbor_roundtrips ref_externals (get_assertion_params ''rp'' [1] [2] ref_sign_input None)"
    by (rule ref_cbor_roundtrips)
       (simp add: get_assertion_params_def build_sign_by_credential_extension_def Let_def ref_sign_input_def)
  then show ?thesis
    using browser_assertion_passes_through [of ref_externals "''rp''" "[1]" "[2]" ref_sign_input ref_engine ?B 0]
      run fits by simp
qed

definition browser_credential :: "ref_js public_key_credential" where
  "browser_credential = \<lparr>pk_raw_id = [7, 8], pk_extension_results = JsObj [(''previewSign'',
     JsObj [(''generatedKey'', JsObj [(''keyHandle'', JsBytes [9]),
       (''publicKey'', JsBytes (cenc (CMap [(CInteger 1, CInteger 2)]))),
       (''attestationObject'', JsBytes []), (''algorithm'', JsNum (-65539))])])],
     pk_authenticator_data = None\<rparr>"

lemma example_credential_fits: "credential_fits ref_externals example_result"
proof -
  let ?g = "mr_generated_key example_result"
  let ?ad = "build_attested_auth_data ref_externals (replicate 16 0) (pg_key_handle ?g)
    (pg_public_key_cose ?g) None"
  have key: "parse_attested_credential_data ref_externals ?ad =
      Inr (pg_key_handle ?g, pg_public_key_cose ?g, cose_algorithm (CMap [(CInteger 1, CInteger 2)]))"
    using parse_attested_build [of "replicate 16 0" "[9]" ref_externals "CMap [(CInteger 1, CInteger 2)]" None]
    by (simp add: ref_cbor_roundtrips)
  have "from_reader ref_externals (inner_attestation_bytes ref_externals ?g) =
      Inr (CMap [(CInteger 1, CText ''none''), (CInteger 2, CBytes ?ad), (CInteger 3, CMap [])])"
    using from_reader_enc [OF ref_cbor_roundtrips [OF example_attestation_ok(1)]]
    by (simp add: inner_attestation_bytes_def synthetic_attestation_def)
  moreover have "get_bytes_by_int [(CInteger 1, CText ''none''), (CInteger 2, CBytes ?ad), (CInteger 3, CMap [])] 2
      = Some ?ad" by simp
  moreover have "cbor_roundtrips ref_externals placeholder_cose_value"
    "cbor_roundtrips ref_externals (algorithm_extension (-65539))"
    by (rule ref_cbor_roundtrips, simp add: placeholder_cose_value_def algorithm_extension_def)+
  ultimately show ?thesis
    using key ref_cbor_roundtrips [OF example_attestation_ok(2)]
    unfolding credential_fits_def by (auto simp: is_i64_def)
qed

lemma browser_registration_passes_through_witness:
  "make_credential ref_externals ref_env (wasm_transport ref_externals ref_engine
       (ref_browser (Inr browser_credential))) (ref_auth []) ''rp'' [1] [2] [ARKG_P256_ESP256] 0 =
     (Inr (with_attestation ref_externals example_result), 1)"
proof -
  have run: "make_credential_via_browser ref_engine (ref_browser (Inr browser_credential)) [1] [2]
      [ARKG_P256_ESP256] 0 = (Inr example_result, 1)"
    by (simp add: make_credential_via_browser_def browser_hostname_def browser_window_def ebind_def
        emap_err_def ref_browser_def set_generate_key_extension_def reflect_set_def set_extension_def
        ref_engine_def browser_credential_def read_generated_key_def reflect_get_bytes_def example_result_def)
  have "cbor_roundtrips ref_externals (make_credential_params ''rp'' [1] [2] [ARKG_P256_ESP256] None)"
    by (rule ref_cbor_roundtrips)
       (simp add: make_credential_params_def Let_def build_generate_key_extension_def
        DEFAULT_PUB_KEY_CRED_ALGS_def ARKG_P256_ESP256_def)
  then show ?thesis
    using browser_registration_passes_through [of ref_externals "''rp''" "[1]" "[2]" "[ARKG_P256_ESP256]"
        ref_engine "ref_browser (Inr browser_credential)" 0] run example_credential_fits
    by (simp add: is_i64_def ARKG_P256_ESP256_def)
qed

theorem browser_refusal_ends_selection_witness:
  "\<exists>m' w'. generate_key_for_level Unattested [''fido2'', ''softkey''] ES256 ref_env (ref_auth [])
     (register_plugin (fido_plugin ref_externals (wasm_transport ref_externals ref_engine
        (ref_browser (Inl not_allowed)))) (FidoState fido_new) ref_wallet, 0) = (Inl AuthCancelled, (m', w'))"
proof -
  let ?t = "wasm_transport ref_externals ref_engine (ref_browser (Inl not_allowed))"
  let ?m = "register_plugin (fido_plugin ref_externals ?t) (FidoState fido_new) ref_wallet"
  have h: "hm_get (mg_plugins ?m) ''fido2'' = Some (fido_plugin ref_externals ?t, FidoState fido_new)"
    by (simp add: register_plugin_def)
  have "cbor_roundtrips ref_externals (make_credential_params RAW_SIGN_RP_ID uid cdh algs None)"
    if "length uid = 32" "length cdh = 32"
      "algs \<in> {[ECSDSA_BLS12381_BP1_SHA256_SEC1], [ARKG_P256_ESP256]}" for uid cdh algs
    by (rule ref_cbor_roundtrips) (use that in \<open>auto simp: make_credential_params_def Let_def
      build_generate_key_extension_def DEFAULT_PUB_KEY_CRED_ALGS_def ARKG_P256_ESP256_def
      ECSDSA_BLS12381_BP1_SHA256_SEC1_def RAW_SIGN_RP_ID_def\<close>)
  then show ?thesis
    using browser_refusal_ends_selection [OF h ref_browser_ready ref_browser_refuses ref_env_fills,
        of ES256 Unattested "ref_auth []" 0] by (metis algorithm.distinct(1))
qed

end
