(* ===== verification/Restore.thy ===== *)
theory Restore
  imports Wallet
begin

section \<open>Stores that leave the process and come back\<close>

text \<open>
  Every plugin but the remote one can be exported as bytes and made again from them, and both foreign
  interfaces (src/ffi.rs, src/wasm\_ffi.rs) register the new plugin under its id and bind its keys. The
  serde functions are \<open>store_codec\<close>. The locale \<open>restorable\<close> is what exporting and restoring need of a
  plugin; its lemma \<open>restore\<close> says what the manager is afterwards, for any mapping of errors, and it
  is interpreted on the four local plugins.
\<close>

record store_codec =
  fx_softkey_to_vec :: "exported_container \<Rightarrow> string + bytes"
  fx_softkey_parse :: "bytes \<Rightarrow> string + exported_container"
  fx_softkey_legacy_parse :: "bytes \<Rightarrow> string + stored_key list"
  fx_fido_to_vec :: "exported_fido \<Rightarrow> string + bytes"
  fx_fido_parse :: "bytes \<Rightarrow> string + exported_fido"
  fx_apple_to_vec :: "(string, se_stored_key) hashmap \<Rightarrow> string + bytes"
  fx_apple_parse :: "bytes \<Rightarrow> string + (string, se_stored_key) hashmap"
  fx_android_to_vec :: "stored_android_key list \<Rightarrow> string + bytes"
  fx_android_parse :: "bytes \<Rightarrow> string + stored_android_key list"

text \<open>\<open>mgr.register_plugin(Arc::new(plugin))\<close>: the state is the plugin object's.\<close>

definition registering :: "('p, 'w) plugin_ops \<Rightarrow> 'p \<Rightarrow> (('p, 'w) manager \<times> 'w, 'e, unit) eff" where
  "registering ops st s = (Inr (), (register_plugin ops st (fst s), snd s))"

definition binding_keys :: "string \<Rightarrow> key_id list \<Rightarrow> (('p, 'w) manager \<times> 'w, unit) weff" where
  "binding_keys pid kids s = (case bind_keys pid kids (fst s) of (r, m) \<Rightarrow> (r, (m, snd s)))"

text \<open>
  \<open>get_plugin_by_id(id)?.as_any().downcast_ref()\<close>: the state of the plugin under an id, when it is of
  the type asked for; \<open>missing\<close> and \<open>wrong\<close> are the two errors.
\<close>

definition downcast ::
  "string \<Rightarrow> ('p \<Rightarrow> 'a option) \<Rightarrow> (wscd_error \<Rightarrow> 'e) \<Rightarrow> 'e \<Rightarrow> ('p, 'w) manager \<Rightarrow> 'e + 'a" where
  "downcast pid take_out missing wrong m =
     (case hm_get (mg_plugins m) pid of
        None \<Rightarrow> Inl (missing (NoPlugin pid))
      | Some (ops, st) \<Rightarrow> ok_or wrong (take_out st))"

subsection \<open>Restoring a store\<close>

lemma bind_keys_plugins: "mg_plugins (snd (bind_keys pid kids m)) = mg_plugins m"
  by (induction pid kids m rule: bind_keys.induct) (auto simp: bind_key_def split: option.splits)

lemma bind_keys_frame:
  assumes "bind_keys pid kids m = (r, m')"
  shows "mgr_held held m' q = mgr_held held m q" and "mgr_ok R good m' \<longleftrightarrow> mgr_ok R good m"
    and "hm_get (mg_plugins m') q = hm_get (mg_plugins m) q"
  using bind_keys_plugins [of pid kids m] assms by (simp_all add: mgr_held_def mgr_ok_def)

lemma register_plugin_simps [simp]:
  "hm_get (mg_plugins (register_plugin ops st m)) q =
     (if q = po_id ops then Some (ops, st) else hm_get (mg_plugins m) q)"
  "bound (register_plugin ops st m) k = bound m k"
  "mgr_held held (register_plugin ops st m) q = (if q = po_id ops then held st else mgr_held held m q)"
  by (auto simp: register_plugin_def mgr_held_def)

text \<open>
  What a manager is after the store of \<open>m\<close>'s plugin \<open>pid\<close> was restored into the manager \<open>m0\<close>, with
  result \<open>r\<close>: the plugin holds what it held; an existing binding stays; the call succeeds exactly
  when no restored key is bound to another plugin, and then every restored key is routed to its plugin
  for every operation.
\<close>

definition restored_from ::
  "string \<Rightarrow> ('c plugin_state, 'w) manager \<Rightarrow> ('c plugin_state, 'w) manager \<Rightarrow> 'e + unit
   \<Rightarrow> ('c plugin_state, 'w) manager \<Rightarrow> bool" where
  "restored_from pid m m0 r m1 \<longleftrightarrow>
     mgr_held wallet_held m1 pid = mgr_held wallet_held m pid \<and>
     (\<forall>q. q \<noteq> pid \<longrightarrow> mgr_held wallet_held m1 q = mgr_held wallet_held m0 q) \<and>
     (\<forall>k q. bound m0 k = Some q \<longrightarrow> bound m1 k = Some q) \<and>
     (is_ok r \<longleftrightarrow> (\<forall>kid \<in> mgr_held wallet_held m pid. bound m0 kid \<in> {None, Some pid})) \<and>
     (is_ok r \<longrightarrow> (\<forall>kid \<in> mgr_held wallet_held m pid. \<forall>op. resolve_for_key m1 kid op = Inr pid))"

text \<open>
  What the restoring methods share: a plugin's store goes out as bytes and comes back holding
  the same keys. \<open>fits\<close> is the condition under which the plugin reads its own export.
\<close>

locale restorable =
  fixes X :: externals
    and ops :: "('c plugin_state, 'w) plugin_ops"
    and pid :: string
    and put_in :: "'a \<Rightarrow> 'c plugin_state"
    and take_out :: "'c plugin_state \<Rightarrow> 'a option"
    and export_bytes :: "'a \<Rightarrow> bytes wres"
    and of_export :: "bytes \<Rightarrow> 'a wres"
    and kids :: "'a \<Rightarrow> key_id list"
    and well_formed :: "'a \<Rightarrow> bool"
    and held :: "'a \<Rightarrow> key_id set"
    and fits :: "'a \<Rightarrow> bool"
  assumes of_wallet: "ops \<in> wallet_plugins X"
    and named: "po_id ops = pid"
    and good_put: "wallet_good pid s \<longleftrightarrow> (\<exists>a. s = put_in a \<and> well_formed a)"
    and take_put: "take_out (put_in a) = Some a"
    and held_put: "wallet_held (put_in a) = held a"
    and kids_held: "set (kids a) = held a"
    and comes_back: "\<lbrakk>well_formed a; fits a; export_bytes a = Inr b\<rbrakk> \<Longrightarrow>
      \<exists>q. of_export b = Inr q \<and> well_formed q \<and> held q = held a"
begin

lemma restore:
  assumes m: "wallet_ok X m" and m0: "wallet_ok X m0"
    and ex: "rbind (downcast pid take_out missing wrong m)
      (\<lambda>p. map_err write_err (export_bytes p)) = Inr b"
    and fits: "\<And>a. downcast pid take_out missing wrong m = Inr a \<Longrightarrow> fits a"
    and run: "ebind (elift (map_err read_err (of_export b))) (\<lambda>p.
      let ks = kids p in
      ebind (registering ops (put_in p)) (\<lambda>_. emap_err bind_err (binding_keys pid ks))) (m0, w) =
        (r, (m1, w1))"
  shows "wallet_ok X m1 \<and> restored_from pid m m0 r m1"
proof -
  obtain a ops0 st where a: "downcast pid take_out missing wrong m = Inr a"
    and e: "export_bytes a = Inr b" and st: "hm_get (mg_plugins m) pid = Some (ops0, st)"
    and t: "take_out st = Some a"
    using ex by (auto simp: rbind_eq_Inr downcast_def ok_or_def split: option.splits prod.splits)
  have "wallet_good pid st" using mgr_okD [OF m st] by simp
  then have wf: "st = put_in a" "well_formed a" using t good_put take_put by auto
  obtain q where q: "of_export b = Inr q" "well_formed q" "held q = held a"
    using comes_back [OF wf(2) fits [OF a] e] by blast
  obtain r1 m2 where b: "bind_keys pid (kids q) (register_plugin ops (put_in q) m0) = (r1, m2)"
    by fastforce
  note frame = bind_keys_frame [OF b] and res = bind_keys_result [OF b]
  have r: "r = map_err bind_err r1" and m1: "m1 = m2"
    using run q b by (auto simp: registering_def binding_keys_def emap_err_def ebind_def Let_def)
  have "wallet_ok X m1"
    unfolding m1 frame(2) using m0 of_wallet q(2) good_put named by (intro mgr_ok_register) auto
  moreover have held: "mgr_held wallet_held m pid = held a"
    using st wf held_put by (simp add: mgr_held_def)
  moreover have "mgr_held wallet_held m1 p = (if p = pid then held a else mgr_held wallet_held m0 p)" for p
    unfolding m1 frame(1) using q(3) held_put named by simp
  moreover have "is_ok r \<longleftrightarrow> r1 = Inr ()" unfolding r by (cases r1) simp_all
  moreover have "hm_get (mg_plugins m1) pid \<noteq> None" unfolding m1 frame(3) using named by simp
  ultimately show ?thesis
    using res q(3) kids_held unfolding restored_from_def m1
    by (auto simp: resolve_for_key_def get_plugin_def hm_contains_def)
qed

end

text \<open>Documented behaviour of serde: what a store serialises to parses back to it.\<close>

definition codec_ok :: "'z store_codec_scheme \<Rightarrow> bool" where
  "codec_ok K \<longleftrightarrow>
     (\<forall>x b. fx_softkey_to_vec K x = Inr b \<longrightarrow> fx_softkey_parse K b = Inr x) \<and>
     (\<forall>x b. fx_fido_to_vec K x = Inr b \<longrightarrow> fx_fido_parse K b = Inr x) \<and>
     (\<forall>x b. fx_apple_to_vec K x = Inr b \<longrightarrow> fx_apple_parse K b = Inr x) \<and>
     (\<forall>x b. fx_android_to_vec K x = Inr b \<longrightarrow> fx_android_parse K b = Inr x)"

definition fido_widths_ok :: "fido_state \<Rightarrow> bool" where
  "fido_widths_ok p \<longleftrightarrow> check_widths (xf_keys (fido_exported p)) = Inr ()"

lemma softkey_comes_back:
  assumes "codec_ok K" and "sk_inv a" and "export_container (fx_softkey_to_vec K) a = Inr b"
  shows "\<exists>q. from_container (fx_softkey_parse K) (fx_softkey_legacy_parse K) b = Inr q \<and> sk_inv q \<and>
    sk_held q = sk_held a"
proof -
  have "fx_softkey_parse K b = Inr (exported_of a)"
    using assms(1,3) by (auto simp: codec_ok_def export_container_def)
  then show ?thesis
    using hm_rebuild(1) [of sk_kid "sk_keys a"] assms(2)
    by (simp add: from_container_def exported_of_def sk_inv_def sk_held_def hm_filed_of_records)
qed

lemma fido_comes_back:
  assumes "codec_ok K" and "fd_inv a" and "fido_widths_ok a" and "fido_export_state (fx_fido_to_vec K) a = Inr b"
  shows "\<exists>q. fido_from_state (fx_fido_parse K) b = Inr q \<and> fd_inv q \<and> fd_held q = fd_held a"
proof -
  have "fx_fido_parse K b = Inr (fido_exported a)"
    using assms(1,4) by (auto simp: codec_ok_def fido_export_state_def)
  then show ?thesis
    using assms(3) fido_rebuild [OF assms(2)]
    by (simp add: fido_from_state_def fido_widths_ok_def fd_inv_def fd_held_def hm_filed_of_records)
qed

lemma android_comes_back:
  assumes "codec_ok K" and "an_inv a" and "android_export_state (fx_android_to_vec K) a = Inr b"
  shows "\<exists>q. android_from_state (fx_android_parse K) b = Inr q \<and> an_inv q \<and> an_held q = an_held a"
proof -
  have p: "fx_android_parse K b = Inr (android_exported a)"
    using assms(1,3) by (auto simp: codec_ok_def android_export_state_def)
  have d: "distinct (map an_kid (hm_values (an_keys a)))"
    using assms(2) by (simp add: an_inv_def hm_filed_values distinct_hm_keys hm_filed_def)
  have "hm_get (hm_first_of_records an_kid (android_exported a)) k = hm_get (an_keys a) k" for k
    using hm_rebuild(2) [of an_kid "an_keys a" k] assms(2)
    by (simp add: android_exported_def hm_first_of_records_get find_sorted_key [OF d] an_inv_def)
  then show ?thesis
    using p by (simp add: android_from_state_def an_inv_def an_held_def hm_filed_of_records)
qed

lemma apple_comes_back:
  assumes "codec_ok K" and "se_inv a" and "apple_export_container (fx_apple_to_vec K) a = Inr b"
  shows "\<exists>q. apple_from_container (fx_apple_parse K) b = Inr q \<and> se_inv q \<and> se_held q = se_held a"
  using assms by (auto simp: codec_ok_def apple_export_container_def apple_from_container_def se_inv_def
      se_held_def)

lemma held_key_ids:
  "set (softkey_key_ids s) = sk_held s" "set (fido_key_ids a) = fd_held a" "set (android_key_ids b) = an_held b" "set (apple_key_ids c) = se_held c"
  by (simp_all add: softkey_key_ids_def fido_key_ids_def android_key_ids_def apple_key_ids_def sk_held_def fd_held_def an_held_def
      se_held_def set_hm_keys)

interpretation restore_softkey: restorable X "softkey_plugin X" "''softkey''" SoftkeyState the_softkey
    "export_container (fx_softkey_to_vec K)" "from_container (fx_softkey_parse K) (fx_softkey_legacy_parse K)"
    softkey_key_ids sk_inv sk_held "\<lambda>a. codec_ok K" for X and K :: "'z store_codec_scheme"
  by unfold_locales (auto simp: wallet_plugins_def wallet_good_at held_key_ids intro: softkey_comes_back)

interpretation restore_fido: restorable X "fido_plugin X t" "''fido2''" FidoState the_fido
    "fido_export_state (fx_fido_to_vec K)" "fido_from_state (fx_fido_parse K)" fido_key_ids fd_inv fd_held
    "\<lambda>a. codec_ok K \<and> fido_widths_ok a" for X t and K :: "'z store_codec_scheme"
  by unfold_locales (auto simp: wallet_plugins_def wallet_good_at held_key_ids intro: fido_comes_back)

interpretation restore_android: restorable X "android_plugin X c"
    PLUGIN_ID AndroidState the_android "android_export_state (fx_android_to_vec K)"
    "android_from_state (fx_android_parse K)" android_key_ids an_inv an_held "\<lambda>a. codec_ok K"
    for X c and K :: "'z store_codec_scheme"
  by unfold_locales (auto simp: wallet_plugins_def wallet_good_at held_key_ids intro: android_comes_back)

interpretation restore_apple: restorable X "apple_plugin X c" "''apple-se''" AppleState the_apple
    "apple_export_container (fx_apple_to_vec K)" "apple_from_container (fx_apple_parse K)" apple_key_ids
    se_inv se_held "\<lambda>a. codec_ok K"
    for X c and K :: "'z store_codec_scheme"
  by unfold_locales (auto simp: wallet_plugins_def wallet_good_at held_key_ids intro: apple_comes_back)

text \<open>A FIDO2 store is read back only with coordinates of the supported widths.\<close>

definition fido_restorable :: "('c plugin_state, 'w) manager \<Rightarrow> bool" where
  "fido_restorable m =
     (case hm_get (mg_plugins m) ''fido2'' of Some (_, FidoState p) \<Rightarrow> fido_widths_ok p | _ \<Rightarrow> True)"

lemma fido_restorableD:
  "\<lbrakk>fido_restorable m; downcast ''fido2'' the_fido missing wrong m = Inr a\<rbrakk> \<Longrightarrow> fido_widths_ok a"
  by (auto simp: fido_restorable_def downcast_def ok_or_def
      split: option.splits prod.splits plugin_state.splits)

text \<open>The condition on the records: a key with coordinates of another width makes the store unreadable.\<close>

definition holds_odd_key :: "('c plugin_state, 'w) manager \<Rightarrow> bool" where
  "holds_odd_key m \<longleftrightarrow>
     (\<exists>ops p k. hm_get (mg_plugins m) ''fido2'' = Some (ops, FidoState p) \<and> k \<in> set (hm_values (fd_keys p)) \<and>
        (length (fk_pub_x k) \<notin> {32, 48} \<or> length (fk_pub_y k) \<noteq> length (fk_pub_x k)))"

lemma fido_widths_iff:
  "fido_widths_ok p \<longleftrightarrow> (\<forall>k \<in> set (hm_values (fd_keys p)).
     length (fk_pub_x k) \<in> {32, 48} \<and> length (fk_pub_y k) = length (fk_pub_x k))"
  by (simp add: fido_widths_ok_def check_widths_ok list_all_iff fido_exported_def)

lemma fido_restorable_iff: "fido_restorable m \<longleftrightarrow> \<not> holds_odd_key m"
proof (cases "hm_get (mg_plugins m) ''fido2''")
  case (Some e)
  then show ?thesis
    by (cases e; cases "snd e") (auto simp: fido_restorable_def holds_odd_key_def fido_widths_iff)
qed (simp add: fido_restorable_def holds_odd_key_def)

text \<open>Reading an unreadable store is an error.\<close>

lemma odd_store_refused:
  assumes "codec_ok K" and "holds_odd_key m"
    and "rbind (downcast ''fido2'' the_fido missing wrong m)
      (\<lambda>p. map_err write_err (fido_export_state (fx_fido_to_vec K) p)) = Inr b"
  shows "\<exists>msg. fido_from_state (fx_fido_parse K) b = Inl (Serialization msg)"
proof -
  obtain ops p where p: "hm_get (mg_plugins m) ''fido2'' = Some (ops, FidoState p)" "\<not> fido_widths_ok p"
    using assms(2) unfolding holds_odd_key_def fido_widths_iff by blast
  have "fx_fido_parse K b = Inr (fido_exported p)"
    using assms(1,3) p(1)
    by (auto simp: rbind_eq_Inr downcast_def ok_or_def codec_ok_def fido_export_state_def)
  moreover have "\<exists>msg. check_widths ks = Inl (Serialization msg)" if "check_widths ks \<noteq> Inr ()" for ks
    using that by (induction ks) (auto simp: Let_def)
  ultimately show ?thesis using p(2) by (fastforce simp: fido_from_state_def fido_widths_ok_def)
qed

end
