(* ===== verification/Ffi.thy ===== *)
theory Ffi
  imports Ffi_Types Wasm_Transport Restore
begin

section \<open>The foreign interface: src/ffi.rs, second half\<close>

text \<open>
  \<open>FfiWscdManager\<close> is the manager behind a mutex and an executor. Its state here is the manager with the
  outside world; each method converts its arguments, runs the manager's operation and converts the
  result and the error. Beyond that the interface decides how plugins come into the manager: fresh,
  or restored from an exported store, with or without binding the restored keys.

  A store crosses as bytes and a JWK as text: the serde functions are \<open>ffi_codec\<close>, the functions of
  \<open>p256\<close> and \<open>r2ps-client\<close> that make a remote client are \<open>r2ps_package\<close>. A plugin object keeps the
  host's transport or callback it was made with; the two methods that reach behind the plugin trait
  take it as an argument. The mutex, its recovery from poisoning and the executor are not modelled:
  a method runs to its end.
\<close>

record ffi_codec = store_codec +
  fx_json_text :: "json \<Rightarrow> string"
  fx_json_parse :: "string \<Rightarrow> string + json"

record ('c, 'w, 'g, 'a) r2ps_package =
  rp_secret_from_pem :: "string \<Rightarrow> string + bytes"
  rp_public_from_pem :: "string \<Rightarrow> string + bytes"
  rp_new_client :: "string \<Rightarrow> string \<Rightarrow> bytes \<Rightarrow> bytes \<Rightarrow> (bytes \<Rightarrow> ('w, string, bytes) eff)
    \<Rightarrow> 'c \<times> ('c, 'w, 'g, 'a) r2ps_client"

type_synonym ('p, 'w, 'b) ffi_eff = "(('p, 'w) manager \<times> 'w, ffi_error, 'b) eff"

subsection \<open>Methods that wrap one operation of the manager\<close>

text \<open>\<open>Ok(self.rt.block_on(..)?.into())\<close>, and the same for a query.\<close>

definition ffi_call :: "('a \<Rightarrow> 'b) \<Rightarrow> ('s, 'a) weff \<Rightarrow> ('s, ffi_error, 'b) eff" where
  "ffi_call f m = emap_err error_to_ffi (emap f m)"

definition ffi_query :: "('a \<Rightarrow> 'b) \<Rightarrow> 'a wres \<Rightarrow> ffi_error + 'b" where
  "ffi_query f r = map_err error_to_ffi (rbind r (\<lambda>x. Inr (f x)))"

definition ffi_new :: "ffi_wscd_config \<Rightarrow> ('p, 'w) manager" where
  "ffi_new config =
     manager_new (default_config\<lparr>cfg_default_plugin := fcfg_default_plugin config\<rparr>)"

definition ffi_generate_key ::
  "ffi_codec \<Rightarrow> 'w env \<Rightarrow> ffi_algorithm \<Rightarrow> 'w ffi_auth_callback \<Rightarrow> 'w ffi_progress_callback
   \<Rightarrow> ('p, 'w, ffi_generated_key) ffi_eff" where
  "ffi_generate_key K env alg auth progress =
     ffi_call (generated_key_to_ffi (fx_json_text K))
       (manager_generate_key (algorithm_from_ffi alg) (progress_bridge progress env) (auth_bridge auth))"

definition ffi_generate_key_with_plugin ::
  "ffi_codec \<Rightarrow> 'w env \<Rightarrow> string \<Rightarrow> ffi_algorithm \<Rightarrow> 'w ffi_auth_callback \<Rightarrow> 'w ffi_progress_callback
   \<Rightarrow> ('p, 'w, ffi_generated_key) ffi_eff" where
  "ffi_generate_key_with_plugin K env plugin_id alg auth progress =
     ffi_call (generated_key_to_ffi (fx_json_text K))
       (generate_key_with_plugin plugin_id (algorithm_from_ffi alg) (progress_bridge progress env)
         (auth_bridge auth))"

definition ffi_generate_key_for_level ::
  "ffi_codec \<Rightarrow> 'w env \<Rightarrow> ffi_certification_level \<Rightarrow> string list \<Rightarrow> ffi_algorithm
   \<Rightarrow> 'w ffi_auth_callback \<Rightarrow> 'w ffi_progress_callback \<Rightarrow> ('p, 'w, ffi_generated_key) ffi_eff" where
  "ffi_generate_key_for_level K env required candidates alg auth progress =
     ffi_call (generated_key_to_ffi (fx_json_text K))
       (generate_key_for_level (certification_from_ffi required) candidates (algorithm_from_ffi alg)
         (progress_bridge progress env) (auth_bridge auth))"

definition ffi_sign ::
  "'w env \<Rightarrow> string \<Rightarrow> bytes \<Rightarrow> ffi_algorithm \<Rightarrow> 'w ffi_auth_callback \<Rightarrow> 'w ffi_progress_callback
   \<Rightarrow> ('p, 'w, ffi_signature) ffi_eff" where
  "ffi_sign env kid data alg auth progress =
     ffi_call signature_to_ffi
       (manager_sign kid data (algorithm_from_ffi alg) (progress_bridge progress env) (auth_bridge auth))"

definition ffi_sign_with_factors ::
  "'w env \<Rightarrow> string \<Rightarrow> bytes \<Rightarrow> ffi_algorithm \<Rightarrow> ffi_sign_options \<Rightarrow> 'w ffi_auth_callback
   \<Rightarrow> 'w ffi_progress_callback \<Rightarrow> ('p, 'w, ffi_sign_outcome) ffi_eff" where
  "ffi_sign_with_factors env kid data alg options auth progress =
     ebind (elift (map_err error_to_ffi (sign_options_from_ffi options))) (\<lambda>options.
       ffi_call sign_outcome_to_ffi
         (manager_sign_with_factors kid data (algorithm_from_ffi alg) options
           (progress_bridge progress env) (auth_bridge auth)))"

definition ffi_authentication_capability ::
  "string \<Rightarrow> ('p, 'w) manager \<Rightarrow> ffi_error + ffi_factor_capability" where
  "ffi_authentication_capability kid m =
     ffi_query capability_to_ffi (manager_authentication_capability m kid)"

definition ffi_list_keys :: "('p, 'w, ffi_key_info list) ffi_eff" where
  "ffi_list_keys = ffi_call (map key_info_to_ffi) manager_list_keys"

definition ffi_key_attestation :: "string \<Rightarrow> ('p, 'w, ffi_attestation_chain option) ffi_eff" where
  "ffi_key_attestation kid =
     ffi_call (map_option attestation_chain_to_ffi) (manager_attestation_chain kid)"

definition ffi_delete_key :: "string \<Rightarrow> ('p, 'w, unit) ffi_eff" where
  "ffi_delete_key kid = ffi_call (\<lambda>_. ()) (manager_delete_key kid)"

definition ffi_migrate_key ::
  "'w env \<Rightarrow> string \<Rightarrow> string \<Rightarrow> 'w ffi_auth_callback \<Rightarrow> ('p, 'w, ffi_migration_result) ffi_eff" where
  "ffi_migrate_key env kid target auth =
     ffi_call migration_to_ffi (migrate_key kid target env (auth_bridge auth))"

definition ffi_key_security ::
  "string \<Rightarrow> ('p, 'w) manager \<Rightarrow> ffi_error + ffi_security_properties" where
  "ffi_key_security kid m =
     ffi_query security_properties_to_ffi (manager_security_properties m kid)"

definition ffi_export_public_key :: "ffi_codec \<Rightarrow> string \<Rightarrow> ('p, 'w, string) ffi_eff" where
  "ffi_export_public_key K kid = ffi_call (fx_json_text K) (manager_export_public_key kid)"

definition ffi_context_status ::
  "string \<Rightarrow> string \<Rightarrow> ('p, 'w) manager \<Rightarrow> ffi_error + ffi_lifecycle_status" where
  "ffi_context_status plugin_id context_id m =
     ffi_query lifecycle_status_to_ffi (manager_lifecycle_status m plugin_id context_id)"

definition ffi_register_lifecycle ::
  "'w env \<Rightarrow> ffi_register_request \<Rightarrow> 'w ffi_auth_callback \<Rightarrow> 'w ffi_progress_callback
   \<Rightarrow> ('p, 'w, ffi_lifecycle_outcome) ffi_eff" where
  "ffi_register_lifecycle env request auth progress =
     ffi_call lifecycle_outcome_to_ffi (manager_register_lifecycle (register_request_from_ffi request)
       (progress_bridge progress env) (auth_bridge auth))"

definition ffi_activate_lifecycle ::
  "'w env \<Rightarrow> ffi_context_request \<Rightarrow> 'w ffi_auth_callback \<Rightarrow> 'w ffi_progress_callback
   \<Rightarrow> ('p, 'w, ffi_lifecycle_outcome) ffi_eff" where
  "ffi_activate_lifecycle env request auth progress =
     ffi_call lifecycle_outcome_to_ffi (manager_activate_lifecycle (context_request_from_ffi request)
       (progress_bridge progress env) (auth_bridge auth))"

definition ffi_rotate_lifecycle ::
  "'w env \<Rightarrow> ffi_context_request \<Rightarrow> 'w ffi_auth_callback \<Rightarrow> 'w ffi_progress_callback
   \<Rightarrow> ('p, 'w, ffi_lifecycle_outcome) ffi_eff" where
  "ffi_rotate_lifecycle env request auth progress =
     ffi_call lifecycle_outcome_to_ffi (manager_rotate_lifecycle (context_request_from_ffi request)
       (progress_bridge progress env) (auth_bridge auth))"

definition ffi_destroy_lifecycle ::
  "'w env \<Rightarrow> ffi_destroy_request \<Rightarrow> 'w ffi_auth_callback \<Rightarrow> 'w ffi_progress_callback
   \<Rightarrow> ('p, 'w, ffi_destruction_outcome) ffi_eff" where
  "ffi_destroy_lifecycle env request auth progress =
     ffi_call destruction_outcome_to_ffi (manager_destroy_lifecycle (destroy_request_from_ffi request)
       (progress_bridge progress env) (auth_bridge auth))"

subsection \<open>Bringing plugins in\<close>

definition binding :: "string \<Rightarrow> key_id list \<Rightarrow> ('p, 'w, unit) ffi_eff" where
  "binding pid kids = emap_err (\<lambda>e. FfiPlugin (show_error e)) (binding_keys pid kids)"

lemma binding_apply:
  "binding pid kids s =
     (case bind_keys pid kids (fst s) of
        (r, m) \<Rightarrow> (map_err (\<lambda>e. FfiPlugin (show_error e)) r, (m, snd s)))"
  by (simp add: binding_def binding_keys_def emap_err_def split: prod.splits)

definition no_plugin_error :: "wscd_error \<Rightarrow> ffi_error" where
  "no_plugin_error e = FfiNoPlugin (show_error e)"

definition serialization_error :: "wscd_error \<Rightarrow> ffi_error" where
  "serialization_error e = FfiSerialization (show_error e)"

definition register_softkey_plugin :: "externals \<Rightarrow> ('c plugin_state, 'w, unit) ffi_eff" where
  "register_softkey_plugin X = registering (softkey_plugin X) (SoftkeyState softkey_new)"

definition export_softkey_container ::
  "ffi_codec \<Rightarrow> ('c plugin_state, 'w) manager \<Rightarrow> ffi_error + bytes" where
  "export_softkey_container K m =
     rbind (downcast ''softkey'' the_softkey no_plugin_error
       (FfiPlugin ''softkey plugin is not a SoftkeyPlugin'') m) (\<lambda>p.
       map_err serialization_error (export_container (fx_softkey_to_vec K) p))"

definition import_softkey_container ::
  "externals \<Rightarrow> ffi_codec \<Rightarrow> bytes \<Rightarrow> ('c plugin_state, 'w, unit) ffi_eff" where
  "import_softkey_container X K container =
     ebind (elift (map_err serialization_error
       (from_container (fx_softkey_parse K) (fx_softkey_legacy_parse K) container))) (\<lambda>p.
       registering (softkey_plugin X) (SoftkeyState p))"

definition http_bridge ::
  "(bytes \<Rightarrow> ('w, ffi_error, bytes) eff) \<Rightarrow> bytes \<Rightarrow> ('w, string, bytes) eff" where
  "http_bridge t body = emap_err show_ffi_error (t body)"

definition r2ps_plugin ::
  "externals \<Rightarrow> ('g, 'a) r2ps_codec \<Rightarrow> r2ps_config \<Rightarrow> ('c, 'w, 'g, 'a) r2ps_client
   \<Rightarrow> ('c plugin_state, 'w) plugin_ops" where
  "r2ps_plugin X R config client = lift_ops RemoteState the_remote (r2ps_ops X R config client)"

definition register_r2ps_plugin ::
  "externals \<Rightarrow> ('g, 'a) r2ps_codec \<Rightarrow> ('c, 'w, 'g, 'a) r2ps_package \<Rightarrow> ffi_r2ps_config
   \<Rightarrow> (bytes \<Rightarrow> ('w, ffi_error, bytes) eff) \<Rightarrow> ('c plugin_state, 'w, unit) ffi_eff" where
  "register_r2ps_plugin X R P config t =
     ebind (elift (map_err (\<lambda>e. FfiCrypto (''invalid client key PEM: '' @ e))
       (rp_secret_from_pem P (frc_client_key_pem config)))) (\<lambda>client_key.
     ebind (elift (map_err (\<lambda>e. FfiCrypto (''invalid server public key PEM: '' @ e))
       (rp_public_from_pem P (frc_server_public_key_pem config)))) (\<lambda>server_pub.
       let (c, client) = rp_new_client P (frc_client_id config) (frc_context config) client_key
             server_pub (http_bridge t);
           r2ps_config = \<lparr>rc_server_url = frc_server_url config, rc_client_id = frc_client_id config,
             rc_context = frc_context config, rc_auth_mode = frc_auth_mode config,
             rc_rp_id = frc_rp_id config,
             rc_allowed_credential_ids = frc_allowed_credential_ids config\<rparr>
       in ebind (elift (map_err (\<lambda>e. FfiPlugin (''R2PS plugin init failed: '' @ show_error e))
            (r2ps_new c r2ps_config))) (\<lambda>p.
            registering (r2ps_plugin X R r2ps_config client) (RemoteState p))))"

definition register_fido2_plugin ::
  "externals \<Rightarrow> 'w ffi_transport \<Rightarrow> ('c plugin_state, 'w, unit) ffi_eff" where
  "register_fido2_plugin X t =
     registering (fido_plugin X (transport_bridge t)) (FidoState fido_new)"

text \<open>\<open>t\<close> is the transport the registered FIDO2 plugin was made with.\<close>

definition ffi_describe_authenticator ::
  "externals \<Rightarrow> 'w ctap2_transport \<Rightarrow> string \<Rightarrow> ('c plugin_state, 'w, ffi_authenticator_info) ffi_eff" where
  "ffi_describe_authenticator X t plugin_id s =
     (case downcast plugin_id the_fido error_to_ffi
         (FfiUnsupported (''plugin '' @ plugin_id @ '' does not support describe_authenticator'')) (fst s) of
        Inl e \<Rightarrow> (Inl e, s)
      | Inr _ \<Rightarrow> ffi_call authenticator_info_to_ffi (on_snd (describe_authenticator X t)) s)"

definition register_fido2_plugin_with_state ::
  "externals \<Rightarrow> ffi_codec \<Rightarrow> 'w ffi_transport \<Rightarrow> bytes \<Rightarrow> ('c plugin_state, 'w, unit) ffi_eff" where
  "register_fido2_plugin_with_state X K t state =
     ebind (elift (map_err serialization_error (fido_from_state (fx_fido_parse K) state))) (\<lambda>p.
       let kids = fido_key_ids p in
       ebind (registering (fido_plugin X (transport_bridge t)) (FidoState p)) (\<lambda>_.
         binding ''fido2'' kids))"

definition export_fido2_state ::
  "ffi_codec \<Rightarrow> ('c plugin_state, 'w) manager \<Rightarrow> ffi_error + bytes" where
  "export_fido2_state K m =
     rbind (downcast ''fido2'' the_fido no_plugin_error
       (FfiPlugin ''fido2 plugin is not a Fido2SignPlugin'') m) (\<lambda>p.
       map_err serialization_error (fido_export_state (fx_fido_to_vec K) p))"

definition register_android_keystore_plugin ::
  "externals \<Rightarrow> ffi_codec \<Rightarrow> 'w ffi_android_callback \<Rightarrow> ('c plugin_state, 'w, unit) ffi_eff" where
  "register_android_keystore_plugin X K c =
     registering (android_plugin X (android_bridge (fx_json_parse K) c)) (AndroidState android_new)"

definition register_android_keystore_plugin_with_state ::
  "externals \<Rightarrow> ffi_codec \<Rightarrow> 'w ffi_android_callback \<Rightarrow> bytes \<Rightarrow> ('c plugin_state, 'w, unit) ffi_eff" where
  "register_android_keystore_plugin_with_state X K c state =
     ebind (elift (map_err serialization_error (android_from_state (fx_android_parse K) state))) (\<lambda>p.
       let kids = android_key_ids p in
       ebind (registering (android_plugin X (android_bridge (fx_json_parse K) c)) (AndroidState p)) (\<lambda>_.
         binding PLUGIN_ID kids))"

definition export_android_keystore_state ::
  "ffi_codec \<Rightarrow> ('c plugin_state, 'w) manager \<Rightarrow> ffi_error + bytes" where
  "export_android_keystore_state K m =
     rbind (downcast PLUGIN_ID the_android no_plugin_error
       (FfiPlugin ''android-keystore plugin is not an AndroidKeystorePlugin'') m) (\<lambda>p.
       map_err serialization_error (android_export_state (fx_android_to_vec K) p))"

text \<open>\<open>c\<close> is the callback the registered Android Keystore plugin was made with.\<close>

definition generate_android_keystore_key_with_challenge ::
  "externals \<Rightarrow> ffi_codec \<Rightarrow> 'w env \<Rightarrow> 'w android_callback \<Rightarrow> bytes \<Rightarrow> ffi_algorithm
   \<Rightarrow> 'w ffi_progress_callback \<Rightarrow> ('c plugin_state, 'w, ffi_generated_key) ffi_eff" where
  "generate_android_keystore_key_with_challenge X K env c attestation_challenge alg progress s =
     (case downcast PLUGIN_ID the_android no_plugin_error
         (FfiPlugin ''android-keystore plugin is not an AndroidKeystorePlugin'') (fst s) of
        Inl e \<Rightarrow> (Inl e, s)
      | Inr _ \<Rightarrow>
          ebind (ffi_call id (on_plugin PLUGIN_ID (\<lambda>_. lift_eff AndroidState the_android
            (generate_key_with_challenge X c (algorithm_from_ffi alg) attestation_challenge
              (progress_bridge progress env))))) (\<lambda>result.
          ebind (binding PLUGIN_ID [gk_kid result]) (\<lambda>_.
            ereturn (generated_key_to_ffi (fx_json_text K) result))) s)"

definition register_apple_secure_enclave_plugin ::
  "externals \<Rightarrow> 'w ffi_enclave_callback \<Rightarrow> ('c plugin_state, 'w, unit) ffi_eff" where
  "register_apple_secure_enclave_plugin X c =
     registering (apple_plugin X (enclave_bridge c)) (AppleState apple_new)"

definition register_apple_secure_enclave_plugin_with_state ::
  "externals \<Rightarrow> ffi_codec \<Rightarrow> 'w ffi_enclave_callback \<Rightarrow> bytes \<Rightarrow> ('c plugin_state, 'w, unit) ffi_eff" where
  "register_apple_secure_enclave_plugin_with_state X K c state =
     ebind (elift (map_err serialization_error (apple_from_container (fx_apple_parse K) state))) (\<lambda>p.
       let kids = apple_key_ids p in
       ebind (registering (apple_plugin X (enclave_bridge c)) (AppleState p)) (\<lambda>_.
         binding ''apple-se'' kids))"

definition export_apple_secure_enclave_state ::
  "ffi_codec \<Rightarrow> ('c plugin_state, 'w) manager \<Rightarrow> ffi_error + bytes" where
  "export_apple_secure_enclave_state K m =
     rbind (downcast ''apple-se'' the_apple no_plugin_error
       (FfiPlugin ''apple-se plugin is not an AppleSecureEnclavePlugin'') m) (\<lambda>p.
       map_err serialization_error (apple_export_container (fx_apple_to_vec K) p))"

subsection \<open>Functions a host may call without a manager\<close>

definition ffi_decode_cose_ec2_public_key :: "externals \<Rightarrow> bytes \<Rightarrow> ffi_error + ffi_ec_public_key" where
  "ffi_decode_cose_ec2_public_key X cose_bytes =
     ffi_query (\<lambda>(x, y). \<lparr>fec_x = x, fec_y = y\<rparr>) (ps_decode_cose_ec2_public_key X cose_bytes)"

definition ffi_extract_previewsign_signature :: "externals \<Rightarrow> bytes \<Rightarrow> ffi_error + bytes" where
  "ffi_extract_previewsign_signature X auth_data =
     ffi_query id (extract_previewsign_signature X auth_data)"

subsection \<open>Restoring a store\<close>

text \<open>The three pairs of exporting and restoring methods, by the plugin's id.\<close>

inductive restores ::
  "externals \<Rightarrow> ffi_codec \<Rightarrow> ('c plugin_state, 'w) manager \<Rightarrow> ('c plugin_state, 'w) manager \<times> 'w
   \<Rightarrow> string \<Rightarrow> ffi_error + unit \<Rightarrow> ('c plugin_state, 'w) manager \<Rightarrow> bool"
  for X K m s where
  fido: "\<lbrakk>fido_restorable m; export_fido2_state K m = Inr b;
      register_fido2_plugin_with_state X K t b s = (r, (m1, w1))\<rbrakk>
    \<Longrightarrow> restores X K m s ''fido2'' r m1"
| android: "\<lbrakk>export_android_keystore_state K m = Inr b;
      register_android_keystore_plugin_with_state X K c b s = (r, (m1, w1))\<rbrakk>
    \<Longrightarrow> restores X K m s PLUGIN_ID r m1"
| apple: "\<lbrakk>export_apple_secure_enclave_state K m = Inr b;
      register_apple_secure_enclave_plugin_with_state X K d b s = (r, (m1, w1))\<rbrakk>
    \<Longrightarrow> restores X K m s ''apple-se'' r m1"

text \<open>C14: a wallet survives a restart. When the host exports the store of the FIDO2, Keystore or Secure
  Enclave plugin and hands the bytes to the restoring method of another manager, that manager is well
  formed and its plugin holds exactly the keys the old one held. No binding is moved; the call reports
  an error exactly when a restored key is bound to another plugin, and otherwise every restored key is
  routed to its plugin for every operation, whatever the default plugin is. (A FIDO2 store restores
  only with coordinates of the supported widths.)\<close>

theorem restored_keys_are_routable:
  assumes "wallet_ok X m" and "wallet_ok X m0" and "codec_ok K" and "restores X K m (m0, w) pid r m1"
  shows "wallet_ok X m1 \<and> restored_from pid m m0 r m1"
  using assms(4)
proof cases
  case (fido b t w1)
  show ?thesis
    unfolding fido(1)
    by (rule restore_fido.restore [OF assms(1,2) fido(3) [unfolded export_fido2_state_def]
          _ fido(4) [unfolded register_fido2_plugin_with_state_def binding_def]])
       (simp add: assms(3) fido_restorableD [OF fido(2)])
next
  case (android b c w1)
  then show ?thesis
    using restore_android.restore [OF assms(1,2)
        android(2) [unfolded export_android_keystore_state_def]
        _ android(3) [unfolded register_android_keystore_plugin_with_state_def binding_def]] assms(3)
    by simp
next
  case (apple b c w1)
  then show ?thesis
    using restore_apple.restore [OF assms(1,2)
        apple(2) [unfolded export_apple_secure_enclave_state_def]
        _ apple(3) [unfolded register_apple_secure_enclave_plugin_with_state_def binding_def]] assms(3)
    by simp
qed

subsection \<open>A host that declines\<close>

definition declines_pin :: "'w ffi_auth_callback \<Rightarrow> bool" where
  "declines_pin c \<longleftrightarrow>
     (\<forall>pid w. \<exists>msg. fst (fa_request_pin c pid w) = Inl (FfiAuthCancelled msg)) \<and>
     (\<forall>pid n w. \<exists>msg. fst (fa_request_new_pin c pid n w) = Inl (FfiAuthCancelled msg))"

lemma declined_request:
  assumes "declines_pin c"
  shows "fst (request_pin_for (auth_bridge c) pid kind w) = Inl AuthCancelled"
proof (cases kind)
  case EnterPin
  obtain msg where "fst (fa_request_pin c pid w) = Inl (FfiAuthCancelled msg)"
    using assms unfolding declines_pin_def by blast
  then show ?thesis by (simp add: auth_bridge_def EnterPin emap_err_apply auth_error_def)
next
  case (SetNewPin n)
  obtain msg where "fst (fa_request_new_pin c pid n w) = Inl (FfiAuthCancelled msg)"
    using assms unfolding declines_pin_def by blast
  then show ?thesis by (simp add: auth_bridge_def SetNewPin emap_err_apply auth_error_def)
qed

lemma declined_ceremony:
  assumes "declines_pin c" and "is_ok (fst (read_pin_info X (transport_bridge t) w))"
  shows "fst (make_credential X env (transport_bridge t) (auth_bridge c) rp uid cdh algs w) = Inl AuthCancelled"
proof -
  obtain info w1 where i: "read_pin_info X (transport_bridge t) w = (Inr info, w1)"
    using assms(2) by (metis is_ok_iff prod.collapse)
  have "fst (acquire_pin_uv_auth_token X env (transport_bridge t) (auth_bridge c) plugin perm rpid w) =
      Inl AuthCancelled" for plugin perm rpid
    using i declined_request [OF assms(1)]
    by (simp add: acquire_pin_uv_auth_token_def ebind_apply)
  then show ?thesis
    by (simp add: make_credential_def pin_uv_auth_for_def ebind_apply transport_bridge_def)
qed

lemma ffi_call_eq: "ffi_call f m s = (map_err error_to_ffi (rbind (fst (m s)) (\<lambda>x. Inr (f x))), snd (m s))"
  by (simp add: ffi_call_def emap_def emap_err_apply ebind_apply split: sum.splits)

lemma progress_bridge_fills [simp]: "env_fills (progress_bridge c env) = env_fills env"
  by (simp add: env_fills_def progress_bridge_def)

text \<open>C16: a cancelled PIN prompt stays a cancellation across the whole interface. When the host's own
  dialogs raise \<open>AuthCancelled\<close> and the authenticator answers \<open>getInfo\<close>, generating for any level with
  the FIDO2 plugin as first candidate returns \<open>AuthCancelled\<close> to the host: the error survives the
  adapter, the ceremony, the selection loop and the conversion back; no later candidate is asked, and
  no key and no binding changes.\<close>

theorem host_cancellation_ends_selection:
  assumes "hm_get (mg_plugins m) ''fido2'' =
      Some (fido_plugin X (transport_bridge t), FidoState p :: 'c plugin_state)"
    and "declines_pin auth" and "\<And>v. is_ok (fst (read_pin_info X (transport_bridge t) v))"
    and "env_fills env" and "alg \<noteq> FfiEdDSA"
  shows "\<exists>m' w'. (\<forall>others. ffi_generate_key_for_level K env required (''fido2'' # others) alg auth progress (m, w) =
      (Inl (FfiAuthCancelled ''authentication cancelled by user''), (m', w'))) \<and>
    (\<forall>k. bound m' k = bound m k) \<and> (\<forall>pid. mgr_held wallet_held m' pid = mgr_held wallet_held m pid)"
proof -
  have alg: "algorithm_from_ffi alg \<noteq> EdDSA" using assms(5) by (cases alg) simp_all
  have env: "env_fills (progress_bridge progress env)" using assms(4) by simp
  show ?thesis
    using cancelled_ceremony_ends_selection [OF assms(1) alg env declined_ceremony [OF assms(2,3)],
        where required = "certification_from_ffi required" and w = w]
    by (fastforce simp: ffi_generate_key_for_level_def ffi_call_eq error_to_ffi_def)
qed

text \<open>The route of a sign with a bound key to the plugin's own method.\<close>

lemma sign_of_bound:
  assumes "bound m kid = Some pid" and "hm_get (mg_plugins m) pid = Some (lift_ops i p ops, i a)"
    and "\<And>x. p (i x) = Some x"
  shows "fst (manager_sign kid data alg env auth (m, w)) = fst (po_sign ops kid data alg env auth (a, w))"
  using assms by (simp add: manager_sign_def routed_def ebind_apply get_state_def resolve_bound get_plugin_def
      hm_contains_def on_plugin_def lift_eff_def split: prod.splits)

text \<open>What the host learns when the user cancels a signing prompt depends on the plugin. The Secure
  Enclave adapter keeps the host's \<open>AuthCancelled\<close>; the Keystore adapter turns the same error into a
  callback error whose text alone still says what happened.\<close>

lemma cancelled_signing_prompt:
  assumes "hm_get (mg_plugins m) ''apple-se'' =
      Some (apple_plugin X (enclave_bridge c), AppleState p :: 'c plugin_state)"
    and "hm_get (mg_plugins m) PLUGIN_ID = Some (android_plugin X (android_bridge parse d), AndroidState q)"
    and "bound m a = Some ''apple-se''" and "a \<in> se_held p" and "bound m k = Some PLUGIN_ID" and "k \<in> an_held q"
    and "\<And>tag bs v. fst (fe_sign c tag bs v) = Inl (FfiAuthCancelled msg)"
    and "\<And>al bs v. fst (fk_sign d al bs v) = Inl (FfiAuthCancelled msg)"
  shows "fst (ffi_sign env a data FfiES256 auth progress (m, w)) =
      Inl (FfiAuthCancelled ''authentication cancelled by user'') \<and>
    fst (ffi_sign env k data FfiES256 auth progress (m, w)) =
      Inl (FfiCallback (''callback error: auth cancelled: '' @ msg))"
proof -
  obtain x where x: "hm_get (es_keys p) a = Some x" using assms(4) by (auto simp: se_held_def)
  obtain y where y: "hm_get (an_keys q) k = Some y" using assms(6) by (auto simp: an_held_def)
  have "fst (apple_sign (enclave_bridge c) a data ES256 e h (p, v)) = Inl AuthCancelled" for e h v
    using x assms(7) by (simp add: apple_sign_def ebind_apply started_def get_state_def find_key_def on_snd_apply
        on_progress_def enclave_bridge_def emap_err_apply enclave_error_def)
  moreover have "fst (android_sign (android_bridge parse d) k data ES256 e h (q, v)) =
      Inl (Callback (''auth cancelled: '' @ msg))" for e h v
    using y assms(8) by (simp add: android_sign_def ebind_apply started_def get_state_def find_key_def on_snd_apply
        on_progress_def android_bridge_def emap_err_apply callback_error_def)
  ultimately show ?thesis
    using sign_of_bound [OF assms(3) assms(1) [unfolded apple_plugin_def]]
      sign_of_bound [OF assms(5) assms(2) [unfolded android_plugin_def]]
    by (simp add: ffi_sign_def ffi_call_eq error_to_ffi_def)
qed

subsection \<open>Keys made and brought in beside the manager\<close>

lemma challenge_generate_ok:
  assumes "generate_key_with_challenge X cb alg challenge env (p, w) = (Inr g, (p', w'))" and "an_inv p"
  shows "an_inv p'" and "an_held p' = insert (gk_kid g) (an_held p)"
    and "map_option an_client_data_hash (hm_get (an_keys p') (gk_kid g)) = Some challenge"
proof -
  obtain al level w2 w3 where "finish_generate_key X env cb al level challenge (p, w2) = (Inr g, (p', w3))"
    using android_generate_ok [OF assms(1)] by metis
  then show "an_inv p'" and "an_held p' = insert (gk_kid g) (an_held p)"
    and "map_option an_client_data_hash (hm_get (an_keys p') (gk_kid g)) = Some challenge"
    using assms(2) by (cases rule: finish_generate_ok; force simp: an_inv_def an_held_def)+
qed

text \<open>C17: a key generated under the host's own challenge belongs to the wallet like any other, although
  its generation bypasses the manager's. On success it is bound to the Keystore plugin, which holds it
  with that challenge on record; on failure no binding changed, and the one key a failed call can leave
  behind is one whose name is bound to another plugin.\<close>

theorem challenge_key_is_routable:
  assumes "wallet_ok X m"
    and "generate_android_keystore_key_with_challenge X K env c challenge alg progress (m, w) = (r, (m', w'))"
  shows "wallet_ok X m' \<and>
    (case r of
       Inr g \<Rightarrow> (\<forall>k. bound m' k = (if k = fgk_kid g then Some PLUGIN_ID else bound m k)) \<and>
         (\<forall>q. mgr_held wallet_held m' q =
            mgr_held wallet_held m q \<union> (if q = PLUGIN_ID then {fgk_kid g} else {})) \<and>
         (\<exists>ops p. hm_get (mg_plugins m') PLUGIN_ID = Some (ops, AndroidState p) \<and>
            map_option an_client_data_hash (hm_get (an_keys p) (fgk_kid g)) = Some challenge)
     | Inl _ \<Rightarrow> (\<forall>k. bound m' k = bound m k) \<and>
         (\<forall>q. mgr_held wallet_held m' q \<subseteq> mgr_held wallet_held m q \<union> bound_elsewhere m q))"
proof (cases "downcast PLUGIN_ID the_android no_plugin_error
    (FfiPlugin ''android-keystore plugin is not an AndroidKeystorePlugin'') m")
  case (Inl e)
  then have "r = Inl e" "m' = m"
    using assms(2) by (simp_all add: generate_android_keystore_key_with_challenge_def)
  then show ?thesis using assms(1) by simp
next
  case (Inr p)
  obtain ops st where st: "hm_get (mg_plugins m) PLUGIN_ID = Some (ops, st)" "the_android st = Some p"
    using Inr by (auto simp: downcast_def ok_or_def split: option.splits)
  have p: "st = AndroidState p" "an_inv p" "po_id ops = PLUGIN_ID"
    using mgr_okD [OF assms(1) st(1)] st(2) by (auto simp: wallet_good_at)
  let ?gen = "generate_key_with_challenge X c (algorithm_from_ffi alg) challenge (progress_bridge progress env)"
  obtain r1 p' w1 where g: "?gen (p, w) = (r1, (p', w1))" by (metis prod.collapse)
  let ?m1 = "put_plugin PLUGIN_ID ops (AndroidState p') m"
  have on: "on_plugin PLUGIN_ID (\<lambda>_. lift_eff AndroidState the_android ?gen) (m, w) = (r1, (?m1, w1))"
    using st(1) p(1) g by (simp add: on_plugin_def lift_eff_def put_plugin_def)
  note run = assms(2) [unfolded generate_android_keystore_key_with_challenge_def, simplified Inr fst_conv sum.case]
  show ?thesis
  proof (cases r1)
    case (Inl e)
    then have "p' = p" using android_generate_err g by metis
    moreover have "r = Inl (error_to_ffi e)" "m' = ?m1"
      using run on Inl by (auto simp: ebind_def ffi_call_eq)
    ultimately show ?thesis
      using assms(1) st(1) p by (auto simp: mgr_ok_put wallet_good_at mgr_held_def put_plugin_def mgr_ok_def)
  next
    case ok: (Inr x)
    note new = challenge_generate_ok [OF g [unfolded ok] p(2)]
    obtain r2 m2 where b: "bind_keys PLUGIN_ID [gk_kid x] ?m1 = (r2, m2)" by fastforce
    have res: "r = (case r2 of Inl e \<Rightarrow> Inl (FfiPlugin (show_error e))
        | Inr _ \<Rightarrow> Inr (generated_key_to_ffi (fx_json_text K) x))" "m' = m2"
      using run on ok b by (auto simp: ebind_def ffi_call_eq binding_apply simp del: bind_keys.simps split: sum.splits)
    have "wallet_ok X m2"
      using bind_keys_frame(2) [OF b] mgr_ok_put [OF assms(1) st(1)] new(1) by (simp add: wallet_good_at)
    moreover have held: "mgr_held wallet_held m2 q =
        mgr_held wallet_held m q \<union> (if q = PLUGIN_ID then {gk_kid x} else {})" for q
      using bind_keys_frame(1) [OF b] new(2) st(1) p(1) by (auto simp: put_plugin_def mgr_held_def)
    moreover have "hm_get (mg_plugins m2) PLUGIN_ID = Some (ops, AndroidState p')"
      using bind_keys_frame(3) [OF b] by (simp add: put_plugin_def)
    moreover have "bound ?m1 k = bound m k" for k by (simp add: put_plugin_def)
    moreover have "m2 = ?m1" if "r2 = Inl e" for e
      using b that by (auto split: option.splits if_splits)
    ultimately show ?thesis
      using bind_keys_result [OF b] new(3) unfolding res
      by (cases r2) (auto simp: generated_key_to_ffi_def bound_elsewhere_def simp del: bind_keys.simps)
  qed
qed

text \<open>C40: an imported software container brings its keys but not their routes. Exporting one manager's
  container and importing it into another gives the software key store exactly the keys it held, and
  leaves every binding as it was, in contrast to the restoring methods of the other plugins: a key with
  no binding is routed by the defaults, so with another default plugin the imported keys cannot be used.\<close>

theorem imported_keys_follow_the_default:
  assumes "wallet_ok X m" and "wallet_ok X m0" and "codec_ok K"
    and "export_softkey_container K m = Inr b" and "import_softkey_container X K b (m0, w) = (r, (m1, w1))"
  shows "r = Inr () \<and> wallet_ok X m1 \<and>
    mgr_held wallet_held m1 ''softkey'' = mgr_held wallet_held m ''softkey'' \<and>
    (\<forall>k. bound m1 k = bound m0 k) \<and>
    (\<forall>kid op. bound m0 kid = None \<longrightarrow> hm_get (cfg_operation_defaults (mg_config m0)) op = None \<longrightarrow>
       resolve_for_key m1 kid op = get_plugin m1 (cfg_default_plugin (mg_config m0)))"
proof -
  obtain a ops0 st where e: "export_container (fx_softkey_to_vec K) a = Inr b"
    and st: "hm_get (mg_plugins m) ''softkey'' = Some (ops0, st)" and t: "the_softkey st = Some a"
    using assms(4)
    by (auto simp: export_softkey_container_def rbind_eq_Inr downcast_def ok_or_def split: option.splits prod.splits)
  have a: "st = SoftkeyState a" "sk_inv a" using mgr_okD [OF assms(1) st] t by (auto simp: wallet_good_at)
  obtain q where q: "from_container (fx_softkey_parse K) (fx_softkey_legacy_parse K) b = Inr q" "sk_inv q"
    "sk_held q = sk_held a" using softkey_comes_back [OF assms(3) a(2) e] by blast
  have run: "r = Inr ()" "m1 = register_plugin (softkey_plugin X) (SoftkeyState q) m0"
    using assms(5) q(1) by (simp_all add: import_softkey_container_def registering_def)
  have "wallet_ok X m1"
    unfolding run(2) using assms(2) q(2)
    by (intro mgr_ok_register) (simp_all add: wallet_plugins_def wallet_good_at)
  moreover have "mg_config m1 = mg_config m0" unfolding run(2) by (simp add: register_plugin_def)
  ultimately show ?thesis
    using run a st q(3) by (simp add: mgr_held_def resolve_for_key_def)
qed

text \<open>A host's claim about the user: a knowledge or inherence method of the vocabulary.\<close>

definition host_claim_allowed :: "ffi_sign_options \<Rightarrow> bool" where
  "host_claim_allowed v =
     (case fso_host_factor v of
        None \<Rightarrow> True
      | Some f \<Rightarrow> faf_category f \<noteq> FfiPossession \<and>
          faf_method f \<in> set (category_methods (category_from_ffi (faf_category f))))"

definition checked_options :: "ffi_sign_options \<Rightarrow> sign_options" where
  "checked_options v =
     \<lparr>so_require_fresh = fso_require_fresh v, so_host_factor = map_option (\<lambda>f.
        \<lparr>af_category = category_from_ffi (faf_category f), af_method = faf_method f\<rparr>) (fso_host_factor v)\<rparr>"

lemma sign_options_checked:
  "if host_claim_allowed v then sign_options_from_ffi v = Inr (checked_options v)
   else (\<exists>msg. sign_options_from_ffi v = Inl (Plugin msg))"
proof (cases "fso_host_factor v")
  case None
  then show ?thesis
    by (simp add: host_claim_allowed_def sign_options_from_ffi_def host_factor_from_ffi_def checked_options_def
        validate_options_def Let_def)
next
  case (Some f)
  then show ?thesis
    by (cases "faf_category f")
       (auto simp: host_claim_allowed_def sign_options_from_ffi_def host_factor_from_ffi_def checked_options_def
        validate_options_def Let_def auth_factor_new_def simp del: category_methods.simps)
qed

text \<open>C23: a host's claim is checked before anything happens. A factor the host says it verified reaches
  the manager only when it is a knowledge or inherence method of the vocabulary; with any other claim
  the call ends in a plugin error with the manager and the outside world untouched.\<close>

theorem host_claims_are_checked_first:
  "ffi_sign_with_factors env kid data alg v auth progress s =
     ffi_call sign_outcome_to_ffi (manager_sign_with_factors kid data (algorithm_from_ffi alg)
       (checked_options v) (progress_bridge progress env) (auth_bridge auth)) s \<and> host_claim_allowed v \<or>
   (\<exists>msg. ffi_sign_with_factors env kid data alg v auth progress s = (Inl (FfiPlugin msg), s)) \<and>
     \<not> host_claim_allowed v"
  using sign_options_checked [of v]
  by (auto simp: ffi_sign_with_factors_def error_to_ffi_def split: if_splits)

subsection \<open>A reference host\<close>

text \<open>A codec that serialises one value of each store, to \<open>[1]\<close>.\<close>

definition one_codec ::
  "exported_container \<Rightarrow> exported_fido \<Rightarrow> ffi_codec" where
  "one_codec s f = \<lparr>
     fx_softkey_to_vec = (\<lambda>x. if x = s then Inr [1] else Inl ''no''), fx_softkey_parse = (\<lambda>b. Inr s),
     fx_softkey_legacy_parse = (\<lambda>b. Inl ''no''),
     fx_fido_to_vec = (\<lambda>x. if x = f then Inr [1] else Inl ''no''), fx_fido_parse = (\<lambda>b. Inr f),
     fx_apple_to_vec = (\<lambda>x. if x = [] then Inr [1] else Inl ''no''), fx_apple_parse = (\<lambda>b. Inr []),
     fx_android_to_vec = (\<lambda>x. if x = [] then Inr [1] else Inl ''no''), fx_android_parse = (\<lambda>b. Inr []),
     fx_json_text = (\<lambda>j. ''{}''), fx_json_parse = (\<lambda>t. Inr JNull)\<rparr>"

lemma one_codec_ok: "codec_ok (one_codec s f)"
  by (simp add: codec_ok_def one_codec_def)

definition narrow_key :: stored_fido_key where
  "narrow_key = wide_key\<lparr>fk_pub_x := replicate 32 1, fk_pub_y := replicate 32 2\<rparr>"

definition narrow_store :: fido_state where
  "narrow_store = \<lparr>fd_keys = [(''k'', narrow_key)], fd_lifecycle = []\<rparr>"

definition ref_ffi_transport :: "nat ffi_transport" where
  "ref_ffi_transport c w = (Inr (0 # cenc (example_get_info True)), Suc w)"

definition ref_ffi_auth :: "nat ffi_auth_callback" where
  "ref_ffi_auth = \<lparr>fa_request_pin = (\<lambda>p w. (Inl (FfiAuthCancelled ''no''), Suc w)),
     fa_request_new_pin = (\<lambda>p n w. (Inl (FfiAuthCancelled ''no''), Suc w)),
     fa_request_webauthn_assertion = (\<lambda>p c r i w. (Inl (FfiAuthCancelled ''no''), Suc w))\<rparr>"

definition fido_manager :: "fido_state \<Rightarrow> (unit plugin_state, nat) manager" where
  "fido_manager p = register_plugin (fido_plugin ref_externals (transport_bridge ref_ffi_transport))
     (FidoState p) (manager_new default_config)"

lemma fido_manager_get:
  "hm_get (mg_plugins (fido_manager p)) ''fido2'' =
     Some (fido_plugin ref_externals (transport_bridge ref_ffi_transport), FidoState p)"
  by (simp add: fido_manager_def)

lemma narrow_manager_ok: "wallet_ok ref_externals (fido_manager narrow_store)"
  unfolding fido_manager_def
  by (intro mgr_ok_register mgr_ok_new)
     (auto simp: wallet_plugins_def wallet_good_at narrow_store_def narrow_key_def wide_key_def fd_inv_def
       hm_filed_def hm_wf_def hm_get_def)

theorem restored_keys_are_routable_witness:
  "\<exists>r m1. restores ref_externals (one_codec (exported_of softkey_new) (fido_exported narrow_store))
       (fido_manager narrow_store) (ffi_new \<lparr>fcfg_default_plugin = ''softkey''\<rparr>, 0) ''fido2'' r m1 \<and>
     is_ok r \<and> resolve_for_key m1 ''k'' ''sign'' = Inr ''fido2''"
proof -
  let ?K = "one_codec (exported_of softkey_new) (fido_exported narrow_store)"
  let ?m0 = "ffi_new \<lparr>fcfg_default_plugin = ''softkey''\<rparr> :: (unit plugin_state, nat) manager"
  obtain r m1 w1 where run: "register_fido2_plugin_with_state ref_externals ?K ref_ffi_transport [1] (?m0, 0)
      = (r, (m1, w1))" by (metis prod.collapse)
  have "fido_widths_ok narrow_store"
    by (simp add: fido_widths_ok_def P256_COORDINATE_LEN_def fido_exported_def narrow_store_def narrow_key_def
        wide_key_def hm_values_def)
  then have fits: "fido_restorable (fido_manager narrow_store)"
    by (simp add: fido_restorable_def fido_manager_get)
  have ex: "export_fido2_state ?K (fido_manager narrow_store) = Inr [1]"
    by (simp add: export_fido2_state_def downcast_def fido_manager_get fido_export_state_def one_codec_def)
  have res: "restores ref_externals ?K (fido_manager narrow_store) (?m0, 0) ''fido2'' r m1"
    by (rule restores.fido [OF fits ex run])
  have m0: "wallet_ok ref_externals ?m0" by (simp add: ffi_new_def mgr_ok_new)
  have h: "mgr_held wallet_held (fido_manager narrow_store) ''fido2'' = {''k''}"
  proof -
    have "fd_held narrow_store = {''k''}"
      by (auto simp: fd_held_def narrow_store_def hm_get_def split: if_splits)
    then show ?thesis by (simp add: mgr_held_def fido_manager_get)
  qed
  have b: "bound ?m0 k = None" for k by (simp add: ffi_new_def manager_new_def default_config_def hm_get_def)
  have "restored_from ''fido2'' (fido_manager narrow_store) ?m0 r m1"
    using restored_keys_are_routable [OF narrow_manager_ok m0 one_codec_ok res] by (rule conjunct2)
  then have "is_ok r \<and> resolve_for_key m1 ''k'' ''sign'' = Inr ''fido2''"
    by (simp add: restored_from_def h b)
  then show ?thesis using res by blast
qed

lemma ref_transport_bridge:
  "transport_bridge ref_ffi_transport = ref_transport False (0 # cenc (example_get_info True))"
  by (simp add: transport_bridge_def ref_transport_def ref_ffi_transport_def emap_err_def fun_eq_iff)

theorem host_cancellation_ends_selection_witness:
  "\<exists>m' w'. ffi_generate_key_for_level (one_codec (exported_of softkey_new) (fido_exported fido_new)) ref_env FfiUnattested [''fido2'', ''softkey''] FfiES256
     ref_ffi_auth (\<lambda>p w. w) (fido_manager fido_new, 0) =
     (Inl (FfiAuthCancelled ''authentication cancelled by user''), (m', w'))"
proof -
  have "declines_pin ref_ffi_auth" by (simp add: declines_pin_def ref_ffi_auth_def)
  moreover have "is_ok (fst (read_pin_info ref_externals (transport_bridge ref_ffi_transport) v))" for v
    by (simp add: ref_transport_bridge example_read_pin_info)
  ultimately show ?thesis
    using host_cancellation_ends_selection [OF fido_manager_get _ _ ref_env_fills, where auth = ref_ffi_auth and
        alg = FfiES256 and K = "one_codec (exported_of softkey_new) (fido_exported fido_new)" and required = FfiUnattested and progress = "\<lambda>p w. w" and w = 0]
    by (metis ffi_algorithm.distinct(1))
qed

definition two_stores :: "(unit plugin_state, nat) manager" where
  "two_stores = bind_key ''k'' PLUGIN_ID (bind_key ''a'' ''apple-se''
     (register_plugin (apple_plugin ref_externals (enclave_bridge
         \<lparr>fe_generate_key = (\<lambda>t w. (Inr \<lparr>fep_x = [1], fep_y = [2]\<rparr>, w)),
          fe_sign = (\<lambda>t d w. (Inl (FfiAuthCancelled ''user''), w)), fe_delete_key = (\<lambda>t w. (Inr (), w))\<rparr>))
       (AppleState \<lparr>es_keys = [(''a'', \<lparr>es_key_tag = ''t'', es_pub_x = [1], es_pub_y = [2], es_created_at = 0\<rparr>)]\<rparr>)
     (register_plugin (android_plugin ref_externals (android_bridge (\<lambda>t. Inr JNull)
         \<lparr>fk_generate = (\<lambda>a c s m u w. (Inr FfiLvStrongBox, w)), fk_certificate_chain = (\<lambda>a w. (Inr [], w)),
          fk_public_key_jwk = (\<lambda>a w. (Inr ''{}'', w)), fk_security_level = (\<lambda>a w. (Inr FfiLvStrongBox, w)),
          fk_user_authentication_methods = (\<lambda>a w. (Inr [], w)),
          fk_sign = (\<lambda>a d w. (Inl (FfiAuthCancelled ''user''), w)), fk_aliases = (\<lambda>w. (Inr [], w)), fk_delete = (\<lambda>a w. (Inr (), w))\<rparr>))
       (AndroidState \<lparr>an_keys = [(''k'', \<lparr>an_kid = ''k'', an_alias = ''al'', an_public_key_jwk = JNull,
          an_certificates = [], an_client_data_hash = [], an_security_level = LvStrongBox,
          an_user_authentication_methods = [], an_created_at = 0\<rparr>)]\<rparr>)
     (manager_new default_config))))"

lemma cancelled_signing_prompt_witness:
  "fst (ffi_sign ref_env ''k'' [1] FfiES256 ref_ffi_auth (\<lambda>p w. w) (two_stores, 0)) =
     Inl (FfiCallback ''callback error: auth cancelled: user'') \<and>
   fst (ffi_sign ref_env ''a'' [1] FfiES256 ref_ffi_auth (\<lambda>p w. w) (two_stores, 0)) =
     Inl (FfiAuthCancelled ''authentication cancelled by user'')"
proof -
  have g: "hm_get (mg_plugins two_stores) ''apple-se'' = Some (apple_plugin ref_externals (enclave_bridge
        \<lparr>fe_generate_key = (\<lambda>t w. (Inr \<lparr>fep_x = [1], fep_y = [2]\<rparr>, w)),
         fe_sign = (\<lambda>t d w. (Inl (FfiAuthCancelled ''user''), w)), fe_delete_key = (\<lambda>t w. (Inr (), w))\<rparr>),
      AppleState \<lparr>es_keys = [(''a'', \<lparr>es_key_tag = ''t'', es_pub_x = [1], es_pub_y = [2], es_created_at = 0\<rparr>)]\<rparr>)"
    "hm_get (mg_plugins two_stores) PLUGIN_ID = Some (android_plugin ref_externals (android_bridge (\<lambda>t. Inr JNull)
        \<lparr>fk_generate = (\<lambda>a c s m u w. (Inr FfiLvStrongBox, w)), fk_certificate_chain = (\<lambda>a w. (Inr [], w)),
         fk_public_key_jwk = (\<lambda>a w. (Inr ''{}'', w)), fk_security_level = (\<lambda>a w. (Inr FfiLvStrongBox, w)),
         fk_user_authentication_methods = (\<lambda>a w. (Inr [], w)),
         fk_sign = (\<lambda>a d w. (Inl (FfiAuthCancelled ''user''), w)), fk_aliases = (\<lambda>w. (Inr [], w)), fk_delete = (\<lambda>a w. (Inr (), w))\<rparr>),
      AndroidState \<lparr>an_keys = [(''k'', \<lparr>an_kid = ''k'', an_alias = ''al'', an_public_key_jwk = JNull,
         an_certificates = [], an_client_data_hash = [], an_security_level = LvStrongBox,
         an_user_authentication_methods = [], an_created_at = 0\<rparr>)]\<rparr>)"
    by (simp_all add: two_stores_def bind_key_def PLUGIN_ID_def)
  have "bound two_stores ''a'' = Some ''apple-se''" "bound two_stores ''k'' = Some PLUGIN_ID"
    by (simp_all add: two_stores_def)
  then show ?thesis
    using cancelled_signing_prompt [OF g, of "''a''" "''k''" "''user''" ref_env "[1]" ref_ffi_auth "\<lambda>p w. w" 0]
    by (simp add: se_held_def an_held_def hm_get_def)
qed

definition android_manager :: "(unit plugin_state, string list) manager" where
  "android_manager = register_plugin (android_plugin ref_externals ref_android) (AndroidState android_new)
     (manager_new default_config)"

theorem challenge_key_is_routable_witness:
  "\<exists>g m' w'. generate_android_keystore_key_with_challenge ref_externals
       (one_codec (exported_of softkey_new) (fido_exported fido_new)) ref_android_env ref_android [1] FfiES256
       (\<lambda>p w. w) (android_manager, []) = (Inr g, (m', w')) \<and>
     bound m' (fgk_kid g) = Some PLUGIN_ID \<and> fgk_kid g \<in> mgr_held wallet_held m' PLUGIN_ID"
proof -
  let ?K = "one_codec (exported_of softkey_new) (fido_exported fido_new)"
  have "\<exists>kid. jwk_thumbprint ref_externals (jwk_ec ref_externals ''P-256'' [1] [2]) = Inr kid"
    by (simp add: jwk_ec_thumbprint)
  then obtain g p' w1 where gen: "generate_key_with_challenge ref_externals ref_android ES256 [1]
      (progress_bridge (\<lambda>p w. w) ref_android_env) (android_new, []) = (Inr g, (p', w1))"
    by (auto simp: generate_key_with_challenge_def best_effort_generate_def new_alias_def ref_android_def
        ref_android_env_def finish_generate_key_def ebind_apply on_snd_apply rand_fill_def etotal_apply
        now_unix_def ecatch_def modify_state_def on_progress_def started_def completed_def progress_bridge_def)
  have get: "hm_get (mg_plugins android_manager) PLUGIN_ID =
      Some (android_plugin ref_externals ref_android, AndroidState android_new)"
    by (simp add: android_manager_def)
  have ok: "wallet_ok ref_externals android_manager"
    unfolding android_manager_def by (intro mgr_ok_register mgr_ok_new)
      (auto simp: wallet_plugins_def wallet_good_at android_new_def an_inv_def)
  obtain h m' w' where run: "generate_android_keystore_key_with_challenge ref_externals ?K ref_android_env
      ref_android [1] FfiES256 (\<lambda>p w. w) (android_manager, []) = (Inr h, (m', w'))"
    using gen get
    by (auto simp: generate_android_keystore_key_with_challenge_def downcast_def on_plugin_def lift_eff_def
        ebind_apply ffi_call_eq binding_apply android_manager_def manager_new_def default_config_def
        register_plugin_def hm_get_def split: option.splits)
  show ?thesis using challenge_key_is_routable [OF ok run] run by auto
qed

definition softkey_manager :: "(unit plugin_state, nat) manager" where
  "softkey_manager = register_plugin (softkey_plugin ref_externals) (SoftkeyState one_key_store)
     (manager_new default_config)"

theorem imported_keys_follow_the_default_witness:
  "\<exists>r m1 w1. import_softkey_container ref_externals (one_codec (exported_of one_key_store)
       (fido_exported fido_new)) [1] (fido_manager fido_new, 0) = (r, (m1, w1)) \<and>
     ''k'' \<in> mgr_held wallet_held m1 ''softkey'' \<and> bound m1 ''k'' = None"
proof -
  let ?K = "one_codec (exported_of one_key_store) (fido_exported fido_new)"
  obtain r m1 w1 where run: "import_softkey_container ref_externals ?K [1] (fido_manager fido_new, 0) = (r, (m1, w1))"
    by (metis prod.collapse)
  have m: "wallet_ok ref_externals softkey_manager"
    unfolding softkey_manager_def by (intro mgr_ok_register mgr_ok_new)
      (auto simp: wallet_plugins_def wallet_good_at sk_inv_def one_key_store_def hm_filed_def hm_wf_def hm_get_def)
  have m0: "wallet_ok ref_externals (fido_manager fido_new)"
    unfolding fido_manager_def by (intro mgr_ok_register mgr_ok_new)
      (auto simp: wallet_plugins_def wallet_good_at fido_new_def fd_inv_def)
  have ex: "export_softkey_container ?K softkey_manager = Inr [1]"
    by (simp add: export_softkey_container_def downcast_def softkey_manager_def export_container_def one_codec_def)
  have "''k'' \<in> mgr_held wallet_held softkey_manager ''softkey''"
    by (simp add: softkey_manager_def sk_held_def one_key_store_def hm_get_def)
  moreover have "bound (fido_manager fido_new) ''k'' = None"
    by (simp add: fido_manager_def manager_new_def default_config_def)
  ultimately show ?thesis
    using imported_keys_follow_the_default [OF m m0 one_codec_ok ex run] run by auto
qed

end
