(* ===== verification/Session.thy ===== *)
theory Session
  imports Restore
begin

section \<open>What holds in every session with a manager\<close>

text \<open>
  A manager is used through a sequence of calls, and its map of plugins changes types at run time: an
  \<open>Arc<dyn WscdPlugin>\<close> is looked up by its id and downcast. Two facts about the map hold in every state
  a manager can reach, for every plugin of the crate (the remote one included), and make the failing
  branches behind it unreachable: the plugin under an id is the one of that id, with a state of its own type
  (\<open>at_home\<close>), and every binding names a registered plugin.

  \<open>session_kept\<close> relates a state to one that keeps them and still has every plugin. It is a \<open>frame\<close>, so an
  operation is in it when its steps are; the lemmas below follow src/manager.rs operation by operation.
  The second frame, \<open>keys_untouched\<close>, is that of the operations that only use keys.
\<close>

subsection \<open>States at home\<close>

definition state_home :: "'c plugin_state \<Rightarrow> string" where
  "state_home s =
     (case s of SoftkeyState _ \<Rightarrow> ''softkey'' | FidoState _ \<Rightarrow> ''fido2'' | AppleState _ \<Rightarrow> ''apple-se''
      | AndroidState _ \<Rightarrow> PLUGIN_ID | RemoteState _ \<Rightarrow> ''r2ps'')"

definition same_home :: "'c plugin_state \<times> 'w \<Rightarrow> 'c plugin_state \<times> 'w \<Rightarrow> bool" where
  "same_home s t \<longleftrightarrow> state_home (fst s) = state_home (fst t)"

definition at_home :: "('c plugin_state, 'w) plugin_ops \<Rightarrow> bool" where
  "at_home ops \<longleftrightarrow>
     (\<forall>alg env auth. moves same_home (po_generate_key ops alg env auth)) \<and>
     (\<forall>kid data alg env auth. moves same_home (po_sign ops kid data alg env auth)) \<and>
     (\<forall>kid data alg opts env auth. moves same_home (po_sign_with_factors ops kid data alg opts env auth)) \<and>
     moves same_home (po_list_keys ops) \<and>
     (\<forall>kid. moves same_home (po_attestation_chain ops kid)) \<and>
     (\<forall>kid. moves same_home (po_delete_key ops kid)) \<and>
     (\<forall>kid. moves same_home (po_export_public_key ops kid)) \<and>
     (\<forall>alg env auth. moves same_home (po_import_key ops alg env auth)) \<and>
     (\<forall>r env auth. moves same_home (po_register_lifecycle ops r env auth)) \<and>
     (\<forall>r env auth. moves same_home (po_activate_lifecycle ops r env auth)) \<and>
     (\<forall>r env auth. moves same_home (po_rotate_lifecycle ops r env auth)) \<and>
     (\<forall>r env auth. moves same_home (po_destroy_lifecycle ops r env auth))"

lemma lift_eff_same_home:
  assumes "\<And>s a. p s = Some a \<Longrightarrow> state_home s = h" and "\<And>a. state_home (i a) = h"
  shows "moves same_home (lift_eff i p f)"
  using assms by (auto simp: moves_def lift_eff_def same_home_def split: option.split prod.split)

lemma lift_at_home:
  assumes "\<And>s a. p s = Some a \<Longrightarrow> state_home s = h" and "\<And>a. state_home (i a) = h"
  shows "at_home (lift_ops i p ops)"
  unfolding at_home_def lift_ops_def plugin_ops.simps
  by (intro conjI allI lift_eff_same_home [of p h i] assms)

lemma crate_plugins_at_home:
  "at_home (softkey_plugin X)" "at_home (fido_plugin X t)" "at_home (apple_plugin X c)"
  "at_home (android_plugin X d)" "at_home (lift_ops RemoteState the_remote ops)"
proof -
  have "the_softkey s = Some a \<Longrightarrow> state_home s = ''softkey''"
    "the_fido s = Some b \<Longrightarrow> state_home s = ''fido2''"
    "the_apple s = Some c' \<Longrightarrow> state_home s = ''apple-se''"
    "the_android s = Some d' \<Longrightarrow> state_home s = PLUGIN_ID"
    "the_remote s = Some e \<Longrightarrow> state_home s = ''r2ps''" for s :: "'x plugin_state" and a b c' d' e
    by (cases s; simp add: state_home_def)+
  note home = this
  show "at_home (softkey_plugin X)" unfolding softkey_plugin_def
    by (rule lift_at_home [where h = "''softkey''"]) (erule home, simp add: state_home_def)
  show "at_home (fido_plugin X t)" unfolding fido_plugin_def
    by (rule lift_at_home [where h = "''fido2''"]) (erule home, simp add: state_home_def)
  show "at_home (apple_plugin X c)" unfolding apple_plugin_def
    by (rule lift_at_home [where h = "''apple-se''"]) (erule home, simp add: state_home_def)
  show "at_home (android_plugin X d)" unfolding android_plugin_def
    by (rule lift_at_home [where h = PLUGIN_ID]) (erule home, simp add: state_home_def)
  show "at_home (lift_ops RemoteState the_remote ops)"
    by (rule lift_at_home [where h = "''r2ps''"]) (erule home, simp add: state_home_def)
qed

subsection \<open>Sessions\<close>

abbreviation registered :: "('p, 'w) manager \<Rightarrow> string \<Rightarrow> bool" where
  "registered m pid \<equiv> hm_get (mg_plugins m) pid \<noteq> None"

definition session_ok :: "('c plugin_state, 'w) manager \<Rightarrow> bool" where
  "session_ok m \<longleftrightarrow>
     (\<forall>pid ops st. hm_get (mg_plugins m) pid = Some (ops, st) \<longrightarrow>
        po_id ops = pid \<and> state_home st = pid \<and> at_home ops) \<and>
     (\<forall>k pid. bound m k = Some pid \<longrightarrow> registered m pid)"

definition session_kept ::
  "('c plugin_state, 'w) manager \<times> 'w \<Rightarrow> ('c plugin_state, 'w) manager \<times> 'w \<Rightarrow> bool" where
  "session_kept s t \<longleftrightarrow>
     (session_ok (fst s) \<longrightarrow>
        session_ok (fst t) \<and> (\<forall>pid. registered (fst s) pid \<longrightarrow> registered (fst t) pid))"

interpretation session: frame session_kept
  by unfold_locales (auto simp: session_kept_def)

lemma session_okD:
  "\<lbrakk>session_ok m; hm_get (mg_plugins m) pid = Some (ops, st)\<rbrakk> \<Longrightarrow>
     po_id ops = pid \<and> state_home st = pid \<and> at_home ops"
  by (auto simp: session_ok_def)

lemma session_get_state: "moves session_kept get_state"
  by (simp add: moves_def get_state_def session.stay)

lemma session_on_plugin:
  assumes "\<And>ops. at_home ops \<Longrightarrow> moves same_home (f ops)"
  shows "moves session_kept (on_plugin pid f)"
proof (rule movesI)
  fix s r t assume run: "on_plugin pid f s = (r, t)"
  obtain m w m' w' where s: "s = (m, w)" "t = (m', w')" by fastforce
  show "session_kept s t"
    using run [unfolded s]
  proof (cases rule: on_plugin_cases)
    case missing
    then show ?thesis by (simp add: s session_kept_def)
  next
    case (ran ops st st')
    show ?thesis
      unfolding session_kept_def s fst_conv
    proof (intro impI conjI)
      assume ok: "session_ok m"
      have "state_home st' = state_home st"
        using movesD [OF assms ran(2)] session_okD [OF ok ran(1)] by (simp add: same_home_def)
      then show "session_ok m'"
        using ok ran session_okD [OF ok ran(1)] by (auto simp: session_ok_def)
    next
      show "\<forall>p. registered m p \<longrightarrow> registered m' p" using ran by simp
    qed
  qed
qed

lemma session_routed:
  "(\<And>ops. at_home ops \<Longrightarrow> moves same_home (f ops)) \<Longrightarrow> moves session_kept (routed kid op f)"
  "(\<And>ops. at_home ops \<Longrightarrow> moves same_home (f ops)) \<Longrightarrow> moves session_kept (to_plugin pid f)"
  unfolding routed_def to_plugin_def
  by (intro session.moves_ebind session_get_state session.moves_still session_on_plugin; assumption)+

lemma session_bind_key:
  "(session_ok (fst t) \<Longrightarrow> registered (fst t) pid) \<Longrightarrow> session_kept t (bind_key kid pid (fst t), snd t)"
  by (auto simp: session_kept_def session_ok_def)

lemma session_unbind_key: "moves session_kept (modify_state (unbind_key kid))"
  by (auto simp: moves_def modify_state_def session_kept_def session_ok_def)

lemma on_plugin_registered: "on_plugin pid f s = (Inr x, t) \<Longrightarrow> registered (fst t) pid"
  by (cases s; cases t) (auto elim: on_plugin_cases)

subsection \<open>Every operation of the manager\<close>

lemma session_generate_key_on:
  "moves session_kept
     (generate_key_on pid alg env auth :: (('c plugin_state, 'w) manager \<times> 'w, generated_key) weff)"
  unfolding generate_key_on_def
proof (rule session.moves_ebind_after [where Q = "\<lambda>_ t. registered (fst t) pid"])
  show "moves session_kept (on_plugin pid (\<lambda>ops :: ('c plugin_state, 'w) plugin_ops. po_generate_key ops alg env auth))"
    by (rule session_on_plugin) (simp add: at_home_def)
next
  fix x :: generated_key and t :: "('c plugin_state, 'w) manager \<times> 'w"
  assume reg: "registered (fst t) pid"
  have "session_ok (fst t) \<Longrightarrow> id_of_plugin (fst t) pid = pid"
    using reg by (auto simp: id_of_plugin_def dest: session_okD split: option.split)
  then have "session_kept t (bind_key (gk_kid x) (id_of_plugin (fst t) pid) (fst t), snd t)"
    using reg by (intro session_bind_key) simp
  then show "session_kept t (snd (ebind get_state (\<lambda>m. let this = id_of_plugin m pid in
      case bound m (gk_kid x) of
        Some existing \<Rightarrow>
          if existing \<noteq> this
          then ethrow (Plugin (''plugin '' @ this @ '' generated key '' @ gk_kid x
                 @ '' which is already bound to plugin '' @ existing))
          else ebind (modify_state (bind_key (gk_kid x) this)) (\<lambda>_. ereturn x)
      | None \<Rightarrow> ebind (modify_state (bind_key (gk_kid x) this)) (\<lambda>_. ereturn x)) t))"
    by (auto simp: Let_def session.stay split: option.split)
qed (rule on_plugin_registered)

lemma session_generate:
  "moves session_kept (manager_generate_key alg env auth)"
  "moves session_kept (generate_key_with_plugin pid alg env auth)"
  unfolding manager_generate_key_def generate_key_with_plugin_def
  by (intro session.moves_ebind session_get_state session.moves_still session_generate_key_on)+

lemma session_delete_key: "moves session_kept (manager_delete_key kid)"
  unfolding manager_delete_key_def
  by (intro session.moves_ebind session_routed session_unbind_key) (simp add: at_home_def)

lemma session_try_candidates: "session_kept s (snd (try_candidates required last_err pids alg env auth s))"
proof (induction required last_err pids alg env auth s rule: try_candidates.induct)
  case (2 required last_err pid pids alg env auth s)
  have g: "generate_key_on pid alg env auth s = (r, t) \<Longrightarrow> session_kept s t" for r t
    using session_generate_key_on by (rule movesD)
  have d: "manager_delete_key kid t = (r, u) \<Longrightarrow> session_kept t u" for kid r t u
    using session_delete_key by (rule movesD)
  show ?case
    using 2 by (auto simp: Let_def split: sum.split prod.split
        intro: session.trans [OF g] session.trans [OF session.trans [OF g d]] dest: g d)
qed (simp add: session.stay)

lemma session_migrate:
  "moves session_kept
     (migrate_key kid target env auth :: (('c plugin_state, 'w) manager \<times> 'w, migration_result) weff)"
proof -
  have last: "moves session_kept
      (ebind (on_plugin target (\<lambda>ops :: ('c plugin_state, 'w) plugin_ops. po_import_key ops alg env' auth))
        (\<lambda>result. case result of
           Migrated new_kid \<Rightarrow> ebind (modify_state (bind_key new_kid target)) (\<lambda>_. ereturn result)
         | ReEnrollmentRequired _ \<Rightarrow> ereturn result))" for target alg env'
  proof (rule session.moves_ebind_after [where Q = "\<lambda>_ t. registered (fst t) target"])
    show "moves session_kept (on_plugin target (\<lambda>ops :: ('c plugin_state, 'w) plugin_ops.
        po_import_key ops alg env' auth))"
      by (rule session_on_plugin) (simp add: at_home_def)
  next
    show "session_kept t (snd ((case x of
           Migrated new_kid \<Rightarrow> ebind (modify_state (bind_key new_kid target)) (\<lambda>_. ereturn x)
         | ReEnrollmentRequired _ \<Rightarrow> ereturn x) t))"
      if "registered (fst t) target" for x and t :: "('c plugin_state, 'w) manager \<times> 'w"
      using session_bind_key [of t target] that by (simp add: session.stay split: migration_result.split)
  qed (rule on_plugin_registered)
  have source: "moves session_kept (on_plugin pid (\<lambda>ops :: ('c plugin_state, 'w) plugin_ops.
      po_export_public_key ops kid))" "moves session_kept (on_plugin pid
      (po_list_keys :: ('c plugin_state, 'w) plugin_ops \<Rightarrow> _))" for pid
    by (rule session_on_plugin; simp add: at_home_def)+
  show ?thesis
    unfolding migrate_key_def
    by (intro session.moves_ebind session_get_state session.moves_still source last)
       (simp add: session.moves_still, intro impI session.moves_ebind session.moves_still source last)
qed

lemma session_list_keys: "moves session_kept manager_list_keys"
proof -
  have "moves session_kept (list_plugins pids acc)" for pids acc
  proof (induction pids acc rule: list_plugins.induct)
    case (2 pid pids acc)
    show ?case
      unfolding list_plugins.simps by (intro session.moves_ebind session_on_plugin 2) (simp add: at_home_def)
  qed (simp only: list_plugins.simps session.moves_still)
  then show ?thesis
    unfolding manager_list_keys_def by (intro session.moves_ebind session_get_state)
qed

lemma session_uses:
  "moves session_kept (manager_sign kid data alg env auth)"
  "moves session_kept (manager_sign_with_factors kid data alg opts env auth)"
  "moves session_kept (manager_attestation_chain kid)"
  "moves session_kept (manager_export_public_key kid)"
  unfolding manager_sign_def manager_sign_with_factors_def manager_attestation_chain_def
    manager_export_public_key_def
  by (rule session_routed; simp add: at_home_def)+

lemma session_lifecycle:
  "moves session_kept (manager_register_lifecycle rr env auth)"
  "moves session_kept (manager_activate_lifecycle cr env auth)"
  "moves session_kept (manager_rotate_lifecycle cr env auth)"
  "moves session_kept (manager_destroy_lifecycle dr env auth)"
  unfolding manager_register_lifecycle_def manager_activate_lifecycle_def manager_rotate_lifecycle_def
    manager_destroy_lifecycle_def
  by (rule session_routed; simp add: at_home_def)+

lemma session_for_level: "moves session_kept (generate_key_for_level required candidates alg env auth)"
  by (auto simp: moves_def generate_key_for_level_def session_try_candidates session.stay)

text \<open>A plugin that comes in, and the binding of its keys.\<close>

lemma session_registering:
  "\<lbrakk>at_home ops; state_home st = po_id ops\<rbrakk> \<Longrightarrow> moves session_kept (registering ops st)"
  by (auto simp: moves_def registering_def session_kept_def session_ok_def split: if_splits)

lemma bind_keys_origin:
  "bind_keys pid kids m = (r, m') \<Longrightarrow> bound m' k = Some q \<Longrightarrow> bound m k = Some q \<or> q = pid"
  by (induction pid kids m rule: bind_keys.induct) (auto split: option.splits if_splits)

lemma session_binding_keys: "registered (fst s) pid \<Longrightarrow> session_kept s (snd (binding_keys pid kids s))"
proof -
  assume reg: "registered (fst s) pid"
  obtain r m where b: "bind_keys pid kids (fst s) = (r, m)" by fastforce
  show ?thesis
    using bind_keys_frame(3) [OF b] bind_keys_origin [OF b] reg
    by (fastforce simp: binding_keys_def b session_kept_def session_ok_def)
qed

lemma session_restoring:
  assumes "at_home ops" and "\<And>p. state_home (put_in p) = po_id ops" and "pid = po_id ops"
  shows "moves session_kept (ebind (elift of_export) (\<lambda>p. let ks = kids p in
    ebind (registering ops (put_in p)) (\<lambda>_. emap_err bind_err (binding_keys pid ks))))"
  unfolding Let_def
proof (rule session.moves_ebind [OF session.moves_still(3)])
  fix p
  show "moves session_kept (ebind (registering ops (put_in p)) (\<lambda>_. emap_err bind_err (binding_keys pid (kids p))))"
  proof (rule session.moves_ebind_after [where Q = "\<lambda>_ t. registered (fst t) pid"])
    show "session_kept t (snd (emap_err bind_err (binding_keys pid (kids p)) t))"
      if "registered (fst t) pid" for t
      using session_binding_keys [OF that] by (simp add: emap_err_apply)
  qed (use assms in \<open>auto simp: session_registering registering_def\<close>)
qed

subsection \<open>Operations that only use keys\<close>

text \<open>No plugin's state and no setting differs; only the outside world may have moved on.\<close>

definition keys_untouched ::
  "externals \<Rightarrow> ('c plugin_state, 'w) manager \<times> 'w \<Rightarrow> ('c plugin_state, 'w) manager \<times> 'w \<Rightarrow> bool" where
  "keys_untouched X s t \<longleftrightarrow>
     (wallet_ok X (fst s) \<longrightarrow>
        mg_config (fst t) = mg_config (fst s) \<and>
        (\<forall>pid. hm_get (mg_plugins (fst t)) pid = hm_get (mg_plugins (fst s)) pid))"

lemma untouched_ok: "\<lbrakk>keys_untouched X s t; wallet_ok X (fst s)\<rbrakk> \<Longrightarrow> wallet_ok X (fst t)"
  by (simp add: keys_untouched_def mgr_ok_def)

lemma untouched_keys:
  assumes "keys_untouched X s t" and "wallet_ok X (fst s)"
  shows "mgr_held held (fst t) pid = mgr_held held (fst s) pid" and "bound (fst t) k = bound (fst s) k"
  using assms by (simp_all add: keys_untouched_def mgr_held_def)

interpretation untouched: frame "keys_untouched X" for X
proof
  show "keys_untouched X s s" for s :: "('c plugin_state, 'w) manager \<times> 'w" by (simp add: keys_untouched_def)
  show "keys_untouched X s u" if "keys_untouched X s t" "keys_untouched X t u"
    for s t u :: "('c plugin_state, 'w) manager \<times> 'w"
    using that untouched_ok [of X s t] by (simp add: keys_untouched_def)
qed

lemma untouched_get_state: "moves (keys_untouched X) get_state"
  by (simp add: moves_def get_state_def untouched.stay)

lemma untouched_on_plugin:
  assumes "\<And>ops p w r p' w'. \<lbrakk>ops \<in> wallet_plugins X; wallet_good (po_id ops) p;
      f ops (p, w) = (r, (p', w'))\<rbrakk> \<Longrightarrow> p' = p"
  shows "moves (keys_untouched X) (on_plugin pid f)"
proof (rule movesI)
  fix s r t assume run: "on_plugin pid f s = (r, t)"
  obtain m w m' w' where s: "s = (m, w)" "t = (m', w')" by fastforce
  show "keys_untouched X s t"
    using run [unfolded s]
  proof (cases rule: on_plugin_cases)
    case missing
    then show ?thesis by (simp add: s keys_untouched_def)
  next
    case (ran ops st st')
    show ?thesis
      unfolding keys_untouched_def s fst_conv
    proof (intro impI)
      assume ok: "wallet_ok X m"
      have "st' = st" using assms [OF _ _ ran(2)] mgr_okD [OF ok ran(1)] by simp
      then show "mg_config m' = mg_config m \<and> (\<forall>p. hm_get (mg_plugins m') p = hm_get (mg_plugins m) p)"
        using ran by simp
    qed
  qed
qed

lemmas wallet_laws = wallet_key_store [THEN key_store.sign_frame] wallet_key_store [THEN key_store.factors_frame]
  wallet_key_store [THEN key_store.list_ok, THEN conjunct1] wallet_key_store [THEN key_store.attestation_frame]
  wallet_key_store [THEN key_store.export_frame]

lemma untouched_routed:
  assumes "\<And>ops p w r p' w'. \<lbrakk>ops \<in> wallet_plugins X; wallet_good (po_id ops) p;
      f ops (p, w) = (r, (p', w'))\<rbrakk> \<Longrightarrow> p' = p"
  shows "moves (keys_untouched X) (routed kid op f)"
  unfolding routed_def
  by (intro untouched.moves_ebind untouched_get_state untouched.moves_still untouched_on_plugin) (rule assms)

lemma untouched_uses:
  "moves (keys_untouched X) (manager_sign kid data alg env auth)"
  "moves (keys_untouched X) (manager_sign_with_factors kid data alg opts env auth)"
  "moves (keys_untouched X) (manager_attestation_chain kid)"
  "moves (keys_untouched X) (manager_export_public_key kid)"
  unfolding manager_sign_def manager_sign_with_factors_def manager_attestation_chain_def
    manager_export_public_key_def
  by (rule untouched_routed, erule (2) wallet_laws)+

lemma untouched_list_keys: "moves (keys_untouched X) manager_list_keys"
proof -
  have one: "moves (keys_untouched X) (on_plugin pid po_list_keys)" for pid
    by (rule untouched_on_plugin) (erule (2) wallet_laws)
  have "moves (keys_untouched X) (list_plugins pids acc)" for pids acc
  proof (induction pids acc rule: list_plugins.induct)
    case (2 pid pids acc)
    show ?case unfolding list_plugins.simps by (intro untouched.moves_ebind one 2)
  qed (simp only: list_plugins.simps untouched.moves_still)
  then show ?thesis
    unfolding manager_list_keys_def by (intro untouched.moves_ebind untouched_get_state)
qed

subsection \<open>Operations that keep a wallet well formed\<close>

definition wallet_kept ::
  "externals \<Rightarrow> ('c plugin_state, 'w) manager \<times> 'w \<Rightarrow> ('c plugin_state, 'w) manager \<times> 'w \<Rightarrow> bool" where
  "wallet_kept X s t \<longleftrightarrow> (wallet_ok X (fst s) \<longrightarrow> wallet_ok X (fst t))"

interpretation kept: frame "wallet_kept X" for X
  by unfold_locales (auto simp: wallet_kept_def)

lemma untouched_kept: "moves (keys_untouched X) m \<Longrightarrow> moves (wallet_kept X) m"
  unfolding moves_def wallet_kept_def using untouched_ok by blast

lemma kept_generate_key_on:
  "moves (wallet_kept X)
     (generate_key_on pid alg env auth :: (('c plugin_state, 'w) manager \<times> 'w, generated_key) weff)"
proof (rule movesI)
  show "wallet_kept X s t" if "generate_key_on pid alg env auth s = (r, t)"
    for s t :: "('c plugin_state, 'w) manager \<times> 'w" and r
    using that wallet.generate_key_on_cases(1) by (cases s; cases t) (auto simp: wallet_kept_def)
qed

lemma kept_get_state: "moves (wallet_kept X) get_state"
  by (rule untouched_kept [OF untouched_get_state])

lemma kept_delete_key:
  "moves (wallet_kept X) (manager_delete_key kid :: (('c plugin_state, 'w) manager \<times> 'w, unit) weff)"
proof -
  have "moves (wallet_kept X) (on_plugin pid
      (\<lambda>ops :: ('c plugin_state, 'w) plugin_ops. po_delete_key ops kid))" for pid
  proof (rule movesI)
    fix s r t
    assume run: "on_plugin pid (\<lambda>ops :: ('c plugin_state, 'w) plugin_ops. po_delete_key ops kid) s = (r, t)"
    obtain m w m' w' where s: "s = (m, w)" "t = (m', w')" by fastforce
    show "wallet_kept X s t"
      using run [unfolded s]
    proof (cases rule: on_plugin_cases)
      case missing
      then show ?thesis by (simp add: s wallet_kept_def)
    next
      case (ran ops st st')
      have "wallet_good pid st'" if "wallet_ok X m"
      proof -
        have reg: "ops \<in> wallet_plugins X" "po_id ops = pid" "wallet_good pid st"
          using mgr_okD [OF that ran(1)] by auto
        then show ?thesis
          using key_store.delete_ok [OF wallet_key_store [OF reg(1)]]
            key_store.delete_err [OF wallet_key_store [OF reg(1)]] ran(2) by (cases r) force+
      qed
      then show ?thesis using ran by (auto simp: s wallet_kept_def mgr_ok_put)
    qed
  qed
  moreover have "moves (wallet_kept X) (modify_state (unbind_key kid))"
    by (simp add: moves_def modify_state_def wallet_kept_def)
  ultimately show ?thesis
    unfolding manager_delete_key_def routed_def
    by (intro kept.moves_ebind kept_get_state kept.moves_still)
qed

lemma kept_generate:
  "moves (wallet_kept X) (manager_generate_key alg env auth)"
  "moves (wallet_kept X) (generate_key_with_plugin pid alg env auth)"
  unfolding manager_generate_key_def generate_key_with_plugin_def
  by (intro kept.moves_ebind kept_get_state kept.moves_still kept_generate_key_on)+

lemma kept_registering:
  "\<lbrakk>ops \<in> wallet_plugins X; wallet_good (po_id ops) st\<rbrakk> \<Longrightarrow> moves (wallet_kept X) (registering ops st)"
  by (simp add: moves_def registering_def wallet_kept_def mgr_ok_register)

lemma kept_binding_keys: "moves (wallet_kept X) (binding_keys pid kids)"
  by (auto simp: moves_def binding_keys_def wallet_kept_def split: prod.split dest: bind_keys_frame(2))

lemma kept_restoring:
  assumes "ops \<in> wallet_plugins X" and "\<And>p. of_export = Inr p \<Longrightarrow> wallet_good (po_id ops) (put_in p)"
  shows "moves (wallet_kept X) (ebind (elift of_export) (\<lambda>p. let ks = kids p in
    ebind (registering ops (put_in p)) (\<lambda>_. emap_err bind_err (binding_keys pid ks))))"
proof (cases of_export)
  case (Inl e)
  then show ?thesis by (simp add: moves_def kept.stay)
next
  case (Inr p)
  have "moves (wallet_kept X)
      (ebind (registering ops (put_in p)) (\<lambda>_. emap_err bind_err (binding_keys pid (kids p))))"
    by (intro kept.moves_ebind kept.moves_emap_err kept_binding_keys kept_registering assms Inr)
  then show ?thesis using Inr by (simp add: moves_def Let_def)
qed

text \<open>A store that is new or that parsed is well formed, whatever bytes it was read from.\<close>

lemma parsed_stores_ok:
  "sk_inv softkey_new" "fd_inv fido_new"
  "from_container parse legacy b = Inr p \<Longrightarrow> sk_inv p"
  "fido_from_state fparse b = Inr q \<Longrightarrow> fd_inv q"
  by (auto simp: softkey_new_def fido_new_def from_container_def sk_inv_def fido_from_state_def fd_inv_def
      hm_filed_of_records rbind_eq_Inr
      split: sum.splits prod.splits)

subsection \<open>Operations that leave a route alone\<close>

text \<open>A key that is bound stays bound to the same plugin. This holds for any plugins at all.\<close>

definition route_kept ::
  "key_id \<Rightarrow> string \<Rightarrow> ('p, 'w) manager \<times> 'w \<Rightarrow> ('p, 'w) manager \<times> 'w \<Rightarrow> bool" where
  "route_kept k pid s t \<longleftrightarrow> (bound (fst s) k = Some pid \<longrightarrow> bound (fst t) k = Some pid)"

interpretation route: frame "route_kept k pid" for k pid
  by unfold_locales (auto simp: route_kept_def)

lemma route_get_state: "moves (route_kept k q) get_state"
  by (simp add: moves_def get_state_def route.stay)

lemma route_on_plugin:
  "moves (route_kept k q) (on_plugin pid f :: (('p, 'w) manager \<times> 'w, 'a) weff)"
proof (rule movesI)
  show "route_kept k q s t" if "on_plugin pid f s = (r, t)" for s t :: "('p, 'w) manager \<times> 'w" and r
    using that by (cases s; cases t) (auto simp: route_kept_def elim: on_plugin_cases)
qed

lemma route_routed: "moves (route_kept k q) (routed kid op f)" "moves (route_kept k q) (to_plugin pid f)"
  unfolding routed_def to_plugin_def
  by (intro route.moves_ebind route_get_state route.moves_still route_on_plugin)+

lemma route_generate:
  "moves (route_kept k q) (generate_key_on pid alg env auth)"
  "moves (route_kept k q) (manager_generate_key alg env auth)"
  "moves (route_kept k q) (generate_key_with_plugin pid alg env auth)"
proof -
  show on: "moves (route_kept k q) (generate_key_on pid alg env auth)" for pid
    using generate_key_on_keeps_bindings [of pid alg env auth]
    by (intro movesI) (auto simp: route_kept_def split_paired_all)
  show "moves (route_kept k q) (manager_generate_key alg env auth)"
    "moves (route_kept k q) (generate_key_with_plugin pid alg env auth)"
    unfolding manager_generate_key_def generate_key_with_plugin_def
    by (intro route.moves_ebind route_get_state route.moves_still on)+
qed

lemma route_delete_key: "kid \<noteq> k \<Longrightarrow> moves (route_kept k q) (manager_delete_key kid)"
  unfolding manager_delete_key_def
  by (intro route.moves_ebind route_routed) (simp add: moves_def modify_state_def route_kept_def)

lemma route_list_keys: "moves (route_kept k q) manager_list_keys"
proof -
  have "moves (route_kept k q) (list_plugins pids acc)" for pids acc
  proof (induction pids acc rule: list_plugins.induct)
    case (2 pid pids acc)
    show ?case unfolding list_plugins.simps by (intro route.moves_ebind route_on_plugin 2)
  qed (simp only: list_plugins.simps route.moves_still)
  then show ?thesis
    unfolding manager_list_keys_def by (intro route.moves_ebind route_get_state)
qed

lemma route_uses:
  "moves (route_kept k q) (manager_sign kid data alg env auth)"
  "moves (route_kept k q) (manager_sign_with_factors kid data alg opts env auth)"
  "moves (route_kept k q) (manager_attestation_chain kid)"
  "moves (route_kept k q) (manager_export_public_key kid)"
  "moves (route_kept k q) (manager_register_lifecycle rr env auth)"
  "moves (route_kept k q) (manager_activate_lifecycle cr env auth)"
  "moves (route_kept k q) (manager_rotate_lifecycle cr env auth)"
  "moves (route_kept k q) (manager_destroy_lifecycle dr env auth)"
  unfolding manager_sign_def manager_sign_with_factors_def manager_attestation_chain_def
    manager_export_public_key_def manager_register_lifecycle_def manager_activate_lifecycle_def
    manager_rotate_lifecycle_def manager_destroy_lifecycle_def
  by (rule route_routed)+

lemma route_registering: "moves (route_kept k q) (registering ops st)"
  by (simp add: moves_def registering_def route_kept_def)

lemma route_binding_keys: "moves (route_kept k q) (binding_keys pid kids)"
  using bind_keys_result by (fastforce simp: moves_def binding_keys_def route_kept_def split: prod.split)

end
