(* ===== verification/Host_Session.thy ===== *)
theory Host_Session
  imports Ffi Session
begin

section \<open>Every session of a native host\<close>

text \<open>
  The calls a native host can make on \<open>FfiWscdManager\<close>, as the rules of a transition relation: any
  method, any arguments, any callbacks, the failing calls included. \<open>Mutex<InternalManager>\<close> makes a
  call one step, and since the lock is taken back from a poisoned mutex a call that panics leaves the
  state it had reached, as an error does. The invariant \<open>session_ok\<close> holds in every state a host can
  bring the manager to.
\<close>

text \<open>The calls that can end or move a binding, and all others.\<close>

datatype host_call = Deletes key_id | Migrates | GeneratesForLevel | OtherCall

inductive ffi_step ::
  "externals \<Rightarrow> ffi_codec \<Rightarrow> ('g, 'a) r2ps_codec \<Rightarrow> ('c, 'w, 'g, 'a) r2ps_package
   \<Rightarrow> ('c plugin_state, 'w) manager \<times> 'w \<Rightarrow> host_call \<Rightarrow> ('c plugin_state, 'w) manager \<times> 'w \<Rightarrow> bool"
  for X K R P s where
  generate: "ffi_generate_key K env alg auth progress s = (r1, t) \<Longrightarrow> ffi_step X K R P s OtherCall t"
| generate_with: "ffi_generate_key_with_plugin K env pid alg auth progress s = (r1, t) \<Longrightarrow> ffi_step X K R P s OtherCall t"
| generate_level: "ffi_generate_key_for_level K env required candidates alg auth progress s = (r1, t)
    \<Longrightarrow> ffi_step X K R P s GeneratesForLevel t"
| generate_challenge: "generate_android_keystore_key_with_challenge X K env c challenge alg progress s = (r1, t)
    \<Longrightarrow> ffi_step X K R P s OtherCall t"
| sign: "ffi_sign env kid data alg auth progress s = (r2, t) \<Longrightarrow> ffi_step X K R P s OtherCall t"
| sign_factors: "ffi_sign_with_factors env kid data alg options auth progress s = (r3, t) \<Longrightarrow> ffi_step X K R P s OtherCall t"
| list_keys: "ffi_list_keys s = (r4, t) \<Longrightarrow> ffi_step X K R P s OtherCall t"
| attestation: "ffi_key_attestation kid s = (r5, t) \<Longrightarrow> ffi_step X K R P s OtherCall t"
| delete: "ffi_delete_key kid s = (r6, t) \<Longrightarrow> ffi_step X K R P s (Deletes kid) t"
| migrate: "ffi_migrate_key env kid target auth s = (r7, t) \<Longrightarrow> ffi_step X K R P s Migrates t"
| public_key: "ffi_export_public_key K kid s = (r8, t) \<Longrightarrow> ffi_step X K R P s OtherCall t"
| register_context: "ffi_register_lifecycle env rr auth progress s = (r9, t) \<Longrightarrow> ffi_step X K R P s OtherCall t"
| activate_context: "ffi_activate_lifecycle env cr auth progress s = (r9, t) \<Longrightarrow> ffi_step X K R P s OtherCall t"
| rotate_context: "ffi_rotate_lifecycle env cr auth progress s = (r9, t) \<Longrightarrow> ffi_step X K R P s OtherCall t"
| destroy_context: "ffi_destroy_lifecycle env dr auth progress s = (r10, t) \<Longrightarrow> ffi_step X K R P s OtherCall t"
| describe: "ffi_describe_authenticator X c2 pid s = (r11, t) \<Longrightarrow> ffi_step X K R P s OtherCall t"
| softkey: "register_softkey_plugin X s = (r6, t) \<Longrightarrow> ffi_step X K R P s OtherCall t"
| import_softkey: "import_softkey_container X K b s = (r6, t) \<Longrightarrow> ffi_step X K R P s OtherCall t"
| r2ps: "register_r2ps_plugin X R P config http s = (r6, t) \<Longrightarrow> ffi_step X K R P s OtherCall t"
| fido: "register_fido2_plugin X f s = (r6, t) \<Longrightarrow> ffi_step X K R P s OtherCall t"
| fido_state: "register_fido2_plugin_with_state X K f b s = (r6, t) \<Longrightarrow> ffi_step X K R P s OtherCall t"
| android: "register_android_keystore_plugin X K d s = (r6, t) \<Longrightarrow> ffi_step X K R P s OtherCall t"
| android_state: "register_android_keystore_plugin_with_state X K d b s = (r6, t) \<Longrightarrow> ffi_step X K R P s OtherCall t"
| apple: "register_apple_secure_enclave_plugin X a s = (r6, t) \<Longrightarrow> ffi_step X K R P s OtherCall t"
| apple_state: "register_apple_secure_enclave_plugin_with_state X K a b s = (r6, t) \<Longrightarrow> ffi_step X K R P s OtherCall t"

inductive ffi_reachable ::
  "externals \<Rightarrow> ffi_codec \<Rightarrow> ('g, 'a) r2ps_codec \<Rightarrow> ('c, 'w, 'g, 'a) r2ps_package
   \<Rightarrow> ('c plugin_state, 'w) manager \<times> 'w \<Rightarrow> bool"
  for X K R P where
  start: "ffi_reachable X K R P (ffi_new config, w)"
| step: "\<lbrakk>ffi_reachable X K R P s; ffi_step X K R P s call t\<rbrakk> \<Longrightarrow> ffi_reachable X K R P t"

subsection \<open>No call breaks the session\<close>

lemma session_ffi_call: "moves session_kept m \<Longrightarrow> moves session_kept (ffi_call f m)"
  unfolding ffi_call_def by (intro session.moves_emap_err session.moves_emap)

lemmas session_operations = session_generate session_for_level session_delete_key session_uses session_list_keys
  session_migrate session_lifecycle

lemma session_methods:
  "moves session_kept (ffi_generate_key K env alg auth progress)"
  "moves session_kept (ffi_generate_key_with_plugin K env pid alg auth progress)"
  "moves session_kept (ffi_generate_key_for_level K env required candidates alg auth progress)"
  "moves session_kept (ffi_sign env kid data alg auth progress)"
  "moves session_kept ffi_list_keys" "moves session_kept (ffi_key_attestation kid)"
  "moves session_kept (ffi_delete_key kid)" "moves session_kept (ffi_migrate_key env kid target auth)"
  "moves session_kept (ffi_export_public_key K kid)"
  "moves session_kept (ffi_register_lifecycle env rr auth progress)"
  "moves session_kept (ffi_activate_lifecycle env cr auth progress)"
  "moves session_kept (ffi_rotate_lifecycle env cr auth progress)"
  "moves session_kept (ffi_destroy_lifecycle env dr auth progress)"
  unfolding ffi_generate_key_def ffi_generate_key_with_plugin_def ffi_generate_key_for_level_def
    ffi_sign_def ffi_list_keys_def ffi_key_attestation_def ffi_delete_key_def ffi_migrate_key_def
    ffi_export_public_key_def ffi_register_lifecycle_def ffi_activate_lifecycle_def ffi_rotate_lifecycle_def
    ffi_destroy_lifecycle_def
  by (rule session_ffi_call, rule session_operations)+

lemma session_ffi_sign_with_factors:
  "moves session_kept (ffi_sign_with_factors env kid data alg options auth progress)"
  unfolding ffi_sign_with_factors_def
  by (intro session.moves_ebind session.moves_still session_ffi_call session_operations)

lemma session_ffi_describe: "moves session_kept (ffi_describe_authenticator X t pid)"
proof -
  have "moves session_kept (on_snd m)" for m
    by (simp add: moves_def on_snd_def session_kept_def split: prod.split)
  then have "moves session_kept (ffi_call authenticator_info_to_ffi (on_snd (describe_authenticator X t)))"
    by (rule session_ffi_call)
  then show ?thesis
    by (auto simp: moves_def ffi_describe_authenticator_def session.stay split: sum.split)
qed

lemma crate_states_at_home [simp]:
  "state_home (SoftkeyState a) = ''softkey''" "state_home (FidoState b) = ''fido2''"
  "state_home (AppleState c) = ''apple-se''" "state_home (AndroidState d) = PLUGIN_ID"
  "state_home (RemoteState e) = ''r2ps''"
  by (simp_all add: state_home_def)

lemma remote_id: "po_id (lift_ops i p (r2ps_ops X R config client)) = ''r2ps''"
  by (simp add: r2ps_ops_def)

lemma session_registrations:
  "moves session_kept (register_softkey_plugin X)" "moves session_kept (import_softkey_container X K b)"
  "moves session_kept (register_r2ps_plugin X R P config http)" "moves session_kept (register_fido2_plugin X f)"
  "moves session_kept (register_android_keystore_plugin X K d)"
  "moves session_kept (register_apple_secure_enclave_plugin X a)"
  unfolding register_softkey_plugin_def import_softkey_container_def register_r2ps_plugin_def
    register_fido2_plugin_def register_android_keystore_plugin_def register_apple_secure_enclave_plugin_def
    r2ps_plugin_def Let_def
  by (auto intro!: session.moves_ebind session.moves_still session_registering crate_plugins_at_home
      simp: remote_id split: prod.split)

lemma session_restorations:
  "moves session_kept (register_fido2_plugin_with_state X K f b)"
  "moves session_kept (register_android_keystore_plugin_with_state X K d b)"
  "moves session_kept (register_apple_secure_enclave_plugin_with_state X K a b)"
  unfolding register_fido2_plugin_with_state_def register_android_keystore_plugin_with_state_def
    register_apple_secure_enclave_plugin_with_state_def binding_def
  by (rule session_restoring; simp add: crate_plugins_at_home)+

lemma session_challenge:
  fixes X :: externals
  shows "moves session_kept (generate_android_keystore_key_with_challenge X K env c challenge alg progress ::
    ('c plugin_state, 'w, ffi_generated_key) ffi_eff)"
proof -
  let ?run = "\<lambda>_ :: ('c plugin_state, 'w) plugin_ops. lift_eff AndroidState the_android
    (generate_key_with_challenge X c (algorithm_from_ffi alg) challenge (progress_bridge progress env))"
  have android: "the_android s = Some a \<Longrightarrow> state_home s = PLUGIN_ID" for s :: "'c plugin_state" and a
    by (cases s) simp_all
  have gen: "moves session_kept (on_plugin PLUGIN_ID ?run)"
    by (rule session_on_plugin, rule lift_eff_same_home [where h = PLUGIN_ID]) (erule android, simp)
  have "moves session_kept (ebind (ffi_call id (on_plugin PLUGIN_ID ?run)) (\<lambda>result.
      ebind (binding PLUGIN_ID [gk_kid result]) (\<lambda>_. ereturn (generated_key_to_ffi (fx_json_text K) result))))"
  proof (rule session.moves_ebind_after [where Q = "\<lambda>_ t. registered (fst t) PLUGIN_ID"])
    show "registered (fst t) PLUGIN_ID" if "ffi_call id (on_plugin PLUGIN_ID ?run) s = (Inr x, t)" for s x t
      using that on_plugin_registered [of PLUGIN_ID ?run s]
      by (cases "on_plugin PLUGIN_ID ?run s") (auto simp: ffi_call_eq rbind_eq_Inr)
    show "session_kept t (snd (ebind (binding PLUGIN_ID [gk_kid x]) (\<lambda>_.
        ereturn (generated_key_to_ffi (fx_json_text K) x)) t))" if "registered (fst t) PLUGIN_ID" for x t
      using session_binding_keys [OF that, of "[gk_kid x]"]
      by (simp add: binding_def ebind_apply emap_err_apply del: bind_keys.simps split: sum.split)
  qed (rule session_ffi_call [OF gen])
  then show ?thesis
    by (auto simp: moves_def generate_android_keystore_key_with_challenge_def session.stay split: sum.split)
qed

lemma session_step: "ffi_step X K R P s call t \<Longrightarrow> session_kept s t"
  by (erule ffi_step.cases; (hypsubst)?; erule session_methods [THEN movesD] session_challenge [THEN movesD]
    session_ffi_sign_with_factors [THEN movesD] session_ffi_describe [THEN movesD]
    session_registrations [THEN movesD] session_restorations [THEN movesD])

text \<open>The downcast of the plugin registered under the id of its type.\<close>

lemma typed_downcast:
  assumes "session_ok m" and "\<And>st. state_home st = pid \<Longrightarrow> take_out st \<noteq> None"
  shows "downcast pid take_out no_plugin_error e m \<noteq> Inl (FfiPlugin msg)"
  using assms(2) session_okD [OF assms(1)]
  by (auto simp: downcast_def no_plugin_error_def split: option.splits)

lemma home_states:
  "state_home st = ''softkey'' \<Longrightarrow> the_softkey st \<noteq> None" "state_home st = ''fido2'' \<Longrightarrow> the_fido st \<noteq> None"
  "state_home st = ''apple-se'' \<Longrightarrow> the_apple st \<noteq> None" "state_home st = PLUGIN_ID \<Longrightarrow> the_android st \<noteq> None"
  by (cases st; simp add: PLUGIN_ID_def)+

lemma typed_downcasts:
  assumes "session_ok m"
  shows "downcast ''softkey'' the_softkey no_plugin_error e m \<noteq> Inl (FfiPlugin msg)"
    and "downcast ''fido2'' the_fido no_plugin_error e m \<noteq> Inl (FfiPlugin msg)"
    and "downcast ''apple-se'' the_apple no_plugin_error e m \<noteq> Inl (FfiPlugin msg)"
    and "downcast PLUGIN_ID the_android no_plugin_error e m \<noteq> Inl (FfiPlugin msg)"
  by (rule typed_downcast [OF assms], erule home_states)+

lemma session_start: "session_ok (ffi_new config)"
  by (simp add: session_ok_def ffi_new_def manager_new_def default_config_def hm_get_def)

lemma reachable_session_ok: "ffi_reachable X K R P s \<Longrightarrow> session_ok (fst s)"
  by (induction rule: ffi_reachable.induct) (auto simp: session_start session_kept_def dest: session_step)

subsection \<open>Which calls leave a route alone\<close>

lemma route_ffi_call: "moves (route_kept k q) m \<Longrightarrow> moves (route_kept k q) (ffi_call f m)"
  unfolding ffi_call_def by (intro route.moves_emap_err route.moves_emap)

lemma route_methods:
  "moves (route_kept k q) (ffi_generate_key K env alg auth progress)"
  "moves (route_kept k q) (ffi_generate_key_with_plugin K env pid alg auth progress)"
  "moves (route_kept k q) (ffi_sign env kid data alg auth progress)"
  "moves (route_kept k q) ffi_list_keys" "moves (route_kept k q) (ffi_key_attestation kid)"
  "moves (route_kept k q) (ffi_export_public_key K kid)"
  "moves (route_kept k q) (ffi_register_lifecycle env rr auth progress)"
  "moves (route_kept k q) (ffi_activate_lifecycle env cr auth progress)"
  "moves (route_kept k q) (ffi_rotate_lifecycle env cr auth progress)"
  "moves (route_kept k q) (ffi_destroy_lifecycle env dr auth progress)"
  unfolding ffi_generate_key_def ffi_generate_key_with_plugin_def ffi_sign_def ffi_list_keys_def
    ffi_key_attestation_def ffi_export_public_key_def ffi_register_lifecycle_def
    ffi_activate_lifecycle_def ffi_rotate_lifecycle_def ffi_destroy_lifecycle_def
  by (rule route_ffi_call, rule route_generate route_uses route_list_keys)+

lemma route_ffi_delete: "kid \<noteq> k \<Longrightarrow> moves (route_kept k q) (ffi_delete_key kid)"
  unfolding ffi_delete_key_def by (intro route_ffi_call route_delete_key)

lemma route_ffi_sign_with_factors:
  "moves (route_kept k q) (ffi_sign_with_factors env kid data alg options auth progress)"
  unfolding ffi_sign_with_factors_def
  by (intro route.moves_ebind route.moves_still route_ffi_call route_uses)

lemma route_ffi_describe: "moves (route_kept k q) (ffi_describe_authenticator X t pid)"
  by (auto simp: moves_def ffi_describe_authenticator_def route_kept_def ffi_call_eq on_snd_def
      split: sum.split prod.split)

lemma route_binding: "moves (route_kept k q) (binding pid kids)"
  unfolding binding_def by (intro route.moves_emap_err route_binding_keys)

lemma route_registrations:
  "moves (route_kept k q) (register_softkey_plugin X)" "moves (route_kept k q) (import_softkey_container X K b)"
  "moves (route_kept k q) (register_r2ps_plugin X R P config http)" "moves (route_kept k q) (register_fido2_plugin X f)"
  "moves (route_kept k q) (register_android_keystore_plugin X K d)"
  "moves (route_kept k q) (register_apple_secure_enclave_plugin X a)"
  "moves (route_kept k q) (register_fido2_plugin_with_state X K f b)"
  "moves (route_kept k q) (register_android_keystore_plugin_with_state X K d b)"
  "moves (route_kept k q) (register_apple_secure_enclave_plugin_with_state X K a b)"
  unfolding register_softkey_plugin_def import_softkey_container_def register_r2ps_plugin_def
    register_fido2_plugin_def register_android_keystore_plugin_def register_apple_secure_enclave_plugin_def
    register_fido2_plugin_with_state_def register_android_keystore_plugin_with_state_def
    register_apple_secure_enclave_plugin_with_state_def Let_def
  by (auto intro!: route.moves_ebind route.moves_still route_registering route_binding split: prod.split)

lemma route_challenge:
  fixes X :: externals
  shows "moves (route_kept k q) (generate_android_keystore_key_with_challenge X K env c challenge alg progress ::
    ('c plugin_state, 'w, ffi_generated_key) ffi_eff)"
proof -
  let ?run = "\<lambda>_ :: ('c plugin_state, 'w) plugin_ops. lift_eff AndroidState the_android
    (generate_key_with_challenge X c (algorithm_from_ffi alg) challenge (progress_bridge progress env))"
  have "moves (route_kept k q) (ebind (ffi_call id (on_plugin PLUGIN_ID ?run)) (\<lambda>result.
      ebind (binding PLUGIN_ID [gk_kid result]) (\<lambda>_. ereturn (generated_key_to_ffi (fx_json_text K) result))))"
    by (intro route.moves_ebind route_ffi_call route_on_plugin route_binding route.moves_still)
  then show ?thesis
    by (auto simp: moves_def generate_android_keystore_key_with_challenge_def route.stay split: sum.split)
qed

lemma route_step:
  assumes "ffi_step X K R P s call t" and "call \<notin> {Deletes k, Migrates, GeneratesForLevel}"
  shows "route_kept k q s t"
  using assms(1)
proof cases
  case (delete kid r6)
  then show ?thesis using assms(2) route_ffi_delete [of kid k q] by (auto dest: movesD)
qed (use assms(2) in \<open>auto dest: route_methods [THEN movesD] route_challenge [THEN movesD]
       route_ffi_sign_with_factors [THEN movesD] route_ffi_describe [THEN movesD]
       route_registrations [THEN movesD]\<close>)

subsection \<open>Properties\<close>

text \<open>C11: the map of plugins stays typed and no binding dangles. In every state a host can bring the manager
  to, by any calls with any arguments and callbacks, whatever failed or panicked: a bound key is routed
  to its plugin for every operation and never ends in \<open>NoPlugin\<close>; and the downcasts of the export methods
  cannot fail, so what they return is a missing plugin, an error of the serialiser, or the exported store.\<close>

theorem reachable_managers_are_typed:
  assumes "ffi_reachable X K R P s"
  shows "(\<forall>kid pid op. bound (fst s) kid = Some pid \<longrightarrow> resolve_for_key (fst s) kid op = Inr pid) \<and>
    (\<forall>msg. export_softkey_container K (fst s) \<noteq> Inl (FfiPlugin msg) \<and>
       export_fido2_state K (fst s) \<noteq> Inl (FfiPlugin msg) \<and>
       export_android_keystore_state K (fst s) \<noteq> Inl (FfiPlugin msg) \<and>
       export_apple_secure_enclave_state K (fst s) \<noteq> Inl (FfiPlugin msg))"
proof -
  note ok = reachable_session_ok [OF assms]
  have "resolve_for_key (fst s) kid op = Inr pid" if "bound (fst s) kid = Some pid" for kid pid op
    using ok that by (auto simp: session_ok_def resolve_bound get_plugin_eq)
  moreover have "export_softkey_container K (fst s) \<noteq> Inl (FfiPlugin msg)"
    "export_fido2_state K (fst s) \<noteq> Inl (FfiPlugin msg)"
    "export_android_keystore_state K (fst s) \<noteq> Inl (FfiPlugin msg)"
    "export_apple_secure_enclave_state K (fst s) \<noteq> Inl (FfiPlugin msg)" for msg
    using typed_downcasts [OF ok]
    by (auto simp: export_softkey_container_def export_fido2_state_def export_android_keystore_state_def
        export_apple_secure_enclave_state_def rbind_eq_Inl map_err_eq_Inl serialization_error_def)
  ultimately show ?thesis by blast
qed

lemma nothing_bound: "bound (ffi_new config) k = None"
  by (simp add: ffi_new_def manager_new_def default_config_def hm_get_def)

abbreviation narrow_codec :: ffi_codec where
  "narrow_codec \<equiv> one_codec (exported_of softkey_new) (fido_exported narrow_store)"

lemma restored_session:
  fixes R :: "(unit, unit) r2ps_codec" and P :: "(unit, nat, unit, unit) r2ps_package"
  shows "\<exists>s. ffi_reachable ref_externals narrow_codec R P s \<and> bound (fst s) ''k'' = Some ''fido2''"
proof -
  let ?K = narrow_codec
  let ?s0 = "(ffi_new \<lparr>fcfg_default_plugin = ''softkey''\<rparr> :: (unit plugin_state, nat) manager, 0)"
  obtain r t where run: "register_fido2_plugin_with_state ref_externals ?K ref_ffi_transport [1] ?s0 = (r, t)"
    by (rule that [OF surjective_pairing])
  have "ffi_reachable ref_externals ?K R P t"
    by (rule ffi_reachable.step [OF ffi_reachable.start ffi_step.fido_state [OF run]])
  moreover obtain q where "fido_from_state (fx_fido_parse ?K) [1] = Inr q" "fido_key_ids q = [''k'']"
    by (simp add: fido_from_state_def one_codec_def fido_exported_def narrow_store_def narrow_key_def
        wide_key_def hm_values_def P256_COORDINATE_LEN_def fido_key_ids_def hm_first_of_records_def
        hm_or_insert_def hm_contains_def hm_keys_def hm_get_def hm_insert_def)
  then have "bound (fst t) ''k'' = Some ''fido2''"
    using run
    by (auto simp: nothing_bound register_fido2_plugin_with_state_def ebind_apply registering_def binding_apply)
  ultimately show ?thesis by blast
qed

theorem reachable_managers_are_typed_witness:
  "\<forall>(R :: (unit, unit) r2ps_codec) (P :: (unit, nat, unit, unit) r2ps_package).
     \<exists>s. ffi_reachable ref_externals narrow_codec R P s \<and> resolve_for_key (fst s) ''k'' ''sign'' = Inr ''fido2''"
proof (intro allI)
  fix R :: "(unit, unit) r2ps_codec" and P :: "(unit, nat, unit, unit) r2ps_package"
  obtain s where s: "ffi_reachable ref_externals narrow_codec R P s" "bound (fst s) ''k'' = Some ''fido2''"
    using restored_session by blast
  then show "\<exists>s. ffi_reachable ref_externals narrow_codec R P s \<and> resolve_for_key (fst s) ''k'' ''sign'' = Inr ''fido2''"
    using reachable_managers_are_typed [OF s(1)] by blast
qed

text \<open>A sequence of calls.\<close>

inductive ffi_run ::
  "externals \<Rightarrow> ffi_codec \<Rightarrow> ('g, 'a) r2ps_codec \<Rightarrow> ('c, 'w, 'g, 'a) r2ps_package
   \<Rightarrow> ('c plugin_state, 'w) manager \<times> 'w \<Rightarrow> host_call list \<Rightarrow> ('c plugin_state, 'w) manager \<times> 'w \<Rightarrow> bool"
  for X K R P where
  finished: "ffi_run X K R P s [] s"
| calls: "\<lbrakk>ffi_step X K R P s call t; ffi_run X K R P t calls u\<rbrakk> \<Longrightarrow> ffi_run X K R P s (call # calls) u"

lemma route_run:
  assumes "ffi_run X K R P s calls t" and "set calls \<inter> {Deletes kid, Migrates, GeneratesForLevel} = {}"
  shows "route_kept kid pid s t"
  using assms
proof (induction rule: ffi_run.induct)
  case (finished s)
  show ?case by (rule route.stay)
next
  case (calls s call t calls u)
  have "route_kept kid pid s t" by (rule route_step [OF calls.hyps(1)]) (use calls.prems in auto)
  moreover have "route_kept kid pid t u" using calls by simp
  ultimately show ?case by (rule route.trans)
qed

lemma reachable_run: "\<lbrakk>ffi_run X K R P s calls t; ffi_reachable X K R P s\<rbrakk> \<Longrightarrow> ffi_reachable X K R P t"
  by (induction rule: ffi_run.induct) (auto intro: ffi_reachable.step)

text \<open>C21: a route is stable. Once a key is bound, every operation on it reaches its plugin after any
  sequence of calls of the host, whatever they register, import, restore, generate or destroy and
  however they fail, unless one of them deletes that key, migrates a key, or generates for a level
  (which deletes the keys it rejects).\<close>

theorem routes_are_stable:
  assumes "ffi_reachable X K R P s" and "bound (fst s) kid = Some pid" and "ffi_run X K R P s calls t"
    and "set calls \<inter> {Deletes kid, Migrates, GeneratesForLevel} = {}"
  shows "bound (fst t) kid = Some pid \<and> resolve_for_key (fst t) kid op = Inr pid"
proof -
  have b: "bound (fst t) kid = Some pid"
    using route_run [OF assms(3,4)] assms(2) by (simp add: route_kept_def)
  moreover have "session_ok (fst t)"
    using reachable_session_ok [OF reachable_run [OF assms(3,1)]] .
  ultimately show ?thesis by (auto simp: session_ok_def resolve_bound get_plugin_eq)
qed

theorem routes_are_stable_witness:
  "\<forall>(R :: (unit, unit) r2ps_codec) (P :: (unit, nat, unit, unit) r2ps_package).
     \<exists>s t. ffi_run ref_externals narrow_codec R P s [OtherCall, Deletes ''j''] t \<and>
       resolve_for_key (fst t) ''k'' ''sign'' = Inr ''fido2''"
proof (intro allI)
  fix R :: "(unit, unit) r2ps_codec" and P :: "(unit, nat, unit, unit) r2ps_package"
  obtain s where s: "ffi_reachable ref_externals narrow_codec R P s" "bound (fst s) ''k'' = Some ''fido2''"
    using restored_session by blast
  obtain r u where imp: "import_softkey_container ref_externals narrow_codec [1] s = (r, u)"
    by (rule that [OF surjective_pairing])
  obtain q t where del: "ffi_delete_key ''j'' u = (q, t)" by (rule that [OF surjective_pairing])
  have run: "ffi_run ref_externals narrow_codec R P s [OtherCall, Deletes ''j''] t"
    by (rule ffi_run.calls [OF ffi_step.import_softkey [OF imp] ffi_run.calls [OF ffi_step.delete [OF del]
          ffi_run.finished]])
  show "\<exists>s t. ffi_run ref_externals narrow_codec R P s [OtherCall, Deletes ''j''] t \<and>
      resolve_for_key (fst t) ''k'' ''sign'' = Inr ''fido2''"
    using routes_are_stable [OF s run, of "''sign''"] run
    by (intro exI [of _ s] exI [of _ t]) simp
qed

end
