(* ===== verification/Host_Threads.thy ===== *)
theory Host_Threads
  imports Host_Session "HOL-Library.Multiset"
begin

section \<open>Calls of a native host from several threads\<close>

text \<open>
  \<open>FfiWscdManager\<close> (src/ffi.rs) is shared by the threads of a native host. Every method takes
  \<open>Mutex<InternalManager>\<close> through \<open>lock_inner\<close> and holds it to its end, host callbacks included. Here
  the threads, the mutex and its poisoning are a transition system over any sequential object \<open>seq\<close>: a
  call works on the state it saw when it took the lock and writes the state back when it ends, so that
  two calls inside the lock at once would lose an update.

  The locale \<open>sequential_object\<close> states what the object owes the threads: a call that runs comes to an
  end. It is interpreted on \<open>ffi_step\<close>, the calls of a native host.

  A method whose arguments do not convert returns before it locks; such a call changes nothing and is not
  a step here.
\<close>

subsection \<open>The mutex\<close>

record mutex =
  mx_owner :: "nat option"
  mx_poisoned :: bool

text \<open>
  \<open>Mutex::lock\<close>: \<open>None\<close> is a thread that blocks, \<open>Inl\<close> the guard inside a \<open>PoisonError\<close>. A thread that already
  holds the lock blocks too, since the standard library's mutex is not reentrant. \<open>lock_inner\<close> takes the
  guard out of the error.
\<close>

definition mutex_lock :: "nat \<Rightarrow> mutex \<Rightarrow> (mutex + mutex) option" where
  "mutex_lock i m =
     (if mx_owner m = None
      then Some (if mx_poisoned m then Inl (m\<lparr>mx_owner := Some i\<rparr>) else Inr (m\<lparr>mx_owner := Some i\<rparr>))
      else None)"

definition lock_inner :: "nat \<Rightarrow> mutex \<Rightarrow> mutex option" where
  "lock_inner i m =
     Option.bind (mutex_lock i m) (\<lambda>r. case r of Inr guard \<Rightarrow> Some guard | Inl guard \<Rightarrow> Some guard)"

text \<open>Dropping the guard, which poisons the mutex when the thread is panicking.\<close>

definition drop_guard :: "bool \<Rightarrow> mutex \<Rightarrow> mutex" where
  "drop_guard panicking m = m\<lparr>mx_owner := None, mx_poisoned := mx_poisoned m \<or> panicking\<rparr>"

lemma lock_inner_eq: "lock_inner i m = Some n \<longleftrightarrow> mx_owner m = None \<and> n = m\<lparr>mx_owner := Some i\<rparr>"
  by (auto simp: lock_inner_def mutex_lock_def)

subsection \<open>Threads\<close>

text \<open>
  A call waits for the lock, or holds it and works on the state it found. \<open>ht_calls\<close> lists the calls in
  flight with their threads, the newest first: the first entry of a thread is the call it is executing.
\<close>

datatype ('call, 's) in_flight = Waits 'call | Holds 'call 's

record ('call, 's) host_threads =
  ht_mutex :: mutex
  ht_calls :: "(nat \<times> ('call, 's) in_flight) list"
  ht_state :: 's

datatype 'call thread_event = Calls nat 'call | Reenters nat 'call | Locks nat | Ends nat 'call

text \<open>
  \<open>reenters\<close> is a callback that calls the manager again while the thread is inside one of its methods.
  \<open>ends\<close> covers a call that returns and, with \<open>panicking\<close>, one that a panic ends.
\<close>

inductive threads_step ::
  "('s \<Rightarrow> 'call \<Rightarrow> 's \<Rightarrow> bool) \<Rightarrow> ('call, 's) host_threads \<Rightarrow> 'call thread_event
   \<Rightarrow> ('call, 's) host_threads \<Rightarrow> bool"
  for seq :: "'s \<Rightarrow> 'call \<Rightarrow> 's \<Rightarrow> bool" where
  calls: "i \<notin> fst ` set (ht_calls s)
    \<Longrightarrow> threads_step seq s (Calls i c) (s\<lparr>ht_calls := (i, Waits c) # ht_calls s\<rparr>)"
| reenters: "\<lbrakk>ht_calls s = us @ (i, Holds b st) # vs; i \<notin> fst ` set us\<rbrakk>
    \<Longrightarrow> threads_step seq s (Reenters i c) (s\<lparr>ht_calls := (i, Waits c) # ht_calls s\<rparr>)"
| locks: "\<lbrakk>ht_calls s = us @ (i, Waits c) # vs; i \<notin> fst ` set us; lock_inner i (ht_mutex s) = Some m\<rbrakk>
    \<Longrightarrow> threads_step seq s (Locks i)
          (s\<lparr>ht_mutex := m, ht_calls := us @ (i, Holds c (ht_state s)) # vs\<rparr>)"
| ends: "\<lbrakk>ht_calls s = us @ (i, Holds c st) # vs; i \<notin> fst ` set us; seq st c t\<rbrakk>
    \<Longrightarrow> threads_step seq s (Ends i c)
          (s\<lparr>ht_mutex := drop_guard panicking (ht_mutex s), ht_calls := us @ vs, ht_state := t\<rparr>)"

inductive threads_run ::
  "('s \<Rightarrow> 'call \<Rightarrow> 's \<Rightarrow> bool) \<Rightarrow> ('call, 's) host_threads \<Rightarrow> 'call thread_event list
   \<Rightarrow> ('call, 's) host_threads \<Rightarrow> bool"
  for seq where
  rest: "threads_run seq s [] s"
| move: "\<lbrakk>threads_run seq s es t; threads_step seq t e u\<rbrakk> \<Longrightarrow> threads_run seq s (es @ [e]) u"

inductive_cases threads_runE: "threads_run seq s es t"
inductive_simps threads_run_Nil: "threads_run seq s [] t"

definition threads_start :: "'s \<Rightarrow> ('call, 's) host_threads" where
  "threads_start s = \<lparr>ht_mutex = \<lparr>mx_owner = None, mx_poisoned = False\<rparr>, ht_calls = [], ht_state = s\<rparr>"

text \<open>The calls a run begins, those it ends, and those still in flight.\<close>

fun begun :: "'call thread_event list \<Rightarrow> 'call list" where
  "begun [] = []"
| "begun (Calls i c # es) = c # begun es"
| "begun (Reenters i c # es) = c # begun es"
| "begun (_ # es) = begun es"

fun ended :: "'call thread_event list \<Rightarrow> 'call list" where
  "ended [] = []"
| "ended (Ends i c # es) = c # ended es"
| "ended (_ # es) = ended es"

fun call_of :: "('call, 's) in_flight \<Rightarrow> 'call" where
  "call_of (Waits c) = c"
| "call_of (Holds c st) = c"

definition pending :: "('call, 's) host_threads \<Rightarrow> 'call list" where
  "pending s = map (call_of \<circ> snd) (ht_calls s)"

lemma begun_append [simp]: "begun (es @ fs) = begun es @ begun fs"
  by (induction es rule: begun.induct) simp_all

lemma ended_append [simp]: "ended (es @ fs) = ended es @ ended fs"
  by (induction es rule: ended.induct) simp_all

subsection \<open>Who holds the lock\<close>

fun holders :: "(nat \<times> ('call, 's) in_flight) list \<Rightarrow> (nat \<times> 's) list" where
  "holders [] = []"
| "holders ((i, Waits c) # cs) = holders cs"
| "holders ((i, Holds c st) # cs) = (i, st) # holders cs"

lemma holders_append [simp]: "holders (cs @ ds) = holders cs @ holders ds"
  by (induction cs rule: holders.induct) simp_all

text \<open>The call inside the lock is the owner's, and the state it works on is the current one.\<close>

definition lock_ok :: "('call, 's) host_threads \<Rightarrow> bool" where
  "lock_ok s \<longleftrightarrow>
     holders (ht_calls s) = (case mx_owner (ht_mutex s) of None \<Rightarrow> [] | Some i \<Rightarrow> [(i, ht_state s)])"

lemma lock_ok_start: "lock_ok (threads_start s)"
  by (simp add: lock_ok_def threads_start_def)

lemma holder_is_owner:
  assumes "lock_ok s" and "ht_calls s = us @ (i, Holds c st) # vs"
  shows "mx_owner (ht_mutex s) = Some i" "st = ht_state s" "holders us = []" "holders vs = []"
  using assms by (auto simp: lock_ok_def append_eq_Cons_conv split: option.splits)

lemma lock_ok_step: "\<lbrakk>threads_step seq s e t; lock_ok s\<rbrakk> \<Longrightarrow> lock_ok t"
proof (induction rule: threads_step.induct)
  case (locks s us i c vs m)
  then show ?case by (simp add: lock_ok_def lock_inner_eq)
next
  case (ends s us i c st vs t panicking)
  then show ?case using holder_is_owner [OF ends.prems ends.hyps(1)]
    by (simp add: lock_ok_def drop_guard_def)
qed (simp_all add: lock_ok_def split: option.splits)

lemma lock_ok_run: "\<lbrakk>threads_run seq s es t; lock_ok s\<rbrakk> \<Longrightarrow> lock_ok t"
  by (induction rule: threads_run.induct) (auto intro: lock_ok_step)

lemma threads_run_append:
  "\<lbrakk>threads_run seq s es t; threads_run seq t fs u\<rbrakk> \<Longrightarrow> threads_run seq s (es @ fs) u"
  by (rotate_tac, induction rule: threads_run.induct)
    (auto intro: threads_run.move simp flip: append_assoc)

text \<open>No call is lost and none runs twice.\<close>

lemma calls_step:
  "threads_step seq s e t \<Longrightarrow> mset (begun [e]) + mset (pending s) = mset (ended [e]) + mset (pending t)"
  by (induction rule: threads_step.induct) (simp_all add: pending_def)

lemma calls_run:
  "threads_run seq s es t \<Longrightarrow> mset (begun es) + mset (pending s) = mset (ended es) + mset (pending t)"
proof (induction rule: threads_run.induct)
  case (move s es t e u)
  then show ?case using calls_step [OF move.hyps(2)] by (simp add: ac_simps) (metis union_assoc union_commute)
qed simp

subsection \<open>One call after another\<close>

inductive sequential_run :: "('s \<Rightarrow> 'call \<Rightarrow> 's \<Rightarrow> bool) \<Rightarrow> 's \<Rightarrow> 'call list \<Rightarrow> 's \<Rightarrow> bool"
  for seq where
  done_all: "sequential_run seq s [] s"
| next_call: "\<lbrakk>sequential_run seq s cs t; seq t c u\<rbrakk> \<Longrightarrow> sequential_run seq s (cs @ [c]) u"

text \<open>The calls as they end are a sequential run: nobody changed the state a call was working on.\<close>

lemma threads_run_is_sequential:
  assumes "threads_run seq s es t" and "lock_ok s"
  shows "sequential_run seq (ht_state s) (ended es) (ht_state t)"
  using assms
proof (induction rule: threads_run.induct)
  case (rest s)
  show ?case by (simp add: sequential_run.done_all)
next
  case (move s es t e u)
  have t: "lock_ok t" by (rule lock_ok_run [OF move.hyps(1) move.prems])
  show ?case
    using move.hyps(2)
  proof cases
    case (ends us i c st vs v panicking)
    have "st = ht_state t" by (rule holder_is_owner(2) [OF t ends(3)])
    then show ?thesis using ends move.IH [OF move.prems] by (simp add: sequential_run.next_call)
  qed (use move.IH [OF move.prems] in simp_all)
qed

subsection \<open>Serving the calls in flight\<close>

fun serves :: "'call thread_event \<Rightarrow> bool" where
  "serves (Locks i) = True"
| "serves (Ends i c) = True"
| "serves _ = False"

fun reenters_event :: "'call thread_event \<Rightarrow> bool" where
  "reenters_event (Reenters i c) = True"
| "reenters_event _ = False"

text \<open>What is left to do: a waiting call has to lock and to end, a running one to end.\<close>

fun call_work :: "('call, 's) in_flight \<Rightarrow> nat" where
  "call_work (Waits c) = 2"
| "call_work (Holds c st) = 1"

definition work :: "('call, 's) host_threads \<Rightarrow> nat" where
  "work s = sum_list (map (call_work \<circ> snd) (ht_calls s))"

lemma serving_step: "\<lbrakk>threads_step seq s e t; serves e\<rbrakk> \<Longrightarrow> work s = Suc (work t)"
  by (induction rule: threads_step.induct) (simp_all add: work_def)

lemma serving_run:
  "\<lbrakk>threads_run seq s es t; list_all serves es\<rbrakk> \<Longrightarrow> work s = length es + work t"
  by (induction rule: threads_run.induct) (auto dest: serving_step)

lemma work_bound: "work s \<le> 2 * length (ht_calls s)"
proof -
  have f: "call_work f \<le> 2" for f :: "('a, 'b) in_flight" by (cases f) simp_all
  have "sum_list (map (call_work \<circ> snd) cs) \<le> 2 * length cs" for cs :: "(nat \<times> ('a, 'b) in_flight) list"
  proof (induction cs)
    case (Cons a cs)
    then show ?case using f [of "snd a"] by simp
  qed simp
  then show ?thesis by (simp add: work_def)
qed

text \<open>Without reentry a thread has one call in flight.\<close>

definition one_call_each :: "('call, 's) host_threads \<Rightarrow> bool" where
  "one_call_each s \<longleftrightarrow> distinct (map fst (ht_calls s))"

lemma one_call_step:
  "\<lbrakk>threads_step seq s e t; \<not> reenters_event e; one_call_each s\<rbrakk> \<Longrightarrow> one_call_each t"
  by (induction rule: threads_step.induct) (auto simp: one_call_each_def)

lemma one_call_run:
  "\<lbrakk>threads_run seq s es t; \<not> list_ex reenters_event es; one_call_each s\<rbrakk> \<Longrightarrow> one_call_each t"
  by (induction rule: threads_run.induct) (auto intro: one_call_step)

lemma holder_in_flight: "(i, st) \<in> set (holders cs) \<Longrightarrow> \<exists>c. (i, Holds c st) \<in> set cs"
  by (induction cs rule: holders.induct) auto

locale sequential_object =
  fixes seq :: "'s \<Rightarrow> 'call \<Rightarrow> 's \<Rightarrow> bool"
  assumes call_ends: "\<exists>t. seq s c t"
begin

text \<open>While calls are in flight, and no thread is inside itself, one of them can go on.\<close>

lemma progress:
  assumes "lock_ok s" and "one_call_each s" and "ht_calls s \<noteq> []"
  shows "\<exists>e t. threads_step seq s e t \<and> serves e"
proof (cases "mx_owner (ht_mutex s)")
  case None
  obtain i f vs where cs: "ht_calls s = (i, f) # vs" using assms(3) by (metis list.exhaust surj_pair)
  have "holders (ht_calls s) = []" using assms(1) None by (simp add: lock_ok_def)
  then obtain c where "f = Waits c" using cs by (cases f) simp_all
  moreover obtain m where "lock_inner i (ht_mutex s) = Some m" using None by (auto simp: lock_inner_eq)
  ultimately have "threads_step seq s (Locks i)
      (s\<lparr>ht_mutex := m, ht_calls := [] @ (i, Holds c (ht_state s)) # vs\<rparr>)"
    using cs by (intro threads_step.locks) simp_all
  then show ?thesis by (meson serves.simps(1))
next
  case (Some i)
  have h: "holders (ht_calls s) = [(i, ht_state s)]" using assms(1) Some by (simp add: lock_ok_def)
  then obtain c where "(i, Holds c (ht_state s)) \<in> set (ht_calls s)"
    using holder_in_flight [of i "ht_state s" "ht_calls s"] by auto
  then obtain us vs where cs: "ht_calls s = us @ (i, Holds c (ht_state s)) # vs" by (meson split_list)
  obtain t where "seq (ht_state s) c t" using call_ends by blast
  then have "threads_step seq s (Ends i c)
      (s\<lparr>ht_mutex := drop_guard False (ht_mutex s), ht_calls := us @ vs, ht_state := t\<rparr>)"
    using assms(2) cs by (intro threads_step.ends [OF cs]) (auto simp: one_call_each_def)
  then show ?thesis by (meson serves.simps(2))
qed

text \<open>Two threads whose calls overlap, the later one served first; and a callback that reenters.\<close>

lemma overlapping_run:
  "\<exists>u. threads_run seq (threads_start s) [Calls 0 b, Calls 1 c, Locks 1, Ends 1 c, Locks 0] u \<and>
     ht_calls u = [(0, Holds b (ht_state u))]"
proof -
  obtain v where v: "seq s c v" using call_ends by blast
  let ?free = "\<lparr>mx_owner = None, mx_poisoned = False\<rparr>"
  let ?st = "\<lambda>m cs x. \<lparr>ht_mutex = m, ht_calls = cs, ht_state = x\<rparr>"
  have 1: "threads_step seq (threads_start s) (Calls 0 b) (?st ?free [(0, Waits b)] s)"
    using threads_step.calls [of 0 "threads_start s" seq b] by (simp add: threads_start_def)
  have 2: "threads_step seq (?st ?free [(0, Waits b)] s) (Calls 1 c) (?st ?free [(1, Waits c), (0, Waits b)] s)"
    using threads_step.calls [of 1 "?st ?free [(0, Waits b)] s" seq c] by simp
  have 3: "threads_step seq (?st ?free [(1, Waits c), (0, Waits b)] s) (Locks 1)
      (?st \<lparr>mx_owner = Some 1, mx_poisoned = False\<rparr> [(1, Holds c s), (0, Waits b)] s)"
    using threads_step.locks [of "?st ?free [(1, Waits c), (0, Waits b)] s" "[]" 1 c "[(0, Waits b)]"]
    by (simp add: lock_inner_eq)
  have 4: "threads_step seq (?st \<lparr>mx_owner = Some 1, mx_poisoned = False\<rparr> [(1, Holds c s), (0, Waits b)] s)
      (Ends 1 c) (?st ?free [(0, Waits b)] v)"
    using threads_step.ends [of "?st \<lparr>mx_owner = Some 1, mx_poisoned = False\<rparr> [(1, Holds c s), (0, Waits b)] s"
        "[]" 1 c s "[(0, Waits b)]" seq v False] v
    by (simp add: drop_guard_def)
  have 5: "threads_step seq (?st ?free [(0, Waits b)] v) (Locks 0)
      (?st \<lparr>mx_owner = Some 0, mx_poisoned = False\<rparr> [(0, Holds b v)] v)"
    using threads_step.locks [of "?st ?free [(0, Waits b)] v" "[]" 0 b "[]"] by (simp add: lock_inner_eq)
  show ?thesis
    using threads_run.move [OF threads_run.move [OF threads_run.move [OF threads_run.move [OF threads_run.move
      [OF threads_run.rest 1] 2] 3] 4] 5] by (intro exI conjI) (simp, simp)
qed

lemma reentering_run:
  assumes "threads_run seq s es u" and "ht_calls u = [(0, Holds b st)]"
  shows "\<exists>v. threads_run seq s (es @ [Reenters 0 c]) v"
  using threads_run.move [OF assms(1) threads_step.reenters [of u "[]" 0 b st "[]" seq c]] assms(2) by auto

end

subsection \<open>A callback that calls back\<close>

text \<open>A thread that waits for the lock it holds.\<close>

definition blocked :: "('call, 's) host_threads \<Rightarrow> bool" where
  "blocked s \<longleftrightarrow>
     (\<exists>i us c vs. ht_calls s = us @ (i, Waits c) # vs \<and> i \<notin> fst ` set us \<and> mx_owner (ht_mutex s) = Some i)"

lemma newest_call_unique:
  "\<lbrakk>us @ (i, f) # vs = us' @ (i, g) # vs'; i \<notin> fst ` set us; i \<notin> fst ` set us'\<rbrakk> \<Longrightarrow> f = g"
proof (induction us arbitrary: us')
  case Nil
  then show ?case by (cases us') auto
next
  case (Cons a us)
  then show ?case by (cases us') auto
qed

lemma blocked_holder:
  assumes "lock_ok s" and "blocked s" and "ht_calls s = us @ (i, Holds c st) # vs" and "i \<notin> fst ` set us"
  shows False
  using assms(2) holder_is_owner(1) [OF assms(1,3)] newest_call_unique assms(3,4)
  unfolding blocked_def by (metis in_flight.distinct(1) option.inject)

lemma blocked_step:
  "\<lbrakk>threads_step seq s e t; lock_ok s; blocked s\<rbrakk> \<Longrightarrow> blocked t \<and> ht_state t = ht_state s \<and> ended [e] = []"
proof (induction rule: threads_step.induct)
  case (calls i s c)
  then obtain j us d vs where b: "ht_calls s = us @ (j, Waits d) # vs" "j \<notin> fst ` set us"
    "mx_owner (ht_mutex s) = Some j" by (auto simp: blocked_def)
  then have "j \<noteq> i" using calls.hyps by auto
  then have "blocked (s\<lparr>ht_calls := (i, Waits c) # ht_calls s\<rparr>)"
    unfolding blocked_def using b by (intro exI [of _ j] exI [of _ "(i, Waits c) # us"]) auto
  then show ?case by simp
next
  case (locks s us i c vs m)
  then show ?case by (auto simp: blocked_def lock_inner_eq)
next
  case (reenters s us i b st vs c)
  then show ?case using blocked_holder [OF reenters.prems reenters.hyps] by blast
next
  case (ends s us i c st vs t panicking)
  then show ?case using blocked_holder [OF ends.prems ends.hyps(1,2)] by blast
qed

lemma blocked_run:
  "\<lbrakk>threads_run seq s es t; lock_ok s; blocked s\<rbrakk> \<Longrightarrow> blocked t \<and> ht_state t = ht_state s \<and> ended es = []"
proof (induction rule: threads_run.induct)
  case (move s es t e u)
  then show ?case using blocked_step [OF move.hyps(2) lock_ok_run [OF move.hyps(1)]] by simp
qed simp

lemma reentered_blocked:
  "\<lbrakk>threads_run seq s es t; lock_ok s; list_ex reenters_event es\<rbrakk> \<Longrightarrow> blocked t"
proof (induction rule: threads_run.induct)
  case (move s es t e u)
  have t: "lock_ok t" by (rule lock_ok_run [OF move.hyps(1) move.prems(1)])
  show ?case
  proof (cases "list_ex reenters_event es")
    case True
    then show ?thesis using move.IH [OF move.prems(1)] blocked_step [OF move.hyps(2) t] by simp
  next
    case False
    then have "reenters_event e" using move.prems(2) by simp
    with move.hyps(2) show ?thesis
    proof cases
      case (reenters us i b st vs c)
      then have "mx_owner (ht_mutex t) = Some i" using holder_is_owner(1) [OF t reenters(3)] by simp
      then show ?thesis unfolding blocked_def reenters(2) by (intro exI [of _ i] exI [of _ "[]"]) simp
    qed simp_all
  qed
qed simp

subsection \<open>The calls of a native host\<close>

lemma ffi_call_ends: "\<exists>t. ffi_step X K R P s c t"
proof (cases c)
  case (Deletes kid)
  then show ?thesis by (metis ffi_step.delete surj_pair)
next
  case Migrates
  then show ?thesis by (metis ffi_step.migrate surj_pair)
next
  case GeneratesForLevel
  then show ?thesis by (metis ffi_step.generate_level surj_pair)
next
  case OtherCall
  then show ?thesis by (metis ffi_step.list_keys surj_pair)
qed

interpretation native: sequential_object "ffi_step X K R P"
  by unfold_locales (rule ffi_call_ends)

lemma ffi_run_snoc: "\<lbrakk>ffi_run X K R P s cs t; ffi_step X K R P t c u\<rbrakk> \<Longrightarrow> ffi_run X K R P s (cs @ [c]) u"
  by (induction rule: ffi_run.induct) (auto intro: ffi_run.intros)

lemma sequential_ffi_run: "sequential_run (ffi_step X K R P) s cs t \<Longrightarrow> ffi_run X K R P s cs t"
  by (induction rule: sequential_run.induct) (auto intro: ffi_run.finished ffi_run_snoc)

subsection \<open>Properties\<close>

lemma threads_start_state [simp]: "ht_state (threads_start s) = s"
  by (simp add: threads_start_def)

lemma threads_ffi_run:
  "threads_run (ffi_step X K R P) (threads_start s) es t \<Longrightarrow> ffi_run X K R P s (ended es) (ht_state t)"
  by (drule threads_run_is_sequential [OF _ lock_ok_start]) (simp add: sequential_ffi_run)

text \<open>C18: the calls of any number of threads are as good as one after another. However they overlap, whichever
  of them a panic ends, and whether or not a callback reenters: the state of the manager is what the ended
  calls leave when they run alone in the order they ended, an order that keeps what ended before another
  began. So it is a state of a single-threaded host; at most one call is inside the manager, and every
  call begun has ended once or is still in flight.\<close>

theorem native_calls_are_linearizable:
  assumes "threads_run (ffi_step X K R P) (threads_start (ffi_new config, w)) es s"
  shows "ffi_run X K R P (ffi_new config, w) (ended es) (ht_state s) \<and>
    ffi_reachable X K R P (ht_state s) \<and>
    mset (begun es) = mset (ended es) + mset (pending s) \<and> length (holders (ht_calls s)) \<le> 1"
proof -
  have run: "ffi_run X K R P (ffi_new config, w) (ended es) (ht_state s)"
    by (rule threads_ffi_run [OF assms])
  have "lock_ok s" by (rule lock_ok_run [OF assms lock_ok_start])
  then have "length (holders (ht_calls s)) \<le> 1" by (simp add: lock_ok_def split: option.splits)
  moreover have "mset (begun es) = mset (ended es) + mset (pending s)"
    using calls_run [OF assms] by (simp add: pending_def threads_start_def)
  ultimately show ?thesis using run reachable_run [OF run ffi_reachable.start] by blast
qed

theorem native_calls_are_linearizable_witness:
  "\<forall>(R :: (unit, unit) r2ps_codec) (P :: (unit, nat, unit, unit) r2ps_package).
     \<exists>s. threads_run (ffi_step ref_externals narrow_codec R P)
           (threads_start (ffi_new \<lparr>fcfg_default_plugin = ''softkey''\<rparr>, 0))
           [Calls 0 Migrates, Calls 1 (Deletes ''k''), Locks 1, Ends 1 (Deletes ''k''), Locks 0] s \<and>
         ffi_run ref_externals narrow_codec R P (ffi_new \<lparr>fcfg_default_plugin = ''softkey''\<rparr>, 0)
           [Deletes ''k''] (ht_state s)"
proof (intro allI)
  fix R :: "(unit, unit) r2ps_codec" and P :: "(unit, nat, unit, unit) r2ps_package"
  obtain s where s: "threads_run (ffi_step ref_externals narrow_codec R P)
      (threads_start (ffi_new \<lparr>fcfg_default_plugin = ''softkey''\<rparr>, 0))
      [Calls 0 Migrates, Calls 1 (Deletes ''k''), Locks 1, Ends 1 (Deletes ''k''), Locks 0] s"
    using native.overlapping_run by blast
  show "\<exists>s. threads_run (ffi_step ref_externals narrow_codec R P)
           (threads_start (ffi_new \<lparr>fcfg_default_plugin = ''softkey''\<rparr>, 0))
           [Calls 0 Migrates, Calls 1 (Deletes ''k''), Locks 1, Ends 1 (Deletes ''k''), Locks 0] s \<and>
         ffi_run ref_externals narrow_codec R P (ffi_new \<lparr>fcfg_default_plugin = ''softkey''\<rparr>, 0)
           [Deletes ''k''] (ht_state s)"
    using s native_calls_are_linearizable [OF s] by auto
qed

text \<open>C19: every call returns. From any state the threads can reach without a reentering callback, poisoned
  mutex or not, and in whatever order the scheduler serves the calls in flight: after at most two steps
  for each of them there is nothing left to serve, and serving never gets stuck before that.\<close>

theorem native_calls_all_return:
  assumes "threads_run (ffi_step X K R P) (threads_start (ffi_new config, w)) es s"
    and "\<not> list_ex reenters_event es"
    and "threads_run (ffi_step X K R P) s fs t" and "list_all serves fs"
  shows "length fs \<le> 2 * length (ht_calls s) \<and>
    (ht_calls t = [] \<or> (\<exists>e u. threads_step (ffi_step X K R P) t e u \<and> serves e))"
proof -
  have "\<not> reenters_event e" if "serves e" for e :: "host_call thread_event" using that by (cases e) simp_all
  then have "\<not> list_ex reenters_event (es @ fs)"
    using assms(2,4) by (auto simp: list_ex_iff list_all_iff)
  then have "one_call_each t"
    by (rule one_call_run [OF threads_run_append [OF assms(1,3)]])
      (simp add: one_call_each_def threads_start_def)
  moreover have "lock_ok t" by (rule lock_ok_run [OF assms(3) lock_ok_run [OF assms(1) lock_ok_start]])
  moreover have "length fs \<le> 2 * length (ht_calls s)"
    using serving_run [OF assms(3,4)] work_bound [of s] by linarith
  ultimately show ?thesis using native.progress by blast
qed

theorem native_calls_all_return_witness:
  "\<forall>(R :: (unit, unit) r2ps_codec) (P :: (unit, nat, unit, unit) r2ps_package).
     \<exists>s e u. ht_calls s = [(0, Holds Migrates (ht_state s))] \<and>
       threads_step (ffi_step ref_externals narrow_codec R P) s e u \<and> serves e"
proof (intro allI)
  fix R :: "(unit, unit) r2ps_codec" and P :: "(unit, nat, unit, unit) r2ps_package"
  obtain s where s: "threads_run (ffi_step ref_externals narrow_codec R P)
      (threads_start (ffi_new \<lparr>fcfg_default_plugin = ''softkey''\<rparr>, 0))
      [Calls 0 Migrates, Calls 1 (Deletes ''k''), Locks 1, Ends 1 (Deletes ''k''), Locks 0] s"
    "ht_calls s = [(0, Holds Migrates (ht_state s))]"
    using native.overlapping_run by blast
  show "\<exists>s e u. ht_calls s = [(0, Holds Migrates (ht_state s))] \<and>
       threads_step (ffi_step ref_externals narrow_codec R P) s e u \<and> serves e"
    using native_calls_all_return [OF s(1) _ threads_run.rest] s(2) by fastforce
qed

text \<open>C22: a callback must not call its manager. Once a host callback, inside one call, has made another call
  that reaches the lock, no call of any thread ever ends and the manager's state never changes again,
  whatever the other threads do.\<close>

theorem reentry_blocks_the_manager:
  assumes "threads_run (ffi_step X K R P) (threads_start (ffi_new config, w)) es s"
    and "list_ex reenters_event es" and "threads_run (ffi_step X K R P) s fs t"
  shows "ended fs = [] \<and> ht_state t = ht_state s"
  using blocked_run [OF assms(3) lock_ok_run [OF assms(1) lock_ok_start]
      reentered_blocked [OF assms(1) lock_ok_start assms(2)]]
  by blast

theorem reentry_blocks_the_manager_witness:
  "\<forall>(R :: (unit, unit) r2ps_codec) (P :: (unit, nat, unit, unit) r2ps_package).
     \<exists>s. threads_run (ffi_step ref_externals narrow_codec R P)
           (threads_start (ffi_new \<lparr>fcfg_default_plugin = ''softkey''\<rparr>, 0))
           ([Calls 0 Migrates, Calls 1 (Deletes ''k''), Locks 1, Ends 1 (Deletes ''k''), Locks 0]
            @ [Reenters 0 OtherCall]) s \<and>
         (\<forall>fs t. threads_run (ffi_step ref_externals narrow_codec R P) s fs t \<longrightarrow> ended fs = [])"
proof (intro allI)
  fix R :: "(unit, unit) r2ps_codec" and P :: "(unit, nat, unit, unit) r2ps_package"
  let ?es = "[Calls 0 Migrates, Calls 1 (Deletes ''k''), Locks 1, Ends 1 (Deletes ''k''), Locks 0]"
  obtain u where u: "threads_run (ffi_step ref_externals narrow_codec R P)
      (threads_start (ffi_new \<lparr>fcfg_default_plugin = ''softkey''\<rparr>, 0)) ?es u"
    "ht_calls u = [(0, Holds Migrates (ht_state u))]"
    using native.overlapping_run by blast
  obtain s where s: "threads_run (ffi_step ref_externals narrow_codec R P)
      (threads_start (ffi_new \<lparr>fcfg_default_plugin = ''softkey''\<rparr>, 0)) (?es @ [Reenters 0 OtherCall]) s"
    using native.reentering_run [OF u] by blast
  show "\<exists>s. threads_run (ffi_step ref_externals narrow_codec R P)
           (threads_start (ffi_new \<lparr>fcfg_default_plugin = ''softkey''\<rparr>, 0)) (?es @ [Reenters 0 OtherCall]) s \<and>
         (\<forall>fs t. threads_run (ffi_step ref_externals narrow_codec R P) s fs t \<longrightarrow> ended fs = [])"
    using s reentry_blocks_the_manager [OF s] by auto
qed

end
