(* ===== verification/Wasm_Ffi.thy ===== *)
theory Wasm_Ffi
  imports Wasm_Transport Restore
begin

section \<open>The manager in a browser: src/wasm\_ffi.rs\<close>

text \<open>
  \<open>WscdManagerJs\<close> is the manager as a page's JavaScript sees it: the software key store, registered from
  the start, and the FIDO2 plugin over the browser's own ceremonies. A method shows an error as the
  text of a \<open>JsError\<close>; a Rust panic traps instead. The second half of the theory is about overlapping calls: the
  manager is in a \<open>RefCell\<close> and an asynchronous method holds its borrow until its promise is settled, so
  the cell decides which calls a page may have in flight at the same time.

  \<open>js_host\<close> collects what the methods use of the outside: the packages, serde, the JavaScript engine
  and the browser, \<open>serde-wasm-bindgen\<close> (\<open>jh_plain\<close> is its JSON-compatible serialiser, \<open>jh_value\<close> its
  \<open>to_value\<close> on a list of strings), the clock and random numbers.
\<close>

record ('v, 'w) js_host =
  jh_externals :: externals
  jh_codec :: store_codec
  jh_engine :: "'v js_engine"
  jh_browser :: "('v, 'w) browser"
  jh_plain :: "json \<Rightarrow> string + 'v"
  jh_value :: "string list \<Rightarrow> string + 'v"
  jh_env :: "'w env"

datatype js_error = JsError string | JsTrap

type_synonym ('c, 'w, 'a) js_eff = "(('c plugin_state, 'w) manager \<times> 'w, js_error, 'a) eff"

text \<open>\<open>map_err(|e| JsError::new(&e.to_string()))\<close>, which a panic does not reach.\<close>

definition js_error_of :: "wscd_error \<Rightarrow> js_error" where
  "js_error_of e = (case e of RustPanic _ \<Rightarrow> JsTrap | _ \<Rightarrow> JsError (show_error e))"

definition shown :: "('s, 'a) weff \<Rightarrow> ('s, js_error, 'a) eff" where
  "shown m = emap_err js_error_of m"

definition to_plain_js_object :: "('v, 'w) js_host \<Rightarrow> json \<Rightarrow> js_error + 'v" where
  "to_plain_js_object H j = map_err JsError (jh_plain H j)"

subsection \<open>The callbacks the methods pass on\<close>

definition wasm_noop_auth :: "'w auth_callback" where
  "wasm_noop_auth =
     \<lparr>request_pin = (\<lambda>plugin_id. ethrow AuthCancelled),
      request_pin_for = default_request_pin_for (\<lambda>plugin_id. ethrow AuthCancelled),
      request_webauthn_assertion = (\<lambda>plugin_id challenge rp_id allowed. ethrow AuthCancelled)\<rparr>"

definition js_env :: "('v, 'w) js_host \<Rightarrow> 'w env" where
  "js_env H = (jh_env H)\<lparr>env_progress := noop_progress\<rparr>"

definition js_transport :: "('v, 'w) js_host \<Rightarrow> 'w ctap2_transport" where
  "js_transport H = wasm_transport (jh_externals H) (jh_engine H) (jh_browser H)"

subsection \<open>The methods\<close>

definition js_new :: "externals \<Rightarrow> ('c plugin_state, 'w) manager" where
  "js_new X = register_plugin (softkey_plugin X) (SoftkeyState softkey_new) (manager_new default_config)"

definition js_generate_key :: "('v, 'w) js_host \<Rightarrow> ('c, 'w, string) js_eff" where
  "js_generate_key H = emap gk_kid (shown (manager_generate_key ES256 (js_env H) wasm_noop_auth))"

definition js_generate_key_with_plugin :: "('v, 'w) js_host \<Rightarrow> string \<Rightarrow> ('c, 'w, string) js_eff" where
  "js_generate_key_with_plugin H plugin_id =
     emap gk_kid (shown (generate_key_with_plugin plugin_id ES256 (js_env H) wasm_noop_auth))"

definition js_plugin_ids :: "('v, 'w) js_host \<Rightarrow> ('c plugin_state, 'w) manager \<Rightarrow> js_error + 'v" where
  "js_plugin_ids H m = to_plain_js_object H (JArray (map JString (sort (plugin_ids m))))"

definition js_sign :: "('v, 'w) js_host \<Rightarrow> string \<Rightarrow> bytes \<Rightarrow> ('c, 'w, bytes) js_eff" where
  "js_sign H key_id data = shown (manager_sign key_id data ES256 (js_env H) wasm_noop_auth)"

definition js_list_keys :: "('v, 'w) js_host \<Rightarrow> ('c, 'w, 'v) js_eff" where
  "js_list_keys H =
     ebind (shown manager_list_keys) (\<lambda>keys. elift (map_err JsError (jh_value H (map ki_kid keys))))"

definition js_delete_key :: "string \<Rightarrow> ('c, 'w, unit) js_eff" where
  "js_delete_key key_id = shown (manager_delete_key key_id)"

definition js_export_public_key :: "('v, 'w) js_host \<Rightarrow> string \<Rightarrow> ('c, 'w, 'v) js_eff" where
  "js_export_public_key H key_id =
     ebind (shown (manager_export_public_key key_id)) (\<lambda>jwk. elift (to_plain_js_object H jwk))"

text \<open>The members are in the order of \<open>serde_json\<close>'s sorted map.\<close>

definition js_security_properties ::
  "('v, 'w) js_host \<Rightarrow> string \<Rightarrow> ('c plugin_state, 'w) manager \<Rightarrow> js_error + 'v" where
  "js_security_properties H key_id m =
     rbind (map_err js_error_of (manager_security_properties m key_id)) (\<lambda>props.
       to_plain_js_object H (JObject
         [(''amr'', JArray (map JString (sp_amr props))),
          (''certification'', JString (certification_as_str (sp_certification props))),
          (''key_storage'', JString (key_storage_as_str (sp_key_storage props))),
          (''user_authentication'', JArray (map JString (sp_user_authentication props)))]))"

definition js_export_container ::
  "('v, 'w) js_host \<Rightarrow> ('c plugin_state, 'w) manager \<Rightarrow> js_error + bytes" where
  "js_export_container H m =
     rbind (downcast ''softkey'' the_softkey js_error_of
       (JsError ''softkey plugin is not a SoftkeyPlugin'') m) (\<lambda>p.
       map_err js_error_of (export_container (fx_softkey_to_vec (jh_codec H)) p))"

definition js_import_container :: "('v, 'w) js_host \<Rightarrow> bytes \<Rightarrow> ('c, 'w, unit) js_eff" where
  "js_import_container H container =
     ebind (elift (map_err js_error_of (from_container (fx_softkey_parse (jh_codec H))
       (fx_softkey_legacy_parse (jh_codec H)) container))) (\<lambda>p.
       let kids = softkey_key_ids p in
       ebind (registering (softkey_plugin (jh_externals H)) (SoftkeyState p)) (\<lambda>_.
         shown (binding_keys ''softkey'' kids)))"

definition js_register_fido2 :: "('v, 'w) js_host \<Rightarrow> ('c, 'w, unit) js_eff" where
  "js_register_fido2 H = registering (fido_plugin (jh_externals H) (js_transport H)) (FidoState fido_new)"

definition js_register_fido2_with_state :: "('v, 'w) js_host \<Rightarrow> bytes \<Rightarrow> ('c, 'w, unit) js_eff" where
  "js_register_fido2_with_state H state =
     ebind (elift (map_err js_error_of (fido_from_state (fx_fido_parse (jh_codec H)) state))) (\<lambda>p.
       let kids = fido_key_ids p in
       ebind (registering (fido_plugin (jh_externals H) (js_transport H)) (FidoState p)) (\<lambda>_.
         shown (binding_keys ''fido2'' kids)))"

definition js_export_fido2_state ::
  "('v, 'w) js_host \<Rightarrow> ('c plugin_state, 'w) manager \<Rightarrow> js_error + bytes" where
  "js_export_fido2_state H m =
     rbind (downcast ''fido2'' the_fido js_error_of
       (JsError ''fido2 plugin is not a Fido2SignPlugin'') m) (\<lambda>p.
       map_err js_error_of (fido_export_state (fx_fido_to_vec (jh_codec H)) p))"

subsection \<open>A page that is loaded again\<close>

text \<open>The two pairs of exporting and restoring methods, by the plugin's id.\<close>

inductive js_restores ::
  "('v, 'w) js_host \<Rightarrow> ('c plugin_state, 'w) manager \<Rightarrow> ('c plugin_state, 'w) manager \<times> 'w
   \<Rightarrow> string \<Rightarrow> js_error + unit \<Rightarrow> ('c plugin_state, 'w) manager \<Rightarrow> bool"
  for H m s where
  softkey: "\<lbrakk>js_export_container H m = Inr b; js_import_container H b s = (r, (m1, w1))\<rbrakk>
    \<Longrightarrow> js_restores H m s ''softkey'' r m1"
| fido: "\<lbrakk>js_export_fido2_state H m = Inr b;
      js_register_fido2_with_state H b s = (r, (m1, w1))\<rbrakk>
    \<Longrightarrow> js_restores H m s ''fido2'' r m1"

text \<open>C15: a page's keys survive a reload. What a manager exports, its software container or its FIDO2
  state, gives the manager of the next page exactly the keys it came from; no binding moves; the call
  fails exactly when a key is bound to another plugin already, and otherwise every key is routed to its
  plugin for every operation. The exception is a FIDO2 state with a key whose coordinates are not both 32
  or both 48 bytes wide: it was exported, but restoring it is refused and changes nothing. In contrast to
  the method of src/ffi.rs that it mirrors, \<open>importContainer\<close> binds the keys.\<close>

theorem browser_stores_come_back:
  assumes "wallet_ok (jh_externals H) m" and "wallet_ok (jh_externals H) m0" and "codec_ok (jh_codec H)"
    and "js_restores H m (m0, w) pid r m1"
  shows "wallet_ok (jh_externals H) m1 \<and>
    (if pid = ''fido2'' \<and> holds_odd_key m then (\<exists>msg. r = Inl (JsError msg)) \<and> m1 = m0
     else restored_from pid m m0 r m1)"
  using assms(4)
proof cases
  case (softkey b w1)
  then show ?thesis
    using restore_softkey.restore [OF assms(1,2) softkey(2) [unfolded js_export_container_def]
        _ softkey(3) [unfolded js_import_container_def shown_def]] assms(3)
    by simp
next
  case (fido b w1)
  show ?thesis
  proof (cases "holds_odd_key m")
    case True
    obtain msg where "fido_from_state (fx_fido_parse (jh_codec H)) b = Inl (Serialization msg)"
      using odd_store_refused [OF assms(3) True fido(2) [unfolded js_export_fido2_state_def]] by blast
    then show ?thesis
      using fido(1,3) True assms(2)
      by (auto simp: js_register_fido2_with_state_def ebind_def elift_def js_error_of_def)
  next
    case False
    then have "wallet_ok (jh_externals H) m1 \<and> restored_from ''fido2'' m m0 r m1"
      by (intro restore_fido.restore [OF assms(1,2) fido(2) [unfolded js_export_fido2_state_def]
          _ fido(3) [unfolded js_register_fido2_with_state_def shown_def]])
        (simp add: assms(3) fido_restorableD [OF fido_restorable_iff [THEN iffD2]])
    then show ?thesis unfolding fido(1) using False by simp
  qed
qed

text \<open>A page whose codec serialises one container, and which refuses every ceremony.\<close>

definition ref_host :: "exported_container \<Rightarrow> (ref_js, nat) js_host" where
  "ref_host x =
     \<lparr>jh_externals = ref_externals,
      jh_codec = \<lparr>fx_softkey_to_vec = (\<lambda>y. if y = x then Inr [1] else Inl ''no''),
        fx_softkey_parse = (\<lambda>b. Inr x), fx_softkey_legacy_parse = (\<lambda>b. Inl ''no''),
        fx_fido_to_vec = (\<lambda>y. Inl ''no''), fx_fido_parse = (\<lambda>b. Inl ''no''),
        fx_apple_to_vec = (\<lambda>y. Inl ''no''), fx_apple_parse = (\<lambda>b. Inl ''no''),
        fx_android_to_vec = (\<lambda>y. Inl ''no''), fx_android_parse = (\<lambda>b. Inl ''no'')\<rparr>,
      jh_engine = ref_engine, jh_browser = ref_browser (Inl not_allowed),
      jh_plain = (\<lambda>j. Inr JsUndefined), jh_value = (\<lambda>x. Inr JsUndefined), jh_env = ref_env\<rparr>"

lemma ref_host_simps [simp]:
  "jh_externals (ref_host x) = ref_externals" "jh_env (ref_host x) = ref_env"
  "codec_ok (jh_codec (ref_host x))"
  by (simp_all add: ref_host_def codec_ok_def)

definition one_key_page :: "(unit plugin_state, nat) manager" where
  "one_key_page = register_plugin (softkey_plugin ref_externals) (SoftkeyState one_key_store)
     (manager_new default_config)"

lemma pages_ok:
  "wallet_ok ref_externals one_key_page"
  "wallet_ok ref_externals (js_new ref_externals :: (unit plugin_state, nat) manager)"
  unfolding one_key_page_def js_new_def
  by (intro mgr_ok_register mgr_ok_new;
      auto simp: wallet_plugins_def wallet_good_at one_key_store_def softkey_new_def sk_inv_def hm_filed_def
        hm_wf_def hm_get_def)+

theorem browser_stores_come_back_witness:
  "\<exists>r m1. js_restores (ref_host (exported_of one_key_store)) one_key_page (js_new ref_externals, 0)
       ''softkey'' r m1 \<and> is_ok r \<and> resolve_for_key m1 ''k'' ''sign'' = Inr ''softkey''"
proof -
  let ?H = "ref_host (exported_of one_key_store)"
  let ?m0 = "js_new ref_externals :: (unit plugin_state, nat) manager"
  obtain r m1 w1 where run: "js_import_container ?H [1] (?m0, 0) = (r, (m1, w1))" by (metis prod.collapse)
  have ex: "js_export_container ?H one_key_page = Inr [1]"
    by (simp add: js_export_container_def downcast_def one_key_page_def export_container_def ref_host_def)
  have res: "js_restores ?H one_key_page (?m0, 0) ''softkey'' r m1" by (rule js_restores.softkey [OF ex run])
  have h: "mgr_held wallet_held one_key_page ''softkey'' = {''k''}"
    by (auto simp: one_key_page_def sk_held_def one_key_store_def hm_get_def)
  have b: "bound ?m0 k = None" for k
    by (simp add: js_new_def register_plugin_def manager_new_def default_config_def hm_get_def)
  have "restored_from ''softkey'' one_key_page ?m0 r m1"
    using browser_stores_come_back [of ?H one_key_page ?m0 0 "''softkey''" r m1] pages_ok res by simp
  then have "is_ok r \<and> resolve_for_key m1 ''k'' ''sign'' = Inr ''softkey''"
    by (simp add: restored_from_def h b)
  then show ?thesis using res by blast
qed

end
