(* ===== verification/Js_Session.thy ===== *)
theory Js_Session
  imports Wasm_Ffi Session
begin

section \<open>Calls of a page that overlap\<close>

text \<open>
  A page can call a method while the promise of another is pending. \<open>WscdManagerJs\<close> keeps its manager in a
  \<open>RefCell\<close>: a method borrows it, shared or exclusively, and an asynchronous one keeps the borrow across
  its \<open>await\<close>s. A borrow the cell refuses is a panic. Here the methods are requests, the cell is its
  borrow flag, and a session of the page is a transition system over the flag, the calls in flight and
  the manager.

  A call's own effects happen in the step that ends it. For an exclusive call this loses nothing, since
  the theorem says that nothing else touches the manager while it is in flight; for a shared one it
  leaves open in which order the ceremonies of two overlapping signs reach the outside world, while
  no such call changes a key or a binding, whatever the order.
\<close>

subsection \<open>Requests\<close>

datatype js_request =
    GenerateKey
  | GenerateKeyWithPlugin string
  | Sign string bytes
  | ListKeys
  | DeleteKey string
  | ExportPublicKey string
  | PluginIds
  | SecurityProperties string
  | ExportContainer
  | ImportContainer bytes
  | RegisterFido2
  | RegisterFido2WithState bytes
  | ExportFido2State

datatype 'v js_reply = ReplyText string | ReplyBytes bytes | ReplyUnit | ReplyObj 'v

text \<open>A method that only reads the manager.\<close>

definition js_query ::
  "(('c plugin_state, 'w) manager \<Rightarrow> js_error + 'a) \<Rightarrow> ('c, 'w, 'a) js_eff" where
  "js_query f s = (f (fst s), s)"

fun js_run :: "('v, 'w) js_host \<Rightarrow> js_request \<Rightarrow> ('c, 'w, 'v js_reply) js_eff" where
  "js_run H GenerateKey = emap ReplyText (js_generate_key H)"
| "js_run H (GenerateKeyWithPlugin pid) = emap ReplyText (js_generate_key_with_plugin H pid)"
| "js_run H (Sign kid data) = emap ReplyBytes (js_sign H kid data)"
| "js_run H ListKeys = emap ReplyObj (js_list_keys H)"
| "js_run H (DeleteKey kid) = emap (\<lambda>_. ReplyUnit) (js_delete_key kid)"
| "js_run H (ExportPublicKey kid) = emap ReplyObj (js_export_public_key H kid)"
| "js_run H PluginIds = emap ReplyObj (js_query (js_plugin_ids H))"
| "js_run H (SecurityProperties kid) = emap ReplyObj (js_query (js_security_properties H kid))"
| "js_run H ExportContainer = emap ReplyBytes (js_query (js_export_container H))"
| "js_run H (ImportContainer b) = emap (\<lambda>_. ReplyUnit) (js_import_container H b)"
| "js_run H RegisterFido2 = emap (\<lambda>_. ReplyUnit) (js_register_fido2 H)"
| "js_run H (RegisterFido2WithState b) = emap (\<lambda>_. ReplyUnit) (js_register_fido2_with_state H b)"
| "js_run H ExportFido2State = emap ReplyBytes (js_query (js_export_fido2_state H))"

text \<open>The methods declared \<open>async\<close>, and those that call \<open>borrow_mut\<close>.\<close>

fun js_async :: "js_request \<Rightarrow> bool" where
  "js_async GenerateKey = True"
| "js_async (GenerateKeyWithPlugin _) = True"
| "js_async (Sign _ _) = True"
| "js_async ListKeys = True"
| "js_async (DeleteKey _) = True"
| "js_async (ExportPublicKey _) = True"
| "js_async _ = False"

fun js_exclusive :: "js_request \<Rightarrow> bool" where
  "js_exclusive GenerateKey = True"
| "js_exclusive (GenerateKeyWithPlugin _) = True"
| "js_exclusive (DeleteKey _) = True"
| "js_exclusive (ImportContainer _) = True"
| "js_exclusive RegisterFido2 = True"
| "js_exclusive (RegisterFido2WithState _) = True"
| "js_exclusive _ = False"

text \<open>A store that does not parse is refused before the cell is borrowed.\<close>

fun js_borrows :: "('v, 'w) js_host \<Rightarrow> js_request \<Rightarrow> bool" where
  "js_borrows H (ImportContainer b) =
     is_ok (from_container (fx_softkey_parse (jh_codec H)) (fx_softkey_legacy_parse (jh_codec H)) b)"
| "js_borrows H (RegisterFido2WithState b) = is_ok (fido_from_state (fx_fido_parse (jh_codec H)) b)"
| "js_borrows H _ = True"

subsection \<open>The cell\<close>

datatype borrow_flag = Writing | Reading nat

fun try_borrow :: "bool \<Rightarrow> borrow_flag \<Rightarrow> borrow_flag option" where
  "try_borrow False (Reading n) = Some (Reading (Suc n))"
| "try_borrow True (Reading 0) = Some Writing"
| "try_borrow _ _ = None"

fun release :: "bool \<Rightarrow> borrow_flag \<Rightarrow> borrow_flag" where
  "release False (Reading n) = Reading (n - 1)"
| "release True Writing = Reading 0"
| "release _ f = f"

subsection \<open>Sessions of a page\<close>

text \<open>
  \<open>js_stuck\<close> are the calls a panic ended inside a plugin: their borrow is never returned.
\<close>

record ('c, 'w) js_session =
  js_flag :: borrow_flag
  js_pending :: "(nat \<times> js_request) list"
  js_stuck :: "(nat \<times> js_request) list"
  js_state :: "('c plugin_state, 'w) manager \<times> 'w"

datatype 'v js_event =
    Begins nat js_request
  | Ends nat "js_error + 'v js_reply"
  | Dies nat
  | Answers js_request "js_error + 'v js_reply"
  | Refused js_request

definition drop_call :: "nat \<Rightarrow> (nat \<times> js_request) list \<Rightarrow> (nat \<times> js_request) list" where
  "drop_call i = filter (\<lambda>(j, _). j \<noteq> i)"

inductive js_step ::
  "('v, 'w) js_host \<Rightarrow> ('c, 'w) js_session \<Rightarrow> 'v js_event \<Rightarrow> ('c, 'w) js_session \<Rightarrow> bool"
  for H :: "('v, 'w) js_host" where
  begins: "\<lbrakk>js_async c; i \<notin> fst ` set (js_pending s @ js_stuck s);
      try_borrow (js_exclusive c) (js_flag s) = Some f\<rbrakk>
    \<Longrightarrow> js_step H s (Begins i c) (s\<lparr>js_flag := f, js_pending := (i, c) # js_pending s\<rparr>)"
| ends: "\<lbrakk>(i, c) \<in> set (js_pending s); js_run H c (js_state s) = (r, t); r \<noteq> Inl JsTrap\<rbrakk>
    \<Longrightarrow> js_step H s (Ends i r)
          (s\<lparr>js_flag := release (js_exclusive c) (js_flag s), js_pending := drop_call i (js_pending s),
             js_state := t\<rparr>)"
| dies: "\<lbrakk>(i, c) \<in> set (js_pending s); js_run H c (js_state s) = (Inl JsTrap, t)\<rbrakk>
    \<Longrightarrow> js_step H s (Dies i)
          (s\<lparr>js_pending := drop_call i (js_pending s), js_stuck := (i, c) # js_stuck s, js_state := t\<rparr>)"
| answers: "\<lbrakk>\<not> js_async c; js_borrows H c \<longrightarrow> try_borrow (js_exclusive c) (js_flag s) \<noteq> None;
      js_run H c (js_state s) = (r, t)\<rbrakk>
    \<Longrightarrow> js_step H s (Answers c r) (s\<lparr>js_state := t\<rparr>)"
| refused: "\<lbrakk>js_borrows H c; try_borrow (js_exclusive c) (js_flag s) = None\<rbrakk>
    \<Longrightarrow> js_step H s (Refused c) s"

definition js_start :: "externals \<Rightarrow> 'w \<Rightarrow> ('c, 'w) js_session" where
  "js_start X w = \<lparr>js_flag = Reading 0, js_pending = [], js_stuck = [], js_state = (js_new X, w)\<rparr>"

inductive js_reachable :: "('v, 'w) js_host \<Rightarrow> ('c, 'w) js_session \<Rightarrow> bool" for H where
  start: "js_reachable H (js_start (jh_externals H) w)"
| step: "\<lbrakk>js_reachable H s; js_step H s e t\<rbrakk> \<Longrightarrow> js_reachable H t"

subsection \<open>The cell and the calls in flight\<close>

definition js_calls :: "('c, 'w) js_session \<Rightarrow> (nat \<times> js_request) list" where
  "js_calls s = js_pending s @ js_stuck s"

definition cell_ok :: "('c, 'w) js_session \<Rightarrow> bool" where
  "cell_ok s \<longleftrightarrow>
     distinct (map fst (js_calls s)) \<and>
     (case js_flag s of
        Writing \<Rightarrow> (\<exists>i c. js_calls s = [(i, c)] \<and> js_exclusive c)
      | Reading n \<Rightarrow> n = length (js_calls s) \<and> (\<forall>(i, c) \<in> set (js_calls s). \<not> js_exclusive c))"

lemma try_borrow_reading: "try_borrow True (Reading n) = (if n = 0 then Some Writing else None)"
  by (cases n) simp_all

lemma try_borrow_eq:
  "try_borrow True f = Some g \<longleftrightarrow> f = Reading 0 \<and> g = Writing"
  "try_borrow False f = Some g \<longleftrightarrow> (\<exists>n. f = Reading n \<and> g = Reading (Suc n))"
  "try_borrow True f = None \<longleftrightarrow> f \<noteq> Reading 0"
  "try_borrow False f = None \<longleftrightarrow> f = Writing"
  by (cases f; auto simp: try_borrow_reading split: if_splits)+

lemma drop_call_set: "set (drop_call i xs) = {(j, c) \<in> set xs. j \<noteq> i}"
  by (auto simp: drop_call_def)

lemma drop_call_length:
  "\<lbrakk>distinct (map fst xs); (i, c) \<in> set xs\<rbrakk> \<Longrightarrow> Suc (length (drop_call i xs)) = length xs"
proof (induction xs)
  case (Cons x xs)
  show ?case
  proof (cases "fst x = i")
    case True
    then have "drop_call i xs = xs"
      using Cons.prems(1) by (auto simp: drop_call_def filter_id_conv image_iff split: prod.splits)
    then show ?thesis using True by (cases x) (simp add: drop_call_def)
  next
    case False
    then show ?thesis using Cons by (cases x) (auto simp: drop_call_def)
  qed
qed simp

lemma drop_call_distinct: "distinct (map fst xs) \<Longrightarrow> distinct (map fst (drop_call i xs))"
  by (simp add: drop_call_def distinct_map_filter)

lemma cell_kept: "\<lbrakk>js_step H s e t; cell_ok s\<rbrakk> \<Longrightarrow> cell_ok t"
proof (induction rule: js_step.induct)
  case (begins c i s f)
  then show ?case
    by (cases "js_exclusive c") (auto simp: cell_ok_def js_calls_def try_borrow_eq)
next
  case (ends i c s r t)
  note len = drop_call_length [of "js_pending s" i c]
  show ?case
  proof (cases "js_flag s")
    case Writing
    then have "js_pending s = [(i, c)]" "js_stuck s = []" "js_exclusive c"
      using ends by (auto simp: cell_ok_def js_calls_def append_eq_Cons_conv)
    then show ?thesis by (simp add: Writing cell_ok_def js_calls_def drop_call_def)
  next
    case (Reading n)
    then have "\<not> js_exclusive c" using ends by (auto simp: cell_ok_def js_calls_def)
    then show ?thesis
      using ends len drop_call_distinct [of "js_pending s" i]
      by (auto simp: Reading cell_ok_def js_calls_def drop_call_set)
  qed
next
  case (dies i c s t)
  note len = drop_call_length [of "js_pending s" i c]
  show ?case
  proof (cases "js_flag s")
    case Writing
    then have "js_pending s = [(i, c)]" "js_stuck s = []" "js_exclusive c"
      using dies by (auto simp: cell_ok_def js_calls_def append_eq_Cons_conv)
    then show ?thesis by (simp add: Writing cell_ok_def js_calls_def drop_call_def)
  next
    case (Reading n)
    then have "\<not> js_exclusive c" "i \<notin> fst ` set (js_stuck s)"
      using dies by (auto simp: cell_ok_def js_calls_def) (metis disjoint_iff fst_conv image_eqI)
    then show ?thesis
      using dies len drop_call_distinct [of "js_pending s" i]
      by (auto simp: Reading cell_ok_def js_calls_def drop_call_set)
  qed
qed (auto simp: cell_ok_def js_calls_def split: borrow_flag.splits)

subsection \<open>The manager in a session\<close>

lemma js_query_untouched: "moves (keys_untouched X) (js_query f)"
  by (simp add: moves_def js_query_def untouched.stay)

lemma js_shared_untouched:
  assumes "\<not> js_exclusive c"
  shows "moves (keys_untouched (jh_externals H)) (js_run H c)"
  using assms
  by (cases c)
     (simp_all add: js_sign_def js_list_keys_def js_export_public_key_def shown_def js_query_untouched
        untouched.moves_emap untouched.moves_emap_err untouched.moves_ebind untouched.moves_still
        untouched_uses untouched_list_keys)

lemma js_import_kept:
  "moves (wallet_kept (jh_externals H)) (js_import_container H b)"
  "moves (wallet_kept (jh_externals H)) (js_register_fido2_with_state H b)"
  unfolding js_import_container_def js_register_fido2_with_state_def shown_def
  by (rule kept_restoring; auto simp: wallet_plugins_def wallet_good_at dest: parsed_stores_ok(3,4))+

lemma js_run_kept: "moves (wallet_kept (jh_externals H)) (js_run H c)"
proof (cases "js_exclusive c")
  case False
  then show ?thesis by (intro untouched_kept js_shared_untouched)
next
  case True
  show ?thesis using True
    by (cases c)
       (simp_all add: js_generate_key_def js_generate_key_with_plugin_def js_delete_key_def
          js_import_kept js_register_fido2_def shown_def
          kept.moves_emap kept.moves_emap_err kept_generate kept_delete_key kept_registering
          wallet_plugins_def wallet_good_at parsed_stores_ok)
qed

lemma js_reachable_ok: "js_reachable H s \<Longrightarrow> cell_ok s \<and> wallet_ok (jh_externals H) (fst (js_state s))"
proof (induction rule: js_reachable.induct)
  case (start w)
  have "wallet_ok (jh_externals H) (js_new (jh_externals H) :: ('c plugin_state, 'b) manager)"
    unfolding js_new_def
    by (intro mgr_ok_register mgr_ok_new) (simp_all add: wallet_plugins_def wallet_good_at parsed_stores_ok)
  then show ?case by (simp add: js_start_def cell_ok_def js_calls_def)
next
  case (step s e t)
  have "wallet_kept (jh_externals H) (js_state s) (js_state t)"
    using step.hyps(2) js_run_kept by cases (auto simp: kept.stay dest: movesD)
  then show ?case using step cell_kept by (auto simp: wallet_kept_def)
qed

text \<open>A call that is answered without borrowing changes nothing.\<close>

lemma js_unborrowed: "\<lbrakk>\<not> js_borrows H c; js_run H c s = (r, t)\<rbrakk> \<Longrightarrow> t = s"
  by (cases c) (auto simp: js_import_container_def js_register_fido2_with_state_def emap_def ebind_apply
      is_ok_def split: sum.splits)

text \<open>
  What the end of a call in flight, or a synchronous answer, does to the manager while some call is in
  flight: nothing when that call is exclusive and not the one that ends, and nothing to any key when
  it is shared.
\<close>

lemma cell_in_flight:
  assumes "cell_ok s" and "(i, c) \<in> set (js_calls s)"
  shows "js_exclusive c \<Longrightarrow> js_flag s = Writing \<and> set (js_calls s) = {(i, c)}"
    and "\<not> js_exclusive c \<Longrightarrow>
      (\<exists>n. js_flag s = Reading (Suc n)) \<and> (\<forall>(j, d) \<in> set (js_calls s). \<not> js_exclusive d)"
  using assms length_pos_if_in_set [OF assms(2)]
  by (auto simp: cell_ok_def gr0_conv_Suc split: borrow_flag.splits)

lemma answer_in_flight:
  assumes "cell_ok s" and "(i, c) \<in> set (js_calls s)"
    and "js_borrows H d \<longrightarrow> try_borrow (js_exclusive d) (js_flag s) \<noteq> None"
    and "js_run H d (js_state s) = (r, t)"
  shows "js_exclusive c \<Longrightarrow> t = js_state s"
    and "\<not> js_exclusive c \<Longrightarrow> keys_untouched (jh_externals H) (js_state s) t"
proof -
  show "t = js_state s" if "js_exclusive c"
    using cell_in_flight(1) [OF assms(1,2) that] assms(3) js_unborrowed [OF _ assms(4)]
    by (cases "js_exclusive d") auto
  show "keys_untouched (jh_externals H) (js_state s) t" if "\<not> js_exclusive c"
  proof (cases "js_exclusive d")
    case True
    then have "t = js_state s"
      using cell_in_flight(2) [OF assms(1,2) that] assms(3) js_unborrowed [OF _ assms(4)] by auto
    then show ?thesis by (simp add: untouched.stay)
  next
    case False
    then show ?thesis using js_shared_untouched assms(4) by (blast intro: movesD)
  qed
qed

text \<open>No synchronous method panics, so a synchronous answer always returns its borrow.\<close>

lemma wallet_security_errors:
  assumes "ops \<in> wallet_plugins X" and "wallet_good (po_id ops) st"
    and "po_security_properties ops st kid = Inl e"
  shows "e = KeyNotFound kid"
  using assms
  by (auto simp: wallet_plugins_def wallet_good_at softkey_plugin_def fido_plugin_def apple_plugin_def
      android_plugin_def lift_query_def softkey_security_properties_def fido_security_properties_def
      apple_security_properties_def android_security_properties_def softkey_ops_def fido_ops_def
      apple_ops_def android_ops_def rbind_eq_Inl split: if_splits)

lemma manager_security_errors:
  assumes "wallet_ok X m" and "manager_security_properties m kid = Inl e"
  shows "js_error_of e \<noteq> JsTrap"
proof -
  have "e' = KeyNotFound kid"
    if "hm_get (mg_plugins m) pid = Some (ops, st)" "po_security_properties ops st kid = Inl e'" for pid ops st e'
    using wallet_security_errors mgr_okD [OF assms(1) that(1)] that(2) by blast
  then have "e = KeyNotFound kid \<or> (\<exists>pid. e = NoPlugin pid)"
    using assms(2)
    by (auto simp: manager_security_properties_def rbind_eq_Inl plugin_query_def resolve_for_key_def
        get_plugin_def split: option.splits if_splits)
  then show ?thesis by (auto simp: js_error_of_def)
qed

lemma bind_keys_error: "bind_keys pid kids m = (Inl e, m') \<Longrightarrow> js_error_of e \<noteq> JsTrap"
  by (induction pid kids m rule: bind_keys.induct) (auto simp: js_error_of_def split: option.splits if_splits)

lemma check_widths_error: "check_widths ks = Inl e \<Longrightarrow> js_error_of e \<noteq> JsTrap"
  by (induction ks rule: check_widths.induct) (auto simp: js_error_of_def Let_def split: if_splits)

lemma store_errors:
  "from_container parse legacy b = Inl e \<Longrightarrow> js_error_of e \<noteq> JsTrap"
  "fido_from_state fparse b = Inl e \<Longrightarrow> js_error_of e \<noteq> JsTrap"
  "export_container to_vec p = Inl e \<Longrightarrow> js_error_of e \<noteq> JsTrap"
  "fido_export_state fto_vec q = Inl e \<Longrightarrow> js_error_of e \<noteq> JsTrap"
  by (auto simp: from_container_def fido_from_state_def export_container_def fido_export_state_def
      rbind_eq_Inl map_err_eq_Inl split: sum.splits prod.splits dest: check_widths_error)
    (simp_all add: js_error_of_def)

lemma trap_simps:
  "fst (emap f m s) = Inl JsTrap \<longleftrightarrow> fst (m s) = Inl JsTrap"
  "to_plain_js_object H j \<noteq> Inl JsTrap"
  by (auto simp: emap_def ebind_apply to_plain_js_object_def map_err_eq_Inl split: sum.splits)

lemma restoring_never_traps:
  assumes "\<And>e. of_export = Inl e \<Longrightarrow> js_error_of e \<noteq> JsTrap"
  shows "fst (ebind (elift (map_err js_error_of of_export)) (\<lambda>p. let ks = kids p in
    ebind (registering ops (put_in p)) (\<lambda>_. shown (binding_keys pid ks))) s) \<noteq> Inl JsTrap"
  using assms
  by (cases of_export) (auto simp: Let_def ebind_apply registering_def shown_def emap_err_apply map_err_eq_Inl
      binding_keys_def dest: bind_keys_error split: prod.splits)

lemma synchronous_calls_never_trap:
  assumes "wallet_ok X (fst s)" and "\<not> js_async c"
  shows "fst (js_run H c s) \<noteq> Inl JsTrap"
proof -
  have "js_security_properties H kid (fst s) \<noteq> Inl JsTrap" for kid
    using manager_security_errors [OF assms(1), of kid]
    by (auto simp: js_security_properties_def rbind_eq_Inl map_err_eq_Inl trap_simps)
  moreover have "js_export_container H (fst s) \<noteq> Inl JsTrap" "js_export_fido2_state H (fst s) \<noteq> Inl JsTrap"
    by (auto simp: js_export_container_def js_export_fido2_state_def downcast_def rbind_eq_Inl map_err_eq_Inl
        dest: store_errors split: option.splits) (simp_all add: js_error_of_def)
  moreover have "fst (js_import_container H b s) \<noteq> Inl JsTrap" "fst (js_register_fido2_with_state H b s) \<noteq> Inl JsTrap"
    for b unfolding js_import_container_def js_register_fido2_with_state_def
    by (rule restoring_never_traps; erule store_errors)+
  ultimately show ?thesis
    using assms(2)
    by (cases c) (simp_all add: trap_simps js_query_def js_plugin_ids_def js_register_fido2_def registering_def)
qed

subsection \<open>Properties\<close>

text \<open>C13: the cell refuses exactly the conflicts. At any point of a page's session a method traps on its borrow
  if and only if it needs the manager and some call in flight excludes it: that call is exclusive, or
  the new one is and anything at all is in flight. In particular an idle page is never refused, and
  signing, listing and exporting may overlap.\<close>

theorem refused_iff_conflict:
  assumes "js_reachable H s"
  shows "(\<exists>t. js_step H s (Refused c) t) \<longleftrightarrow>
    js_borrows H c \<and> (\<exists>(i, d) \<in> set (js_calls s). js_exclusive c \<or> js_exclusive d)"
proof -
  have cell: "cell_ok s" using js_reachable_ok [OF assms] by simp
  have "(\<exists>t. js_step H s (Refused c) t) \<longleftrightarrow>
      js_borrows H c \<and> try_borrow (js_exclusive c) (js_flag s) = None"
    by (auto simp: js_step.simps)
  also have "try_borrow (js_exclusive c) (js_flag s) = None \<longleftrightarrow>
      (\<exists>(i, d) \<in> set (js_calls s). js_exclusive c \<or> js_exclusive d)"
    using cell by (cases "js_exclusive c"; cases "js_flag s"; cases "js_calls s")
      (auto simp: cell_ok_def try_borrow_eq split: prod.splits)
  finally show ?thesis .
qed

text \<open>C12: calls in flight do not interfere. While a call that generates or deletes is in flight, no other call begins
  and no step but its own end touches the manager or the outside world; while a call that signs, lists
  or exports is in flight, no step changes a key of any plugin or a binding.\<close>

theorem calls_in_flight_are_isolated:
  assumes "js_reachable H s" and "(i, c) \<in> set (js_calls s)" and "js_step H s e t"
  shows "(js_exclusive c \<longrightarrow>
      (\<forall>j d. e \<noteq> Begins j d) \<and> (js_state t = js_state s \<or> e = Dies i \<or> (\<exists>r. e = Ends i r))) \<and>
    (\<not> js_exclusive c \<longrightarrow>
      (\<forall>k. bound (fst (js_state t)) k = bound (fst (js_state s)) k) \<and>
      (\<forall>pid. mgr_held wallet_held (fst (js_state t)) pid = mgr_held wallet_held (fst (js_state s)) pid))"
proof -
  note ok = js_reachable_ok [OF assms(1)]
  note flight = cell_in_flight [OF conjunct1 [OF ok] assms(2)]
  note answer = answer_in_flight [OF conjunct1 [OF ok] assms(2)]
  have ended: "keys_untouched (jh_externals H) (js_state s) u"
    if "\<not> js_exclusive c" "(j, d) \<in> set (js_pending s)" "js_run H d (js_state s) = (r, u)" for j d r u
  proof -
    have "\<not> js_exclusive d" using flight(2) [OF that(1)] that(2) by (auto simp: js_calls_def)
    then show ?thesis using js_shared_untouched that(3) by (blast intro: movesD)
  qed
  have "\<not> js_exclusive c \<Longrightarrow> keys_untouched (jh_externals H) (js_state s) (js_state t)"
    using assms(3) by cases (auto simp: untouched.stay intro: ended answer(2))
  moreover have "(\<forall>j d. e \<noteq> Begins j d) \<and> (js_state t = js_state s \<or> e = Dies i \<or> (\<exists>r. e = Ends i r))"
    if "js_exclusive c"
    using assms(3) flight(1) [OF that] answer(1) [OF _ _ that]
    by cases (auto simp: js_calls_def)
  ultimately show ?thesis using untouched_keys ok by blast
qed

text \<open>A page with a signature and a listing in flight, and one that is generating a key.\<close>

abbreviation ref_page :: "(ref_js, nat) js_host" where
  "ref_page \<equiv> ref_host (exported_of softkey_new)"

definition signing_page :: "(unit, nat) js_session" where
  "signing_page = \<lparr>js_flag = Reading 2, js_pending = [(1, ListKeys), (0, Sign ''k'' [])], js_stuck = [],
     js_state = (js_new ref_externals, 0)\<rparr>"

definition generating_page :: "(unit, nat) js_session" where
  "generating_page = \<lparr>js_flag = Writing, js_pending = [(0, GenerateKey)], js_stuck = [],
     js_state = (js_new ref_externals, 0)\<rparr>"

lemma ref_pages_reachable: "js_reachable ref_page signing_page" "js_reachable ref_page generating_page"
proof -
  let ?s = "js_start ref_externals 0 :: (unit, nat) js_session"
  have start: "js_reachable ref_page ?s" using js_reachable.start [of ref_page 0] by simp
  have one: "js_step ref_page ?s (Begins 0 (Sign ''k'' []))
      (?s\<lparr>js_flag := Reading 1, js_pending := [(0, Sign ''k'' [])]\<rparr>)" (is "js_step _ _ _ ?t")
    using js_step.begins [of "Sign ''k'' []" 0 ?s "Reading 1" ref_page] by (simp add: js_start_def)
  have two: "js_step ref_page ?t (Begins 1 ListKeys) signing_page"
    using js_step.begins [of ListKeys 1 ?t "Reading 2" ref_page]
    by (simp add: js_start_def signing_page_def numeral_2_eq_2)
  show "js_reachable ref_page signing_page"
    by (rule js_reachable.step [OF js_reachable.step [OF start one] two])
  have gen: "js_step ref_page ?s (Begins 0 GenerateKey) generating_page"
    using js_step.begins [of GenerateKey 0 ?s Writing ref_page]
    by (simp add: js_start_def generating_page_def)
  show "js_reachable ref_page generating_page" by (rule js_reachable.step [OF start gen])
qed

theorem refused_iff_conflict_witness:
  "(\<exists>t. js_step ref_page generating_page (Refused ListKeys) t) \<and>
   \<not> (\<exists>t. js_step ref_page signing_page (Refused ListKeys) t)"
proof
  show "\<exists>t. js_step ref_page generating_page (Refused ListKeys) t"
    using refused_iff_conflict [OF ref_pages_reachable(2), of ListKeys]
    by (simp add: js_calls_def generating_page_def)
  show "\<not> (\<exists>t. js_step ref_page signing_page (Refused ListKeys) t)"
    using refused_iff_conflict [OF ref_pages_reachable(1), of ListKeys]
    by (simp add: js_calls_def signing_page_def)
qed

theorem calls_in_flight_are_isolated_witness:
  "\<exists>r t. js_step ref_page signing_page (Ends 0 r) t \<and>
     mgr_held wallet_held (fst (js_state t)) ''softkey'' = {}"
proof -
  obtain r u where run: "js_run ref_page (Sign ''k'' []) (js_state signing_page) = (r, u)"
    by (cases "js_run ref_page (Sign ''k'' []) (js_state signing_page)") blast
  have "fst (manager_sign ''k'' [] ES256 e a (js_new ref_externals :: (unit plugin_state, nat) manager, 0)) =
      Inl (KeyNotFound ''k'')" for e a
    by (simp add: manager_sign_def routed_def get_state_def resolve_for_key_def get_plugin_def
        hm_contains_def js_new_def register_plugin_def manager_new_def default_config_def on_plugin_def
        softkey_plugin_def lift_eff_def softkey_sign_def softkey_new_def ebind_apply find_key_def hm_get_def
        hm_insert_def started_def on_snd_apply on_progress_def)
  then have "r \<noteq> Inl JsTrap"
    using run by (auto simp: signing_page_def trap_simps js_sign_def shown_def emap_err_apply js_error_of_def
        dest!: arg_cong [where f = fst])
  then obtain t where t: "js_step ref_page signing_page (Ends 0 r) t"
    using js_step.ends [of 0 "Sign ''k'' []" signing_page ref_page r u] run
    by (auto simp: signing_page_def)
  have "(1, ListKeys) \<in> set (js_calls signing_page)" by (simp add: js_calls_def signing_page_def)
  from calls_in_flight_are_isolated [OF ref_pages_reachable(1) this t]
  have "mgr_held wallet_held (fst (js_state t)) ''softkey'' =
      mgr_held wallet_held (fst (js_state signing_page)) ''softkey''" by simp
  also have "\<dots> = {}" by (simp add: signing_page_def js_new_def sk_held_def softkey_new_def hm_get_def)
  finally show ?thesis using t by blast
qed

end
