(* ===== verification/Interactions.thy ===== *)
theory Interactions
  imports Fido2_Sign "HOL-Library.Sublist"
begin

section \<open>What a FIDO2 operation asks of its devices\<close>

text \<open>
  Every command to the authenticator may need a touch, every prompt interrupts the user, and every PIN the
  authenticator is given may use up one of its few tries. Nothing in src/ctap2\_client\_pin.rs or
  src/plugins/fido2\_sign.rs repeats a step: here that is said of the whole conversation of a generation or sign,
  whatever the authenticator and the user answer.

  The operations run unchanged over a world with a journal, in which every command sent and every prompt made is an
  event. A \<open>phase\<close> is a step of a ceremony; \<open>course view stp b L m\<close> says that the events of a successful run of \<open>m\<close>
  are, one for one, the phases of an element of \<open>L\<close>, and those of a failing run a beginning of one (not empty, if
  \<open>b\<close>). The course of a sequence is the concatenation of the courses of its steps.
\<close>

datatype event =
  Sent bytes
| Prompted string "pin_request_kind option"
| PromptedAssertion string

type_synonym 'w journal = "event list \<times> 'w"

definition journaled :: "event \<Rightarrow> ('w, 'a) weff \<Rightarrow> ('w journal, 'a) weff" where
  "journaled e m = ebind (emodify (\<lambda>(es, w). (es @ [e], w))) (\<lambda>_. on_snd m)"

definition journal_transport :: "'w ctap2_transport \<Rightarrow> 'w journal ctap2_transport" where
  "journal_transport t =
     \<lparr>ctap2_send_command = (\<lambda>c. journaled (Sent c) (ctap2_send_command t c)),
      performs_user_verification = performs_user_verification t\<rparr>"

definition journal_auth :: "'w auth_callback \<Rightarrow> 'w journal auth_callback" where
  "journal_auth a =
     \<lparr>request_pin = (\<lambda>p. journaled (Prompted p None) (request_pin a p)),
      request_pin_for = (\<lambda>p k. journaled (Prompted p (Some k)) (request_pin_for a p k)),
      request_webauthn_assertion = (\<lambda>p c r i. journaled (PromptedAssertion p) (request_webauthn_assertion a p c r i))\<rparr>"

definition journal_env :: "'w env \<Rightarrow> 'w journal env" where
  "journal_env = lift_env"

lemma journal_uv [simp]: "performs_user_verification (journal_transport t) = performs_user_verification t"
  by (simp add: journal_transport_def)

subsection \<open>Phases and courses\<close>

datatype phase = GetInfo | EnterThePin | ChooseAPin | AgreeOnKey | SetThePin | GetToken | Ceremony

text \<open>The event of a phase, for a ceremony that needs the permission and sends a command of \<open>C\<close>.\<close>

fun phase_event :: "externals \<Rightarrow> byte \<Rightarrow> bytes set \<Rightarrow> phase \<Rightarrow> event \<Rightarrow> bool" where
  "phase_event X perm C GetInfo e = (e = Sent [CTAP2_GET_INFO])"
| "phase_event X perm C EnterThePin e = (e = Prompted ''fido2'' (Some EnterPin))"
| "phase_event X perm C ChooseAPin e = (\<exists>n. e = Prompted ''fido2'' (Some (SetNewPin n)))"
| "phase_event X perm C AgreeOnKey e = (\<exists>p. e = Sent (key_agreement_command X p))"
| "phase_event X perm C SetThePin e = (\<exists>c \<in> set_pin_commands X. e = Sent c)"
| "phase_event X perm C GetToken e = (\<exists>c \<in> token_commands X perm (Some RAW_SIGN_RP_ID). e = Sent c)"
| "phase_event X perm C Ceremony e = (\<exists>c \<in> C. e = Sent c)"

definition token_courses :: "phase list set" where
  "token_courses = {[GetInfo, EnterThePin, AgreeOnKey, GetToken],
     [GetInfo, ChooseAPin, AgreeOnKey, SetThePin, AgreeOnKey, GetToken]}"

definition courses :: "'w ctap2_transport \<Rightarrow> phase list set" where
  "courses t =
     (if performs_user_verification t then {[Ceremony]} else (\<lambda>c. c @ [Ceremony]) ` token_courses)"

lemma courses_nonempty [simp]: "[] \<notin> courses t"
  by (auto simp: courses_def)

text \<open>The commands that are the ceremony of an operation; \<open>uv\<close>: the transport verifies the user itself.\<close>

definition generate_commands :: "externals \<Rightarrow> bool \<Rightarrow> algorithm \<Rightarrow> bytes set" where
  "generate_commands X uv alg =
     {c. \<exists>user_id client_data_hash param. (param = None) = uv \<and>
       c = build_make_credential_request X RAW_SIGN_RP_ID user_id client_data_hash
         [if alg = Bls12381G1Schnorr then ECSDSA_BLS12381_BP1_SHA256_SEC1 else ARKG_P256_ESP256] param}"

definition sign_commands :: "externals \<Rightarrow> bool \<Rightarrow> stored_fido_key \<Rightarrow> bytes \<Rightarrow> bytes set" where
  "sign_commands X uv k data =
     {c. \<exists>challenge tbs param. (param = None) = uv \<and> sign_tbs X (key_algorithm k) data = Inr tbs \<and>
       c = build_get_assertion_request X RAW_SIGN_RP_ID challenge (fk_credential_id k)
         (fido_sign_input X k tbs) param}"

definition ends_in :: "bool \<Rightarrow> phase list set \<Rightarrow> 'e + 'a \<Rightarrow> phase list \<Rightarrow> bool" where
  "ends_in b L r ss \<longleftrightarrow>
     (case r of Inr _ \<Rightarrow> ss \<in> L | Inl _ \<Rightarrow> (\<exists>l \<in> L. prefix ss l) \<and> (b \<longrightarrow> ss \<noteq> []))"

definition course ::
  "('s \<Rightarrow> event list) \<Rightarrow> (phase \<Rightarrow> event \<Rightarrow> bool) \<Rightarrow> bool \<Rightarrow> phase list set \<Rightarrow> ('s, 'e, 'a) eff \<Rightarrow> bool" where
  "course view stp b L m \<longleftrightarrow>
     (\<forall>s. \<exists>ss es. view (snd (m s)) = view s @ es \<and> list_all2 stp ss es \<and>
        ends_in b L (fst (m s)) ss)"

lemma ends_in_simps [simp]:
  "ends_in b L (Inr x) ss \<longleftrightarrow> ss \<in> L"
  "ends_in b L (Inl e) ss \<longleftrightarrow> (\<exists>l \<in> L. prefix ss l) \<and> (b \<longrightarrow> ss \<noteq> [])"
  by (simp_all add: ends_in_def)

lemma ends_in_mono: "ends_in b L r ss \<Longrightarrow> L \<subseteq> M \<Longrightarrow> (c \<Longrightarrow> b) \<Longrightarrow> ends_in c M r ss"
  by (cases r) auto

lemma courseD:
  assumes "course view stp b L m" and "m s = (r, t)"
  obtains ss es where "view t = view s @ es" "list_all2 stp ss es" "ends_in b L r ss"
  using assms unfolding course_def by (metis fst_conv snd_conv)

lemma courseI:
  assumes "\<And>s r t. m s = (r, t) \<Longrightarrow> \<exists>ss es. view t = view s @ es \<and> list_all2 stp ss es \<and> ends_in b L r ss"
  shows "course view stp b L m"
  unfolding course_def using assms by (metis prod.collapse)

text \<open>A silent step never fails and is not an event.\<close>

definition silent :: "('s \<Rightarrow> event list) \<Rightarrow> ('s, 'e, 'a) eff \<Rightarrow> bool" where
  "silent view m \<longleftrightarrow> (\<forall>s. (\<exists>x. fst (m s) = Inr x) \<and> view (snd (m s)) = view s)"

lemma course_free:
  "course view stp False {[]} (ereturn x)" "L \<noteq> {} \<Longrightarrow> course view stp False L (ethrow e)"
  "course view stp False {[]} (elift q)"
  by (rule courseI; auto; fail)+ (rule courseI, case_tac r, auto)

lemma course_mono: "course view stp b L m \<Longrightarrow> L \<subseteq> M \<Longrightarrow> (c \<Longrightarrow> b) \<Longrightarrow> course view stp c M m"
  unfolding course_def using ends_in_mono by meson

lemma course_silent:
  assumes "silent view m" and "\<And>x. course view stp b L (f x)"
  shows "course view stp b L (ebind m f)"
proof (rule courseI)
  fix s r u assume run: "ebind m f s = (r, u)"
  obtain x t where m: "m s = (Inr x, t)" "view t = view s"
    using assms(1) by (metis silent_def prod.collapse)
  then have "f x t = (r, u)" using run by (simp add: ebind_Inr)
  from courseD [OF assms(2) this] show
    "\<exists>ss es. view u = view s @ es \<and> list_all2 stp ss es \<and> ends_in b L r ss" using m(2) by metis
qed

lemma course_seq:
  assumes "course view stp b L m" and "\<And>x. course view stp False K (f x)" and "K \<noteq> {}"
    and "b \<Longrightarrow> [] \<notin> L" and "M = (\<Union>l \<in> L. (@) l ` K)"
  shows "course view stp b M (ebind m f)"
proof (rule courseI)
  fix s r u assume run: "ebind m f s = (r, u)"
  obtain q t where m: "m s = (q, t)" by (metis prod.collapse)
  obtain ss es where s: "view t = view s @ es" "list_all2 stp ss es" "ends_in b L q ss"
    using courseD [OF assms(1) m] .
  show "\<exists>ss es. view u = view s @ es \<and> list_all2 stp ss es \<and> ends_in b M r ss"
  proof (cases q)
    case (Inl e)
    then have "r = Inl e" "u = t" using run m by (simp_all add: ebind_Inl)
    moreover have "ends_in b M (Inl e) ss"
      using s(3) Inl assms(3,5) by (fastforce intro: prefix_prefix)
    ultimately show ?thesis using s by blast
  next
    case (Inr x)
    then have "f x t = (r, u)" using run m by (simp add: ebind_Inr)
    then obtain ss' es' where s': "view u = view t @ es'" "list_all2 stp ss' es'" "ends_in False K r ss'"
      by (rule courseD [OF assms(2)])
    have b: "b \<longrightarrow> ss \<noteq> []" using s(3) Inr assms(4) by auto
    have M: "ss @ k \<in> M" if "k \<in> K" for k using that s(3) Inr assms(5) by auto
    have "ends_in b M r (ss @ ss')"
    proof (cases r)
      case (Inl e)
      then obtain k where "k \<in> K" "prefix (ss @ ss') (ss @ k)" using s'(3) by auto
      then show ?thesis using Inl M [of k] b by (simp only: ends_in_simps) blast
    next
      case (Inr y)
      then show ?thesis using s'(3) M by simp
    qed
    moreover have "list_all2 stp (ss @ ss') (es @ es')" using s(2) s'(2) by (rule list_all2_appendI)
    ultimately show ?thesis using s(1) s'(1) by (metis append.assoc)
  qed
qed

text \<open>The rules as the proofs use them: one event and the rest, or a check and the rest.\<close>

lemma course_event:
  assumes "course view stp True {[ph]} m" and "\<And>x. course view stp False L (f x)" and "L \<noteq> {}"
    and "M = (#) ph ` L"
  shows "course view stp b M (ebind m f)"
  by (rule course_mono [OF course_seq [OF assms(1-3)]]) (auto simp: assms(4))

lemma course_check: "(\<And>x. course view stp False L (f x)) \<Longrightarrow> L \<noteq> {} \<Longrightarrow> course view stp False L (ebind (elift r) f)"
  by (rule course_seq [OF course_free(3)]) simp_all

lemma course_then:
  "\<lbrakk>course view stp True L m; \<And>x. course view stp False {[]} (f x); [] \<notin> L\<rbrakk> \<Longrightarrow> course view stp True L (ebind m f)"
  by (rule course_seq) auto

lemma course_last: "course view stp True {[ph]} m \<Longrightarrow> course view stp b {[ph]} (ebind m (\<lambda>x. elift (f x)))"
  by (rule course_event [OF _ course_free(3)]) simp_all

lemma course_pair: "(\<And>x y. course view stp b L (f x y)) \<Longrightarrow> course view stp b L (case p of (x, y) \<Rightarrow> f x y)"
  by (cases p) simp

lemma course_if:
  "\<lbrakk>c \<Longrightarrow> course view stp b L m; \<not> c \<Longrightarrow> course view stp b L n\<rbrakk> \<Longrightarrow> course view stp b L (if c then m else n)"
  by simp

lemma ebind_nested:
  "ebind (ebind m g) f = ebind m (\<lambda>x. ebind (g x) f)" "ebind (ereturn y) f = f y"
  "ebind (elift (Inr y)) f = f y"
  by (auto simp: fun_eq_iff ebind_apply split: sum.split)

lemma course_on_snd: "course view stp b L m \<Longrightarrow> course (\<lambda>s. view (snd s)) stp b L (on_snd m)"
  by (simp add: course_def on_snd_apply split_paired_all)

lemma silent_on_snd: "silent view m \<Longrightarrow> silent (\<lambda>s. view (snd s)) (on_snd m)"
  by (simp add: silent_def on_snd_apply split_paired_all)

subsection \<open>The courses of the PIN exchange and of the ceremonies\<close>

text \<open>
  What the operations need of a world with a journal: a command or a prompt is one event, and nothing else is an
  event.
\<close>

locale conversing =
  fixes view :: "'v \<Rightarrow> event list"
    and t :: "'v ctap2_transport"
    and auth :: "'v auth_callback"
    and env :: "'v env"
  assumes send: "stp ph (Sent c) \<Longrightarrow> course view stp True {[ph]} (ctap2_send_command t c)"
    and prompt: "stp ph (Prompted plugin_id (Some kind)) \<Longrightarrow>
      course view stp True {[ph]} (request_pin_for auth plugin_id kind)"
    and rand: "silent view (rand_fill env n)"
    and secret: "silent view (generate_secret env)"
    and clock: "silent view (now_unix env)"
    and progress: "silent view (on_progress env p)"
begin

lemma read_pin_info: "course view (phase_event X perm C) True {[GetInfo]} (read_pin_info X t)"
  unfolding read_pin_info_def
  by (rule course_event [OF send, where ph = GetInfo and L = "{[]}"] course_check course_free | simp)+

lemma get_key_agreement: "course view (phase_event X perm C) True {[AgreeOnKey]} (get_key_agreement X t p)"
  unfolding get_key_agreement_def
  by (rule course_event [OF send, where ph = AgreeOnKey and L = "{[]}"] course_check course_free
      | auto simp: key_agreement_command_def)+

lemma set_pin: "course view (phase_event X perm C) True {[AgreeOnKey, SetThePin]} (set_pin X env t p pin)"
  unfolding set_pin_def
  by (rule course_silent [OF secret] course_silent [OF rand] course_pair course_check
      course_event [OF get_key_agreement, where L = "{[SetThePin]}"]
      course_event [OF send, where ph = SetThePin and L = "{[]}"] course_free | auto simp: set_pin_commands_def)+

lemma encrypt: "course view stp False {[]} (encrypt X env p key d)"
proof -
  have iv: "silent view (pick_iv env p)"
    by (cases p) (simp_all only: pick_iv_def pin_uv_auth_protocol.case rand, simp add: silent_def)
  show ?thesis
    unfolding encrypt_def by (rule course_silent [OF iv] course_check course_free | simp)+
qed

lemma send_get_pin_token:
  "course view (phase_event X perm C) True {[GetToken]}
     (send_get_pin_token X t p k h perm (Some RAW_SIGN_RP_ID))"
  unfolding send_get_pin_token_def
  by (rule course_event [OF send, where ph = GetToken and L = "{[]}"] course_check course_free
      | auto simp: token_commands_def)+

lemma token_with_pin:
  "course view (phase_event X perm C) True {[AgreeOnKey, GetToken]}
     (token_with_pin X env t p pin perm (Some RAW_SIGN_RP_ID))"
proof -
  have enc: "course view (phase_event X perm C) False {[GetToken]} (ebind (encrypt X env p key d) f)"
    if "\<And>x. course view (phase_event X perm C) False {[GetToken]} (f x)" for key d and f :: "bytes \<Rightarrow> _"
    by (rule course_seq [OF encrypt that]) simp_all
  show ?thesis
    unfolding token_with_pin_def
    by (rule course_silent [OF secret] course_check enc
        course_event [OF get_key_agreement, where L = "{[GetToken]}"]
        course_event [OF send_get_pin_token, where L = "{[]}"] course_free | simp)+
qed

lemma acquire:
  "course view (phase_event X perm C) True token_courses
     (acquire_pin_uv_auth_token X env t auth ''fido2'' perm (Some RAW_SIGN_RP_ID))"
  unfolding acquire_pin_uv_auth_token_def
proof (rule course_event [OF read_pin_info, where L = "{[EnterThePin, AgreeOnKey, GetToken],
    [ChooseAPin, AgreeOnKey, SetThePin, AgreeOnKey, GetToken]}"], goal_cases)
  case (1 info)
  have new: "course view (phase_event X perm C) False {[AgreeOnKey, SetThePin, AgreeOnKey, GetToken]}
      (ebind (set_pin X env t p pin) (\<lambda>_. token_with_pin X env t p pin' perm (Some RAW_SIGN_RP_ID)))" for p pin pin'
    by (rule course_mono [OF course_seq [OF set_pin course_mono [OF token_with_pin]]])
      (rule subset_refl refl | simp)+
  show ?case
  proof (cases "pi_pin_state info = PinNotSet")
    case True
    show ?thesis
      unfolding if_P [OF True] Let_def
      by (rule course_mono [of _ _ False "{[ChooseAPin, AgreeOnKey, SetThePin, AgreeOnKey, GetToken]}"])
        (rule course_event [OF prompt, where ph = ChooseAPin and L = "{[AgreeOnKey, SetThePin, AgreeOnKey, GetToken]}"]
          course_check new | simp)+
  next
    case False
    show ?thesis
      unfolding if_not_P [OF False] Let_def
      by (rule course_mono [of _ _ False "{[EnterThePin, AgreeOnKey, GetToken]}"])
        (rule course_event [OF prompt, where ph = EnterThePin and L = "{[AgreeOnKey, GetToken]}"]
          course_if course_free course_mono [OF token_with_pin] | simp)+
  qed
qed (simp_all add: token_courses_def)

lemma pin_uv_auth:
  assumes "\<And>param. (param = None) = performs_user_verification t \<Longrightarrow>
      course view (phase_event X perm C) True {[Ceremony]} (f param)"
  shows "course view (phase_event X perm C) True (courses t) (ebind (pin_uv_auth_for X env t auth perm RAW_SIGN_RP_ID msg) f)"
proof (cases "performs_user_verification t")
  case True
  then show ?thesis using assms by (simp add: pin_uv_auth_for_def ebind_nested courses_def)
next
  case False
  have "course view (phase_event X perm C) True (courses t) (ebind (acquire_pin_uv_auth_token X env t auth
      ''fido2'' perm (Some RAW_SIGN_RP_ID)) (\<lambda>s. f (Some (authenticate X s msg, protocol_int s))))"
    using assms [of "Some _"] False
    by (intro course_seq [OF acquire course_mono [where L = "{[Ceremony]}"]])
      (auto simp: courses_def token_courses_def)
  then show ?thesis using assms [of "Some _"] False by (simp add: pin_uv_auth_for_def ebind_nested)
qed

text \<open>The ceremony's one command, with a PIN parameter exactly when the transport does not verify the user.\<close>

lemma make_credential:
  assumes "\<And>param. (param = None) = performs_user_verification t \<Longrightarrow>
      build_make_credential_request X RAW_SIGN_RP_ID uid cdh algs param \<in> C"
  shows "course view (phase_event X PERMISSION_MAKE_CREDENTIAL C) True (courses t)
    (make_credential X env t auth RAW_SIGN_RP_ID uid cdh algs)"
  unfolding make_credential_def
  by (rule pin_uv_auth, rule course_last [OF send])
    (use assms in auto)

lemma get_assertion:
  assumes "\<And>param. (param = None) = performs_user_verification t \<Longrightarrow>
      build_get_assertion_request X RAW_SIGN_RP_ID ch cid inp param \<in> C"
  shows "course view (phase_event X PERMISSION_GET_ASSERTION C) True (courses t)
    (get_assertion X env t auth RAW_SIGN_RP_ID ch cid inp)"
  unfolding get_assertion_def
  by (rule pin_uv_auth, rule course_last [OF send])
    (use assms in auto)

text \<open>The plugin runs the ceremonies beside its own state.\<close>

abbreviation plugin_view :: "'p \<times> 'v \<Rightarrow> event list" where
  "plugin_view s \<equiv> view (snd s)"

lemma plugin_silent:
  "silent plugin_view get_state" "silent plugin_view (modify_state f)"
  "silent plugin_view (started op env)" "silent plugin_view (completed env)"
  "silent plugin_view (on_snd (rand_fill env n))" "silent plugin_view (on_snd (now_unix env))"
  "silent plugin_view (on_snd (on_progress env p))"
  unfolding started_def completed_def
  by (simp_all only: silent_on_snd rand clock progress)
    (simp_all add: silent_def get_state_def modify_state_def)

lemmas plugin_steps = course_silent [OF plugin_silent(1)] course_silent [OF plugin_silent(2)]
  course_silent [OF plugin_silent(3)] course_silent [OF plugin_silent(4)] course_silent [OF plugin_silent(5)]
  course_silent [OF plugin_silent(6)] course_silent [OF plugin_silent(7)] course_pair course_check

lemma store_generated: "course plugin_view stp False {[]} (store_generated_key X env result x y kh cdh)"
  unfolding store_generated_key_def Let_def by (rule plugin_steps course_free | simp)+

lemma p256_key: "course view stp False {[]} (p256_generated_key X env cose)"
  unfolding p256_generated_key_def
proof (rule course_check, goal_cases)
  case (1 v)
  show ?case
    by (cases "parse_arkg_pub_seed X v")
      (simp_all only: sum.case, (rule course_silent [OF rand] course_check course_pair course_free | simp)+)
qed simp

lemma generate:
  assumes "alg \<noteq> EdDSA"
  shows "course plugin_view (phase_event X PERMISSION_MAKE_CREDENTIAL
      (generate_commands X (performs_user_verification t) alg)) True (courses t)
    (fido_generate_key X t alg env auth)"
proof -
  let ?alg = "if alg = Bls12381G1Schnorr then ECSDSA_BLS12381_BP1_SHA256_SEC1 else ARKG_P256_ESP256"
  have cred: "course plugin_view (phase_event X PERMISSION_MAKE_CREDENTIAL
      (generate_commands X (performs_user_verification t) alg)) True (courses t)
    (on_snd (make_credential X env t auth RAW_SIGN_RP_ID uid cdh [?alg]))" for uid cdh
    by (rule course_on_snd, rule make_credential) (auto simp: generate_commands_def)
  have tail: "course plugin_view stp False {[]} (ebind (if c then elift r else on_snd (p256_generated_key X env cose)) f)"
    if "\<And>x. course plugin_view stp False {[]} (f x)" for stp c r cose and f :: "_ \<Rightarrow> ('p \<times> 'v, 'x) weff"
    by (rule course_seq [OF course_if [OF course_free(3) course_on_snd [OF p256_key]] that]) simp_all
  have stored: "course plugin_view stp False {[]} (ebind (store_generated_key X env result x y kh cdh) f)"
    if "\<And>x. course plugin_view stp False {[]} (f x)" for stp result x y kh cdh and f :: "_ \<Rightarrow> (_ \<times> 'v, 'x) weff"
    by (rule course_seq [OF store_generated that]) simp_all
  show ?thesis
    unfolding fido_generate_key_def Let_def
    unfolding if_not_P [OF assms]
    by (rule plugin_steps course_then [OF cred] tail stored course_free courses_nonempty)+
qed

lemma plugin_courseD:
  assumes "course plugin_view stp b L m" and "m (p, v) = (r, (p', v'))"
  shows "\<exists>ss es. view v' = view v @ es \<and> list_all2 stp ss es \<and> ends_in b L r ss"
  by (rule courseD [OF assms]) auto

text \<open>A sign once the key is found and the data has its digest.\<close>

lemma sign_found:
  assumes "hm_get (fd_keys p) kid = Some k" and "sign_tbs X (key_algorithm k) data = Inr tbs"
    and "sign_inner X t kid data env auth (p, v) = (r, (p', v'))"
  shows "\<exists>ss es. view v' = view v @ es \<and>
    list_all2 (phase_event X PERMISSION_GET_ASSERTION
      (sign_commands X (performs_user_verification t) k data)) ss es \<and> ends_in True (courses t) r ss"
proof -
  let ?rest = "ebind (started ''sign'' env) (\<lambda>_. ebind (on_snd (on_progress env WaitingForUser)) (\<lambda>_.
     ebind (on_snd (rand_fill env 32)) (\<lambda>challenge.
     ebind (on_snd (get_assertion X env t auth RAW_SIGN_RP_ID challenge (fk_credential_id k)
       (fido_sign_input X k tbs))) (\<lambda>result.
     ebind (completed env) (\<lambda>_.
     ebind (elift (raw_signature X (key_algorithm k) (sr_signature result))) (\<lambda>signature.
       ereturn (signature, sr_user_verified result, sr_verified_factor result)))))))
    :: (fido_state \<times> 'v, bytes \<times> bool \<times> auth_factor option) weff"
  have same: "sign_inner X t kid data env auth (p, v) = ?rest (p, v)"
    using assms(1,2) by (simp add: sign_inner_def find_key_def ebind_nested(3))
  have ga: "course plugin_view (phase_event X PERMISSION_GET_ASSERTION
      (sign_commands X (performs_user_verification t) k data)) True (courses t)
    (on_snd (get_assertion X env t auth RAW_SIGN_RP_ID ch (fk_credential_id k) (fido_sign_input X k tbs)))" for ch
    by (rule course_on_snd, rule get_assertion) (use assms(2) in \<open>auto simp: sign_commands_def\<close>)
  have "course plugin_view (phase_event X PERMISSION_GET_ASSERTION
      (sign_commands X (performs_user_verification t) k data)) True (courses t) ?rest"
    by (rule plugin_steps course_then [OF ga] course_free courses_nonempty  | simp)+
  then show ?thesis by (rule plugin_courseD) (rule trans [OF same [symmetric] assms(3)])
qed

end

text \<open>A world with a journal is such a world, and so is one in which the recorder of a sign listens too.\<close>

lemma journaled_course:
  assumes "stp ph e"
  shows "course fst stp True {[ph]} (journaled e m)"
proof (rule courseI)
  fix s r t assume "journaled e m s = (r, t)"
  then have "fst t = fst s @ [e]"
    by (cases s) (auto simp: journaled_def on_snd_apply)
  then show "\<exists>ss es. fst t = fst s @ es \<and> list_all2 stp ss es \<and> ends_in True {[ph]} r ss"
    using assms by (intro exI [of _ "[ph]"] exI [of _ "[e]"]) (cases r; simp)
qed

lemma lifted_silent: "silent fst (on_snd m) = (\<forall>w. \<exists>x. fst (m w) = Inr x)"
  by (simp add: silent_def on_snd_apply split_paired_all)

lemma lifted_now: "now_unix (lift_env env) = on_snd (now_unix env)"
  by (auto simp: fun_eq_iff on_snd_apply now_unix_def etotal_apply lift_env_def split: prod.split)

lemma env_total:
  "fst (rand_fill env n w) = Inr (fst (env_rand env n w))"
  "fst (generate_secret env w) = Inr (fst (env_generate_secret env w))"
  "fst (now_unix env w) = Inr (fst (env_now env w))" "fst (on_progress env g w) = Inr ()"
  by (simp_all add: rand_fill_def generate_secret_def now_unix_def on_progress_def etotal_apply)

interpretation journal: conversing fst "journal_transport t" "journal_auth a" "journal_env env"
  for t :: "'w ctap2_transport" and a :: "'w auth_callback" and env :: "'w env"
  by unfold_locales
    (simp_all add: journal_transport_def journal_auth_def journaled_course journal_env_def lifted_steps lifted_now
      lifted_silent env_total)

lemma recorded_prompt:
  assumes "course view stp True {[ph]} ask"
  shows "course (\<lambda>s. view (snd s)) stp True {[ph]} (record_pin X p ask)"
proof (rule courseI)
  fix s r u assume run: "record_pin X p ask s = (r, u)"
  obtain log w where s: "s = (log, w)" by fastforce
  have u: "snd u = snd (ask w)" "r = fst (ask w)" using run s by (auto simp: record_pin_apply)
  obtain ss es where "view (snd (ask w)) = view w @ es" "list_all2 stp ss es" "ends_in True {[ph]} (fst (ask w)) ss"
    by (rule courseD [OF assms, of w "fst (ask w)" "snd (ask w)"]) simp
  then show "\<exists>ss es. view (snd u) = view (snd s) @ es \<and> list_all2 stp ss es \<and> ends_in True {[ph]} r ss"
    using u s by auto
qed

interpretation recorded: conversing "\<lambda>s :: pin_log \<times> 'w journal. fst (snd s)"
  "lift_transport (journal_transport t)" "recording_auth X (journal_auth a)" "lift_env (journal_env env)"
  for X and t :: "'w ctap2_transport" and a :: "'w auth_callback" and env :: "'w env"
proof (unfold_locales, goal_cases)
  case (1 stp ph c)
  then show ?case using course_on_snd [OF journal.send] by simp
next
  case (2 stp ph p k)
  then show ?case using recorded_prompt [OF journal.prompt] by (simp add: recorded_request)
qed (simp_all only: lifted_steps lifted_now silent_on_snd journal.rand journal.secret journal.clock
  journal.progress)

subsection \<open>The conversation of an operation\<close>

text \<open>
  \<open>conversation X t perm C refused r es\<close>: a refused operation asks for nothing and fails; any other has for its events
  the phases of a course from the first on, all of them when it succeeds, and its ceremony's command is of \<open>C\<close>.
\<close>

definition conversation ::
  "externals \<Rightarrow> 't ctap2_transport \<Rightarrow> byte \<Rightarrow> bytes set \<Rightarrow> bool \<Rightarrow> wscd_error + 'a \<Rightarrow> event list \<Rightarrow> bool" where
  "conversation X t perm C refused r es \<longleftrightarrow>
     (if refused then es = [] \<and> \<not> is_ok r
      else \<exists>ss. list_all2 (phase_event X perm C) ss es \<and> ss \<noteq> [] \<and>
        (if is_ok r then ss \<in> courses t else \<exists>c \<in> courses t. prefix ss c))"

definition sign_refused :: "externals \<Rightarrow> fido_state \<Rightarrow> key_id \<Rightarrow> bytes \<Rightarrow> bool" where
  "sign_refused X p kid data =
     (case hm_get (fd_keys p) kid of
        None \<Rightarrow> True
      | Some k \<Rightarrow> signs_prehashed_input (key_algorithm k) \<and> length data \<noteq> BLS12381_KEYBIND_TBS_LEN)"

definition the_sign_commands :: "externals \<Rightarrow> bool \<Rightarrow> fido_state \<Rightarrow> key_id \<Rightarrow> bytes \<Rightarrow> bytes set" where
  "the_sign_commands X uv p kid data =
     (case hm_get (fd_keys p) kid of
        None \<Rightarrow> {} | Some k \<Rightarrow> sign_commands X uv k data)"

lemma courses_journal [simp]: "courses (journal_transport t) = courses t" "courses (lift_transport t) = courses t"
  by (simp_all add: courses_def)

lemma conversationI:
  assumes "\<exists>ss es'. es = [] @ es' \<and> list_all2 (phase_event X perm C) ss es' \<and> ends_in True (courses t) r ss"
  shows "conversation X t perm C False r es"
proof -
  obtain ss where ss: "list_all2 (phase_event X perm C) ss es" "ends_in True (courses t) r ss"
    using assms by auto
  have "[] \<notin> courses t" by simp
  then have "ss \<noteq> [] \<and> (if is_ok r then ss \<in> courses t else \<exists>c \<in> courses t. prefix ss c)"
    using ss(2) by (cases r) auto
  then show ?thesis using ss(1) unfolding conversation_def by auto
qed

text \<open>What a conversation says of the result is whether there is one, and of the transport whether it verifies the user.\<close>

lemma conversation_transfer:
  assumes "conversation X t perm C refused q es" and "is_ok q = is_ok r" and "courses t = courses t'"
  shows "conversation X t' perm C refused r es"
  using assms(1) unfolding conversation_def assms(2,3) .

lemma tbs_refused: "(\<exists>e. sign_tbs X alg data = Inl e) =
    (signs_prehashed_input alg \<and> length data \<noteq> BLS12381_KEYBIND_TBS_LEN)"
  by (simp add: sign_tbs_def)

context conversing
begin

lemma silent_env: "view (env_progress env g v) = view v" "view (snd (env_rand env n v)) = view v"
  using progress rand by (simp_all add: silent_def on_progress_def rand_fill_def etotal_apply)

lemma sign_inner_conversation:
  assumes "sign_inner X t kid data env auth (p, v) = (r, (p', v'))" and "view v = []"
  shows "conversation X t PERMISSION_GET_ASSERTION (the_sign_commands X (performs_user_verification t) p kid data)
    (sign_refused X p kid data) r (view v')"
proof (cases "hm_get (fd_keys p) kid")
  case None
  then have "\<not> is_ok r" "v' = env_progress env (Started ''sign'') v"
    using assms(1) by (auto simp: sign_inner_def find_key_def)
  then show ?thesis
    using None assms(2) by (simp add: conversation_def sign_refused_def silent_env)
next
  case (Some k)
  show ?thesis
  proof (cases "sign_tbs X (key_algorithm k) data")
    case (Inl e)
    have "\<not> is_ok r \<and> v' = snd (env_rand env 32 (env_progress env WaitingForUser
        (env_progress env (Started ''sign'') v)))"
      using assms(1) Some Inl unfolding sign_inner_def by (cases r) (auto simp: eff_elims)
    then show ?thesis
      using Some Inl assms(2) tbs_refused [of X "key_algorithm k" data]
      by (simp add: conversation_def sign_refused_def silent_env)
  next
    case (Inr tbs)
    then have "\<not> sign_refused X p kid data"
      using Some tbs_refused [of X "key_algorithm k" data] by (simp add: sign_refused_def)
    then show ?thesis
      using conversationI sign_found [OF Some Inr assms(1)] Some assms(2)
      by (simp add: the_sign_commands_def)
  qed
qed

end

text \<open>The three operations, from an empty journal.\<close>

lemma generate_conversation:
  assumes "fido_generate_key X (journal_transport t) alg (journal_env env) (journal_auth auth) (p, ([], w))
    = (r, (p', (es, w')))"
  shows "conversation X t PERMISSION_MAKE_CREDENTIAL (generate_commands X (performs_user_verification t) alg)
    (alg = EdDSA) r es"
proof (cases "alg = EdDSA")
  case True
  then show ?thesis using assms by (auto simp: fido_generate_key_def conversation_def)
next
  case False
  show ?thesis
    using journal.plugin_courseD [OF journal.generate [OF False, of X t env auth] assms] False
      conversationI [of es X _ _ t r] by simp
qed

lemma sign_conversation:
  assumes "fido_sign X (journal_transport t) kid data alg (journal_env env) (journal_auth auth) (p, ([], w))
    = (r, (p', (es, w')))"
  shows "conversation X t PERMISSION_GET_ASSERTION (the_sign_commands X (performs_user_verification t) p kid data)
    (sign_refused X p kid data) r es"
proof -
  obtain q where q: "sign_inner X (journal_transport t) kid data (journal_env env) (journal_auth auth) (p, ([], w))
      = (q, (p', (es, w')))" "is_ok q = is_ok r"
    using assms unfolding fido_sign_def by (cases r) (auto simp: eff_elims)
  show ?thesis
    using conversation_transfer [OF journal.sign_inner_conversation [OF q(1)] q(2), of t]
    by simp
qed

definition factors_refused :: "'t ctap2_transport \<Rightarrow> sign_options \<Rightarrow> bool" where
  "factors_refused t opts \<longleftrightarrow>
     validate_options opts \<noteq> Inr () \<or> so_require_fresh opts \<and> performs_user_verification t"

lemma sign_with_factors_conversation:
  assumes "fido_sign_with_factors X (journal_transport t) kid data alg opts (journal_env env) (journal_auth auth)
    (p, ([], w)) = (r, (p', (es, w')))"
  shows "conversation X t PERMISSION_GET_ASSERTION (the_sign_commands X (performs_user_verification t) p kid data)
    (factors_refused t opts \<or> sign_refused X p kid data) r es"
proof (cases "factors_refused t opts")
  case True
  then show ?thesis
    using assms by (cases "validate_options opts")
      (auto simp: factors_refused_def fido_sign_with_factors_def conversation_def)
next
  case False
  then have ok: "validate_options opts = Inr ()" "\<not> (so_require_fresh opts \<and> performs_user_verification t)"
    by (auto simp: factors_refused_def)
  obtain q log where q: "sign_inner X (lift_transport (journal_transport t)) kid data (lift_env (journal_env env))
      (recording_auth X (journal_auth auth)) (p, ([], ([], w))) = (q, (p', (log, (es, w'))))" "is_ok q = is_ok r"
    using assms ok unfolding fido_sign_with_factors_def
    by (cases r) (auto simp: eff_elims run_recorded_eq)
  show ?thesis
    using conversation_transfer [OF recorded.sign_inner_conversation [OF q(1)] q(2), of t] False
    by simp
qed

text \<open>C28: the whole conversation of a FIDO2 operation, whatever the authenticator and the user answer. An operation
  that is refused beforehand (EdDSA, an unknown key, data of the wrong length for its algorithm, options that are not
  valid or ask for a fresh check of a transport that verifies the user itself) sends nothing and asks for nothing. Any
  other, on a transport that verifies the user itself, sends exactly the ceremony's one command, without a PIN
  parameter, and never asks for a PIN. On any other transport its commands and prompts are, in this order: getInfo,
  one prompt, for the PIN or, when the authenticator has none, for a new one, which is then set with a key agreement and
  one setPIN; a key agreement and one request for a token with the ceremony's permission and relying party; the
  ceremony's command, with a PIN parameter. A successful run makes all of them, a failing one a beginning: at most six
  commands and one prompt, no step repeated or retried.\<close>

theorem fido_interactions_are_bounded:
  "(case fido_generate_key X (journal_transport t) alg (journal_env env) (journal_auth auth) (p, ([], w)) of
      (r, (_, (es, _))) \<Rightarrow> conversation X t PERMISSION_MAKE_CREDENTIAL
        (generate_commands X (performs_user_verification t) alg) (alg = EdDSA) r es) \<and>
   (case fido_sign X (journal_transport t) kid data alg (journal_env env) (journal_auth auth) (p, ([], w)) of
      (r, (_, (es, _))) \<Rightarrow> conversation X t PERMISSION_GET_ASSERTION (the_sign_commands X (performs_user_verification t) p kid data)
        (sign_refused X p kid data) r es) \<and>
   (case fido_sign_with_factors X (journal_transport t) kid data alg opts (journal_env env) (journal_auth auth)
        (p, ([], w)) of
      (r, (_, (es, _))) \<Rightarrow> conversation X t PERMISSION_GET_ASSERTION (the_sign_commands X (performs_user_verification t) p kid data)
        (factors_refused t opts \<or> sign_refused X p kid data) r es)"
  by (auto split: prod.split intro: generate_conversation sign_conversation sign_with_factors_conversation)

end
