(* ===== verification/Pin_Authenticator.thy ===== *)
theory Pin_Authenticator
  imports Client_Pin
begin

section \<open>The PIN exchange against an authenticator\<close>

text \<open>
  The tests of src/ctap2\_client\_pin.rs check the platform's side of the PIN exchange against
  \<open>MockAuthenticator\<close>, which answers \<open>getInfo\<close>, \<open>getKeyAgreement\<close>, \<open>setPIN\<close> and \<open>getPinToken\<close> with its own
  computation. Here that authenticator is a transport with a state, and the two sides together are
  proved to do what the exchange is for, for every PIN, both protocols and every authenticator state.

  A failed assertion or \<open>unwrap\<close> of the authenticator is \<open>RustPanic\<close>, so that a theorem that names the result
  also says that the platform's commands never trip it.
\<close>

subsection \<open>The authenticator\<close>

record authenticator =
  au_protocols :: "int list"
  au_client_pin :: "bool option"
  au_min_pin_length :: "nat option"
  au_set_pin_status :: byte
  au_stored_pin :: "bytes option"
  au_key_agreement_secret :: "bytes option"
  au_log :: "bytes list"
  au_agreement_keys :: "bytes list"

definition authenticator_new :: "int \<Rightarrow> bool option \<Rightarrow> authenticator" where
  "authenticator_new protocol client_pin =
     \<lparr>au_protocols = [protocol], au_client_pin = client_pin, au_min_pin_length = None,
      au_set_pin_status = 0, au_stored_pin = None, au_key_agreement_secret = None, au_log = [],
      au_agreement_keys = []\<rparr>"

definition unwrap :: "string \<Rightarrow> 'a option \<Rightarrow> 'a wres" where
  "unwrap what m = ok_or (RustPanic what) m"

definition assert_that :: "string \<Rightarrow> bool \<Rightarrow> unit wres" where
  "assert_that what b = (if b then Inr () else Inl (RustPanic what))"

lemma unwrap_simps [simp]: "unwrap what (Some x) = Inr x" "assert_that what True = Inr ()"
  by (simp_all add: unwrap_def assert_that_def)

definition field :: "cbor \<Rightarrow> int \<Rightarrow> cbor wres" where
  "field v key =
     rbind (unwrap ''not a map'' (as_map v)) (\<lambda>m. unwrap ''missing key'' (get_value_by_int m key))"

text \<open>\<open>as i64\<close> of an integer.\<close>

definition as_i64 :: "int \<Rightarrow> int" where
  "as_i64 i = sint (word_of_int i :: 64 word)"

definition int_field :: "cbor \<Rightarrow> int \<Rightarrow> int wres" where
  "int_field v key = rbind (field v key) (\<lambda>x. unwrap ''not an integer'' (as_integer x))"

definition bytes_field :: "cbor \<Rightarrow> int \<Rightarrow> bytes wres" where
  "bytes_field v key = rbind (field v key) (\<lambda>x. unwrap ''not a byte string'' (as_cbytes x))"

definition ok_response :: "externals \<Rightarrow> cbor option \<Rightarrow> bytes" where
  "ok_response X body = 0 # (case body of Some b \<Rightarrow> cbor_enc X b | None \<Rightarrow> [])"

text \<open>The key of the cipher and the key of the MAC.\<close>

definition independent_keys :: "externals \<Rightarrow> int \<Rightarrow> bytes \<Rightarrow> (bytes \<times> bytes) wres" where
  "independent_keys X protocol z =
     (if protocol = 1 then Inr (sha256 X z, sha256 X z)
      else
        rbind (map_err RustPanic (hkdf_sha256 X PROTOCOL_TWO_HKDF_SALT z (as_bytes ''CTAP2 AES key'') 32)) (\<lambda>a.
        rbind (map_err RustPanic (hkdf_sha256 X PROTOCOL_TWO_HKDF_SALT z (as_bytes ''CTAP2 HMAC key'') 32)) (\<lambda>h.
          Inr (a, h))))"

definition independent_cbc_decrypt :: "externals \<Rightarrow> int \<Rightarrow> bytes \<Rightarrow> bytes \<Rightarrow> bytes wres" where
  "independent_cbc_decrypt X protocol key ct =
     rbind (if protocol = 1 then Inr (PROTOCOL_ONE_ZERO_IV, ct)
            else if length ct < 16 then Inl (RustPanic ''range end index 16 out of range'')
            else Inr (take 16 ct, drop 16 ct)) (\<lambda>(iv, body).
       map_err RustPanic (aes256_cbc_dec X key iv body))"

definition info_response :: "externals \<Rightarrow> authenticator \<Rightarrow> bytes" where
  "info_response X m =
     ok_response X (Some (CMap
       ([(CInteger 4, CMap (case au_client_pin m of
             Some cp \<Rightarrow> [(CText ''clientPin'', CBool cp)] | None \<Rightarrow> [])),
         (CInteger 6, CArray (map CInteger (au_protocols m)))]
        @ (case au_min_pin_length m of Some n \<Rightarrow> [(CInteger 13, CInteger (int n))] | None \<Rightarrow> []))))"

text \<open>
  The secret of the last key agreement is used up by the command that needs it. \<open>shared_keys\<close> is what the
  authenticator derives from it and the platform's public key.
\<close>

definition shared_keys :: "externals \<Rightarrow> int \<Rightarrow> cbor \<Rightarrow> bytes option \<Rightarrow> (bytes \<times> bytes) wres" where
  "shared_keys X protocol p taken =
     rbind (unwrap ''no key agreement'' taken) (\<lambda>secret.
     rbind (field p 3) (\<lambda>cose.
     rbind (map_err (\<lambda>e. RustPanic (show_error e)) (decode_cose_ec2_point X cose)) (\<lambda>platform.
       independent_keys X protocol (p256_ecdh X secret platform))))"

text \<open>\<open>setPIN\<close>: the status and, on success, the PIN that arrived.\<close>

definition receive_pin :: "externals \<Rightarrow> int \<Rightarrow> cbor \<Rightarrow> bytes option \<Rightarrow> (byte + bytes) wres" where
  "receive_pin X protocol p taken =
     rbind (shared_keys X protocol p taken) (\<lambda>(aes, hmac_key).
     rbind (bytes_field p 5) (\<lambda>new_pin_enc.
     rbind (bytes_field p 4) (\<lambda>param.
       let full = hmac_sha256 X hmac_key new_pin_enc;
           want_len = (if protocol = 1 then 16 else 32)
       in rbind (assert_that ''pinUvAuthParam length'' (length param = want_len)) (\<lambda>_.
          if param \<noteq> take want_len full then Inr (Inl 0x33)
          else
            rbind (independent_cbc_decrypt X protocol aes new_pin_enc) (\<lambda>padded.
            rbind (assert_that ''newPinEnc plaintext is 64 bytes'' (length padded = 64)) (\<lambda>_.
              let pin = takeWhile (\<lambda>b. b \<noteq> 0) padded
              in rbind (assert_that ''zero padding'' (\<forall>b \<in> set (drop (length pin) padded). b = 0)) (\<lambda>_.
                   Inr (Inr pin))))))))"

definition MOCK_TOKEN :: bytes where "MOCK_TOKEN = replicate 32 0x77"

text \<open>\<open>getPinToken\<close> for a stored PIN: the response.\<close>

definition grant_token :: "externals \<Rightarrow> int \<Rightarrow> cbor \<Rightarrow> bytes option \<Rightarrow> bytes \<Rightarrow> bytes wres" where
  "grant_token X protocol p taken pin =
     rbind (shared_keys X protocol p taken) (\<lambda>(aes, _).
     rbind (bytes_field p 6) (\<lambda>hash_enc.
     rbind (independent_cbc_decrypt X protocol aes hash_enc) (\<lambda>hash.
       if hash \<noteq> take 16 (sha256 X pin) then Inr [0x31]
       else
         let iv = (if protocol = 1 then PROTOCOL_ONE_ZERO_IV else replicate 16 9)
         in rbind (map_err RustPanic (aes256_cbc_enc X aes iv MOCK_TOKEN)) (\<lambda>buf.
              let enc = (if protocol = 1 then buf else iv @ buf)
              in Inr (ok_response X (Some (CMap [(CInteger 2, CBytes enc)])))))))"

definition take_secret :: "(authenticator \<times> 'w, bytes option) weff" where
  "take_secret =
     ebind (easks (au_key_agreement_secret \<circ> fst)) (\<lambda>taken.
     ebind (emodify (\<lambda>(m, w). (m\<lparr>au_key_agreement_secret := None\<rparr>, w))) (\<lambda>_. ereturn taken))"

definition client_pin_command ::
  "externals \<Rightarrow> 'w env \<Rightarrow> int \<Rightarrow> cbor \<Rightarrow> int \<Rightarrow> (authenticator \<times> 'w, bytes) weff" where
  "client_pin_command X env protocol p sub =
     (if sub = 2 then
        ebind (generate_secret (lift_env env)) (\<lambda>secret.
          let cose = encode_platform_cose_key (p256_public X secret) in
          ebind (emodify (\<lambda>(m, w). (m\<lparr>au_agreement_keys := au_agreement_keys m @ [cbor_enc X cose],
            au_key_agreement_secret := Some secret\<rparr>, w))) (\<lambda>_.
            ereturn (ok_response X (Some (CMap [(CInteger 1, cose)])))))
      else if sub = 3 then
        ebind (easks (au_set_pin_status \<circ> fst)) (\<lambda>status.
          if status \<noteq> 0 then ereturn [status]
          else
            ebind take_secret (\<lambda>taken.
            ebind (elift (receive_pin X protocol p taken)) (\<lambda>r.
              case r of
                Inl refused \<Rightarrow> ereturn [refused]
              | Inr pin \<Rightarrow>
                  ebind (emodify (\<lambda>(m, w). (m\<lparr>au_stored_pin := Some pin, au_client_pin := Some True\<rparr>, w)))
                    (\<lambda>_. ereturn (ok_response X None)))))
      else if sub = 9 then
        ebind (easks (au_stored_pin \<circ> fst)) (\<lambda>stored.
          case stored of
            None \<Rightarrow> ereturn [0x35]
          | Some pin \<Rightarrow>
              ebind take_secret (\<lambda>taken. elift (grant_token X protocol p taken pin)))
      else ethrow (RustPanic ''unexpected subCommand''))"

definition authenticator_command ::
  "externals \<Rightarrow> 'w env \<Rightarrow> bytes \<Rightarrow> (authenticator \<times> 'w, bytes) weff" where
  "authenticator_command X env command =
     ebind (emodify (\<lambda>(m, w). (m\<lparr>au_log := au_log m @ [command]\<rparr>, w))) (\<lambda>_.
     ebind (elift (unwrap ''index out of bounds'' (list_head command))) (\<lambda>b.
       if b = 0x04 then easks (info_response X \<circ> fst)
       else
         ebind (elift (assert_that ''only getInfo/ClientPin expected'' (b = 0x06))) (\<lambda>_.
         ebind (elift (map_err RustPanic (from_reader X (drop 1 command)))) (\<lambda>p.
         ebind (elift (int_field p 1)) (\<lambda>protocol.
         ebind (elift (int_field p 2)) (\<lambda>sub. client_pin_command X env (as_i64 protocol) p sub))))))"

definition authenticator_transport :: "externals \<Rightarrow> 'w env \<Rightarrow> (authenticator \<times> 'w) ctap2_transport" where
  "authenticator_transport X env =
     \<lparr>ctap2_send_command = authenticator_command X env, performs_user_verification = False\<rparr>"

text \<open>The commands of a log with their subcommands, as \<open>subcommands\<close> of the tests lists them.\<close>

definition subcommand :: "externals \<Rightarrow> bytes \<Rightarrow> (byte \<times> int option) wres" where
  "subcommand X c =
     rbind (unwrap ''index out of bounds'' (list_head c)) (\<lambda>b.
       if b = 0x06
       then rbind (map_err RustPanic (from_reader X (drop 1 c))) (\<lambda>v.
              rbind (int_field v 2) (\<lambda>sub. Inr (b, Some (as_i64 sub))))
       else Inr (b, None))"

fun subcommands :: "externals \<Rightarrow> bytes list \<Rightarrow> (byte \<times> int option) list wres" where
  "subcommands X [] = Inr []"
| "subcommands X (c # cs) = rbind (subcommand X c) (\<lambda>s. rbind (subcommands X cs) (\<lambda>ss. Inr (s # ss)))"

text \<open>The user of the tests: always the same PIN, and a record of what was asked.\<close>

definition pin_source :: "bytes \<Rightarrow> (pin_request_kind list \<times> 'w) auth_callback" where
  "pin_source pin =
     (let ask = (\<lambda>kind. ebind (emodify (\<lambda>(asked, w). (asked @ [kind], w))) (\<lambda>_. ereturn pin)) in
      \<lparr>request_pin = (\<lambda>_. ask EnterPin), request_pin_for = (\<lambda>_ kind. ask kind),
       request_webauthn_assertion = (\<lambda>_ _ _ _. ethrow (RustPanic ''unreachable''))\<rparr>)"

subsection \<open>What the exchange relies on\<close>

text \<open>
  Documented behaviour of the packages: two sides that exchange the public keys of generated secrets
  compute the same 32 bytes, and such a public key is a point with 32-byte coordinates.
\<close>

definition agreement_ok :: "externals \<Rightarrow> 'w env \<Rightarrow> bool" where
  "agreement_ok X env \<longleftrightarrow>
     (\<forall>v w. let a = fst (env_generate_secret env v); b = fst (env_generate_secret env w);
               pub = p256_public X a
            in p256_ecdh X a (p256_public X b) = p256_ecdh X b (p256_public X a) \<and>
               length (p256_ecdh X a (p256_public X b)) = 32 \<and>
               length (pt_x pub) = 32 \<and> length (pt_y pub) = 32 \<and>
               p256_from_sec1 X (ec2_sec1 (pt_x pub) (pt_y pub)) = Inr pub)"

fun nesting :: "cbor \<Rightarrow> nat" where
  "nesting (CArray xs) = Suc (foldr max (map nesting xs) 0)"
| "nesting (CMap m) = Suc (foldr max (map (\<lambda>(k, v). max (nesting k) (nesting v)) m) 0)"
| "nesting (CTag t v) = Suc (nesting v)"
| "nesting _ = 0"

text \<open>The codec round-trips what fits its length fields and is not nested deeply.\<close>

definition codec_roundtrips :: "externals \<Rightarrow> bool" where
  "codec_roundtrips X \<longleftrightarrow> (\<forall>v. cbor_ok v \<and> nesting v \<le> 8 \<longrightarrow> cbor_roundtrips X v)"

lemma codec_roundtripsD:
  assumes "codec_roundtrips X" and "cbor_ok v" and "nesting v \<le> 8"
  shows "from_reader X (cbor_enc X v) = Inr v" and "read_cbor X what (cbor_enc X v) = Inr v"
  using assms by (auto simp: codec_roundtrips_def read_cbor_def from_reader_def cbor_roundtripsD')

subsection \<open>The authenticator's answers\<close>

lemma as_i64_small [simp]: "as_i64 1 = 1" "as_i64 2 = 2" "as_i64 3 = 3" "as_i64 9 = 9"
  "as_i64 (protocol_as_int p) = protocol_as_int p"
  by (simp_all add: as_i64_def) (cases p; simp)

lemma field_simps [simp]:
  "field (CMap m) key = unwrap ''missing key'' (get_value_by_int m key)"
  by (simp add: field_def)

definition authenticator_ok :: "authenticator \<Rightarrow> bool" where
  "authenticator_ok m \<longleftrightarrow>
     list_all is_i64 (au_protocols m) \<and> length (au_protocols m) < 2 ^ 64 \<and>
     (\<forall>n. au_min_pin_length m = Some n \<longrightarrow> n < 2 ^ 32)"

definition offered_protocol :: "authenticator \<Rightarrow> pin_uv_auth_protocol" where
  "offered_protocol m =
     (case find_map protocol_from_int (au_protocols m) of Some p \<Rightarrow> p | None \<Rightarrow> ProtoOne)"

definition required_length :: "authenticator \<Rightarrow> nat" where
  "required_length m = (case au_min_pin_length m of Some n \<Rightarrow> n | None \<Rightarrow> DEFAULT_MIN_PIN_LENGTH)"

lemma find_map_integers:
  "find_map (\<lambda>v. Option.bind (as_integer v) f) (map CInteger ps) = find_map f ps"
  by (induction ps) (simp_all split: option.split)

lemma nesting_integers: "foldr max (map nesting (map CInteger ps)) 0 = 0"
  by (induction ps) simp_all

lemma integers_ok: "list_all is_i64 ps \<Longrightarrow> list_all cbor_ok (map CInteger ps)"
  by (induction ps) (auto simp: is_i64_def)

lemma answers_get_info:
  "ctap2_send_command (authenticator_transport X env) [CTAP2_GET_INFO] (m, w) =
     (Inr (info_response X m), (m\<lparr>au_log := au_log m @ [[CTAP2_GET_INFO]]\<rparr>, w))"
  by (simp add: authenticator_transport_def authenticator_command_def CTAP2_GET_INFO_def list_head_def
      ebind_apply info_response_def)

lemma read_pin_info_answered:
  assumes X: "codec_roundtrips X" and m: "authenticator_ok m"
  shows "read_pin_info X (authenticator_transport X env) (m, w) =
    (Inr \<lparr>pi_protocol = offered_protocol m, pi_pin_state = pin_state_of (au_client_pin m),
          pi_min_pin_length = required_length m\<rparr>, (m\<lparr>au_log := au_log m @ [[CTAP2_GET_INFO]]\<rparr>, w))"
proof -
  define info where "info = CMap
     ([(CInteger 4, CMap (case au_client_pin m of
           Some cp \<Rightarrow> [(CText ''clientPin'', CBool cp)] | None \<Rightarrow> [])),
       (CInteger 6, CArray (map CInteger (au_protocols m)))]
      @ (case au_min_pin_length m of Some n \<Rightarrow> [(CInteger 13, CInteger (int n))] | None \<Rightarrow> []))"
  have n: "n < 2 ^ 32" if "au_min_pin_length m = Some n" for n
    using m that by (simp add: authenticator_ok_def)
  have "cbor_ok info" "nesting info \<le> 8"
    using m n integers_ok [of "au_protocols m"] nesting_integers [of "au_protocols m"]
    by (auto simp: info_def authenticator_ok_def split: option.split)
  then have "read_cbor X what (cbor_enc X info) = Inr info" for what
    by (rule codec_roundtripsD(2) [OF X])
  moreover have "split_status (info_response X m) = Inr (cbor_enc X info)"
    by (simp add: info_response_def ok_response_def info_def split_status_def list_head_def
        slice_or_panic_def slice_from_def)
  ultimately show ?thesis
    using n
    by (auto simp: read_pin_info_def ebind_apply answers_get_info parse_pin_info_def info_def Let_def
        find_map_integers offered_protocol_def required_length_def try_u32_def
        split: option.split)
qed

lemma answers_client_pin:
  assumes X: "codec_roundtrips X" and ok: "cbor_ok (CMap kvs)" "nesting (CMap kvs) \<le> 8"
    and p: "get_value_by_int kvs 1 = Some (CInteger (protocol_as_int p))"
    and sub: "get_value_by_int kvs 2 = Some (CInteger sub)"
  shows "ctap2_send_command (authenticator_transport X env) (encode_command X CTAP2_CLIENT_PIN (CMap kvs)) (m, w) =
      client_pin_command X env (protocol_as_int p) (CMap kvs) sub
        (m\<lparr>au_log := au_log m @ [encode_command X CTAP2_CLIENT_PIN (CMap kvs)]\<rparr>, w)"
    and "subcommand X (encode_command X CTAP2_CLIENT_PIN (CMap kvs)) = Inr (0x06, Some (as_i64 sub))"
  using codec_roundtripsD(1) [OF X ok] p sub
  by (simp_all add: authenticator_transport_def authenticator_command_def encode_command_def
      CTAP2_CLIENT_PIN_def list_head_def ebind_apply int_field_def subcommand_def)

lemma subcommand_get_info: "subcommand X [CTAP2_GET_INFO] = Inr (0x04, None)"
  by (simp add: subcommand_def CTAP2_GET_INFO_def list_head_def)

subsection \<open>Agreeing on keys\<close>

lemma agreement_okD:
  assumes "agreement_ok X env" and "a = fst (env_generate_secret env v)" and "b = fst (env_generate_secret env u)"
  shows "p256_ecdh X a (p256_public X b) = p256_ecdh X b (p256_public X a)"
    and "length (p256_ecdh X a (p256_public X b)) = 32"
    and "decode_cose_ec2_point X (encode_platform_cose_key (p256_public X a)) = Inr (p256_public X a)"
    and "length (pt_x (p256_public X a)) = 32" and "length (pt_y (p256_public X a)) = 32"
  using assms by (auto simp: agreement_ok_def Let_def intro: platform_cose_key_roundtrip)

text \<open>The two sides derive the same keys from the same shared secret.\<close>

lemma independent_keys_agree:
  assumes "derive_aes_key X p z = Inr ak" and "derive_hmac_key X p z = Inr hk"
  shows "independent_keys X (protocol_as_int p) z = Inr (ak, hk)"
  using assms by (cases p) (simp_all add: independent_keys_def derive_aes_key_def derive_hmac_key_def derive_key_def)

lemma independent_decrypt_agrees:
  assumes "decrypt X p key c = Inr d"
  shows "independent_cbc_decrypt X (protocol_as_int p) key c = Inr d"
  using assms by (cases p) (auto simp: independent_cbc_decrypt_def decrypt_def rbind_eq_Inr split: if_splits)

lemma shared_keys_agree:
  assumes ag: "agreement_ok X env" "a = fst (env_generate_secret env v)" "b = fst (env_generate_secret env u)"
    and z: "z = p256_ecdh X a (p256_public X b)"
    and keys: "derive_aes_key X p z = Inr ak" "derive_hmac_key X p z = Inr hk"
    and cose: "get_value_by_int kvs 3 = Some (encode_platform_cose_key (p256_public X a))"
  shows "shared_keys X (protocol_as_int p) (CMap kvs) (Some b) = Inr (ak, hk)"
  using independent_keys_agree [OF keys] agreement_okD(1,3) [OF ag] cose z
  by (simp add: shared_keys_def)

text \<open>The platform's half of an agreement: the authenticator's new public key.\<close>

lemma cose_key_ok:
  assumes "length (pt_x q) = 32" and "length (pt_y q) = 32"
  shows "cbor_ok (encode_platform_cose_key q)" and "nesting (encode_platform_cose_key q) = 1"
  using assms by (simp_all add: encode_platform_cose_key_def)

lemma protocol_as_int_ok [simp]:
  "- (2 ^ 64) \<le> protocol_as_int p" "protocol_as_int p < 2 ^ 64"
  "- 18446744073709551616 \<le> protocol_as_int p" "protocol_as_int p < 18446744073709551616"
  by (cases p; simp)+

lemma split_ok_response [simp]:
  "split_client_pin_status (ok_response X body) = Inr (case body of Some b \<Rightarrow> cbor_enc X b | None \<Rightarrow> [])"
  by (simp add: ok_response_def split_client_pin_status_def split_status_def list_head_def
      slice_or_panic_def slice_from_def)

lemma key_agreement_answered:
  assumes X: "codec_roundtrips X" and ag: "agreement_ok X env"
    and b: "env_generate_secret env w = (b, w')"
  shows "get_key_agreement X (authenticator_transport X env) p (m, w) =
    (Inr (p256_public X b),
     (m\<lparr>au_log := au_log m @ [key_agreement_command X p],
        au_agreement_keys := au_agreement_keys m
          @ [cbor_enc X (encode_platform_cose_key (p256_public X b))],
        au_key_agreement_secret := Some b\<rparr>, w'))"
proof -
  have eb: "b = fst (env_generate_secret env w)" using b by simp
  note q = agreement_okD(3-5) [OF ag eb eb]
  note send = answers_client_pin(1) [OF X, of
      "[(CInteger 1, CInteger (protocol_as_int p)), (CInteger 2, CInteger SUBCMD_GET_KEY_AGREEMENT)]" p 2]
  let ?reply = "CMap [(CInteger 1, encode_platform_cose_key (p256_public X b))]"
  have "cbor_ok ?reply" "nesting ?reply \<le> 8" using cose_key_ok [OF q(2,3)] by simp_all
  then have r: "read_cbor X what (cbor_enc X ?reply) = Inr ?reply" for what
    by (rule codec_roundtripsD(2) [OF X])
  show ?thesis
    using send [of env m w] r q(1) b
    by (simp add: get_key_agreement_def ebind_apply client_pin_command_def SUBCMD_GET_KEY_AGREEMENT_def
        lift_env_def generate_secret_def etotal_apply Let_def key_agreement_command_def)
qed

lemma key_agreement_subcommand:
  assumes "codec_roundtrips X"
  shows "subcommand X (key_agreement_command X p) = Inr (0x06, Some 2)"
  using answers_client_pin(2) [OF assms, of
      "[(CInteger 1, CInteger (protocol_as_int p)), (CInteger 2, CInteger SUBCMD_GET_KEY_AGREEMENT)]" p 2]
  by (simp add: key_agreement_command_def SUBCMD_GET_KEY_AGREEMENT_def)

subsection \<open>Setting a PIN\<close>

lemma truncate_mac_length:
  "symmetric_ok X \<Longrightarrow> length (truncate_mac p (hmac_sha256 X k d)) = (if protocol_as_int p = 1 then 16 else 32)"
  by (cases p) (simp_all add: truncate_mac_def symmetric_okD)

lemma truncate_mac_take:
  "symmetric_ok X \<Longrightarrow>
     truncate_mac p (hmac_sha256 X k d) = take (if protocol_as_int p = 1 then 16 else 32) (hmac_sha256 X k d)"
  by (cases p) (simp_all add: truncate_mac_def symmetric_okD)

lemma pin_received:
  assumes X: "symmetric_ok X" and len: "length pin \<le> 64" and nul: "0 \<notin> set pin"
    and keys: "shared_keys X (protocol_as_int p) (CMap kvs) taken = Inr (ak, hk)"
    and enc: "decrypt X p ak enc = Inr (pin @ replicate (64 - length pin) 0)"
    and fields: "get_value_by_int kvs 5 = Some (CBytes enc)"
      "get_value_by_int kvs 4 = Some (CBytes (truncate_mac p (hmac_sha256 X hk enc)))"
  shows "receive_pin X (protocol_as_int p) (CMap kvs) taken = Inr (Inr pin)"
proof -
  have t: "takeWhile (\<lambda>b. b \<noteq> 0) (pin @ replicate (64 - length pin) 0) = pin"
    by (rule takeWhile_padded [OF nul])
  show ?thesis
    using independent_decrypt_agrees [OF enc] len
    by (simp add: receive_pin_def keys bytes_field_def fields Let_def t
        truncate_mac_take [OF X] symmetric_okD(2) [OF X])
qed

lemma set_pin_answered:
  assumes S: "symmetric_ok X" and X: "codec_roundtrips X" and ag: "agreement_ok X env" and env: "env_fills env"
    and pin: "length pin \<le> 64" "0 \<notin> set pin"
  obtains m' w' cs where
    "set_pin X (lift_env env) (authenticator_transport X env) p pin (m, w) =
       (rbind (split_client_pin_status [au_set_pin_status m]) (\<lambda>_. Inr ()), (m', w'))"
    "au_stored_pin m' = (if au_set_pin_status m = 0 then Some pin else au_stored_pin m)"
    "au_log m' = au_log m @ cs" "subcommands X cs = Inr [(0x06, Some 2), (0x06, Some 3)]"
proof -
  obtain a w1 where a: "env_generate_secret env w = (a, w1)" by (rule that [OF surjective_pairing])
  obtain b w2 where b: "env_generate_secret env w1 = (b, w2)" by (rule that [OF surjective_pairing])
  obtain iv w3 where iv: "env_rand env 16 w2 = (iv, w3)" by (rule that [OF surjective_pairing])
  have ea: "a = fst (env_generate_secret env w)" and eb: "b = fst (env_generate_secret env w1)"
    using a b by simp_all
  have liv: "length iv = 16" using env iv by (metis env_fills_def fst_conv)
  define z where "z = p256_ecdh X a (p256_public X b)"
  have lz: "length z = 32" unfolding z_def by (rule agreement_okD(2) [OF ag ea eb])
  obtain enc param ak hk where f: "set_pin_fields X p z pin iv = Inr (enc, param)"
    "derive_aes_key X p z = Inr ak" "derive_hmac_key X p z = Inr hk"
    "decrypt X p ak enc = Inr (pin @ replicate (64 - length pin) 0)" "length enc \<le> 80"
    "param = truncate_mac p (hmac_sha256 X hk enc)"
    by (rule set_pin_fields_sizes [OF S liv pin(1)])
  define kvs where "kvs = [(CInteger 1, CInteger (protocol_as_int p)), (CInteger 2, CInteger SUBCMD_SET_PIN),
    (CInteger 3, encode_platform_cose_key (p256_public X a)), (CInteger 4, CBytes param),
    (CInteger 5, CBytes enc)]"
  define cmd where "cmd = encode_command X CTAP2_CLIENT_PIN (CMap kvs)"
  have params: "set_pin_params p (p256_public X a) enc param = CMap kvs"
    by (simp add: set_pin_params_def kvs_def)
  have "length param \<le> 32" by (simp add: f(6) truncate_mac_length [OF S])
  then have ok: "cbor_ok (CMap kvs)" "nesting (CMap kvs) \<le> 8"
    using cose_key_ok [OF agreement_okD(4,5) [OF ag ea ea]] f(5)
    by (auto simp: kvs_def SUBCMD_SET_PIN_def)
  have sub: "get_value_by_int kvs 1 = Some (CInteger (protocol_as_int p))"
    "get_value_by_int kvs 2 = Some (CInteger 3)"
    by (simp_all add: kvs_def SUBCMD_SET_PIN_def)
  note send = answers_client_pin [OF X ok sub, folded cmd_def]
  let ?m1 = "m\<lparr>au_log := au_log m @ [key_agreement_command X p],
      au_agreement_keys := au_agreement_keys m @ [cbor_enc X (encode_platform_cose_key (p256_public X b))],
      au_key_agreement_secret := Some b\<rparr>"
  let ?m2 = "?m1\<lparr>au_log := au_log m @ [key_agreement_command X p, cmd]\<rparr>"
  have run: "set_pin X (lift_env env) (authenticator_transport X env) p pin (m, w) =
      ebind (client_pin_command X env (protocol_as_int p) (CMap kvs) 3) (\<lambda>response.
        ebind (elift (split_client_pin_status response)) (\<lambda>_. ereturn ())) (?m2, w3)"
    using lz a b iv f(1)
    by (simp add: set_pin_def ebind_apply generate_secret_def etotal_apply lift_env_def
        key_agreement_answered [OF X ag b] ecdh_shared_x_def z_def [symmetric] rand_fill_def params
        cmd_def [symmetric] send(1) cong: sum.case_cong)
  have keys: "shared_keys X (protocol_as_int p) (CMap kvs) (Some b) = Inr (ak, hk)"
    by (rule shared_keys_agree [OF ag ea eb z_def f(2,3)]) (simp add: kvs_def)
  have received: "receive_pin X (protocol_as_int p) (CMap kvs) (Some b) = Inr (Inr pin)"
    by (rule pin_received [OF S pin keys f(4)]) (simp_all add: kvs_def f(6))
  have subs: "subcommands X [key_agreement_command X p, cmd] = Inr [(0x06, Some 2), (0x06, Some 3)]"
    using send(2) key_agreement_subcommand [OF X] by simp
  show thesis
  proof (cases "au_set_pin_status m = 0")
    case True
    have "split_client_pin_status [0] = Inr []"
      using split_ok_response [of X None] by (simp add: ok_response_def)
    then show thesis
      using True received run subs
      by (intro that [of "?m2\<lparr>au_key_agreement_secret := None, au_stored_pin := Some pin,
            au_client_pin := Some True\<rparr>" w3 "[key_agreement_command X p, cmd]"])
        (simp_all add: client_pin_command_def take_secret_def ebind_apply ok_response_def)
  next
    case False
    then show thesis
      using run subs
      by (intro that [of ?m2 w3 "[key_agreement_command X p, cmd]"])
        (auto simp: client_pin_command_def ebind_apply split: sum.split)
  qed
qed

subsection \<open>Trading the PIN for the token\<close>

lemma hash_encrypted:
  assumes S: "symmetric_ok X" and env: "env_fills env" and key: "length key = 32" and d: "16 dvd length d"
  obtains c w' where "encrypt X (lift_env env) p key d (m, w) = (Inr c, (m, w'))"
    "decrypt X p key c = Inr d" "length c \<le> 16 + length d"
proof -
  obtain iv w' where iv: "pick_iv (lift_env env) p (m, w) = (Inr iv, (m, w'))" "length iv = 16"
    "p = ProtoOne \<Longrightarrow> iv = PROTOCOL_ONE_ZERO_IV"
  proof (cases p)
    case ProtoOne
    then show thesis
      by (intro that [of PROTOCOL_ONE_ZERO_IV w]) (simp_all add: pick_iv_def PROTOCOL_ONE_ZERO_IV_def)
  next
    case ProtoTwo
    then show thesis
      using env
      by (intro that [of "fst (env_rand env 16 w)" "snd (env_rand env 16 w)"])
        (simp_all add: pick_iv_def rand_fill_def etotal_apply lift_env_def env_fills_def case_prod_unfold Let_def)
  qed
  obtain c where c: "cbc_encrypt X key iv d = Inr c" "length c = length d" "aes256_cbc_dec X key iv c = Inr d"
    using cbc_encrypt_ok [OF S key iv(2) d] by blast
  show thesis
  proof (rule that)
    show "encrypt X (lift_env env) p key d (m, w) = (Inr (with_iv p iv c), (m, w'))"
      using iv(1) c(1) by (simp add: encrypt_def ebind_Inr)
    show "decrypt X p key (with_iv p iv c) = Inr d" by (rule decrypt_with_iv [OF key iv(2) c(3) iv(3)])
    show "length (with_iv p iv c) \<le> 16 + length d" using c(2) iv(2) by (cases p) (simp_all add: with_iv_def)
  qed
qed

lemma token_granted:
  assumes S: "symmetric_ok X" and key: "length ak = 32"
    and keys: "shared_keys X (protocol_as_int p) (CMap kvs) taken = Inr (ak, hk)"
    and hash: "decrypt X p ak hash_enc = Inr (take 16 (sha256 X pin))"
      "get_value_by_int kvs 6 = Some (CBytes hash_enc)"
  obtains enc where
    "grant_token X (protocol_as_int p) (CMap kvs) taken q =
       Inr (if take 16 (sha256 X pin) = take 16 (sha256 X q)
            then ok_response X (Some (CMap [(CInteger 2, CBytes enc)])) else [0x31])"
    "decrypt X p ak enc = Inr MOCK_TOKEN" "length enc \<le> 48"
proof -
  let ?iv = "if protocol_as_int p = 1 then PROTOCOL_ONE_ZERO_IV else replicate 16 9"
  have l: "length ?iv = 16" by (simp add: PROTOCOL_ONE_ZERO_IV_def)
  obtain c where c: "aes256_cbc_enc X ak ?iv MOCK_TOKEN = Inr c" "length c = 32"
    "aes256_cbc_dec X ak ?iv c = Inr MOCK_TOKEN"
    using symmetric_okD(4) [OF S key l, of MOCK_TOKEN] by (auto simp: MOCK_TOKEN_def)
  have iv: "with_iv p ?iv c = (if protocol_as_int p = 1 then c else ?iv @ c)"
    by (cases p) (simp_all add: with_iv_def)
  show thesis
  proof (rule that)
    show "decrypt X p ak (with_iv p ?iv c) = Inr MOCK_TOKEN"
      by (rule decrypt_with_iv [OF key l c(3)]) simp
    show "length (with_iv p ?iv c) \<le> 48" using c(2) l by (cases p) (simp_all add: with_iv_def)
    show "grant_token X (protocol_as_int p) (CMap kvs) taken q =
       Inr (if take 16 (sha256 X pin) = take 16 (sha256 X q)
            then ok_response X (Some (CMap [(CInteger 2, CBytes (with_iv p ?iv c))])) else [0x31])"
      using independent_decrypt_agrees [OF hash(1)] c(1) iv
      by (simp add: grant_token_def keys bytes_field_def hash(2) Let_def)
  qed
qed

definition token_outcome ::
  "externals \<Rightarrow> pin_uv_auth_protocol \<Rightarrow> bytes option \<Rightarrow> bytes \<Rightarrow> pin_uv_auth_session wres" where
  "token_outcome X p stored pin =
     (case stored of
        None \<Rightarrow> Inl (Pin NotSet)
      | Some q \<Rightarrow>
          if take 16 (sha256 X pin) = take 16 (sha256 X q)
          then Inr \<lparr>ses_protocol = p, ses_token = MOCK_TOKEN\<rparr> else Inl (Pin PinInvalid))"

lemma refusal_statuses [simp]:
  "split_client_pin_status [0x31] = Inl (Pin PinInvalid)" "split_client_pin_status [0x35] = Inl (Pin NotSet)"
  by (simp_all add: split_client_pin_status_def list_head_def)

lemma token_answered:
  assumes S: "symmetric_ok X" and X: "codec_roundtrips X" and ag: "agreement_ok X env" and env: "env_fills env"
    and rp: "\<And>r. rp = Some r \<Longrightarrow> length r < 2 ^ 64"
  obtains m' w' cs where
    "token_with_pin X (lift_env env) (authenticator_transport X env) p pin perm rp (m, w) =
       (token_outcome X p (au_stored_pin m) pin, (m', w'))"
    "au_stored_pin m' = au_stored_pin m"
    "au_log m' = au_log m @ cs" "subcommands X cs = Inr [(0x06, Some 2), (0x06, Some 9)]"
proof -
  obtain a w1 where a: "env_generate_secret env w = (a, w1)" by (rule that [OF surjective_pairing])
  obtain b w2 where b: "env_generate_secret env w1 = (b, w2)" by (rule that [OF surjective_pairing])
  have ea: "a = fst (env_generate_secret env w)" and eb: "b = fst (env_generate_secret env w1)"
    using a b by simp_all
  define z where "z = p256_ecdh X a (p256_public X b)"
  have lz: "length z = 32" unfolding z_def by (rule agreement_okD(2) [OF ag ea eb])
  obtain ak where ak: "derive_aes_key X p z = Inr ak" "length ak = 32"
    using derive_key_ok [OF S] unfolding derive_aes_key_def by blast
  obtain hk where hk: "derive_hmac_key X p z = Inr hk"
    using derive_key_ok [OF S] unfolding derive_hmac_key_def by blast
  let ?m1 = "m\<lparr>au_log := au_log m @ [key_agreement_command X p],
      au_agreement_keys := au_agreement_keys m @ [cbor_enc X (encode_platform_cose_key (p256_public X b))],
      au_key_agreement_secret := Some b\<rparr>"
  have l16: "length (take 16 (sha256 X pin)) = 16" by (simp add: symmetric_okD(1) [OF S])
  obtain hash_enc w3 where h: "encrypt X (lift_env env) p ak (take 16 (sha256 X pin)) (?m1, w2) = (Inr hash_enc, (?m1, w3))"
    "decrypt X p ak hash_enc = Inr (take 16 (sha256 X pin))" "length hash_enc \<le> 32"
    using hash_encrypted [OF S env ak(2), of "take 16 (sha256 X pin)" p ?m1 w2] l16
    by (metis dvd_refl numeral_Bit0)
  define kvs where "kvs = [(CInteger 1, CInteger (protocol_as_int p)), (CInteger 2, CInteger SUBCMD_GET_PIN_TOKEN),
      (CInteger 3, encode_platform_cose_key (p256_public X a)), (CInteger 6, CBytes hash_enc),
      (CInteger 9, CInteger (uint perm))] @ (case rp of Some r \<Rightarrow> [(CInteger 10, CText r)] | None \<Rightarrow> [])"
  define cmd where "cmd = encode_command X CTAP2_CLIENT_PIN (CMap kvs)"
  have params: "get_pin_token_params p (p256_public X a) hash_enc perm rp = CMap kvs"
    by (simp add: get_pin_token_params_def kvs_def)
  have "- 18446744073709551616 \<le> uint perm" by (rule order_trans [of _ 0]) simp_all
  moreover have "uint perm < 256" using uint_bounded [of perm] by simp
  ultimately have ok: "cbor_ok (CMap kvs)" "nesting (CMap kvs) \<le> 8"
    using cose_key_ok [OF agreement_okD(4,5) [OF ag ea ea]] h(3) rp
    by (auto simp: kvs_def SUBCMD_GET_PIN_TOKEN_def split: option.split)
  have sub: "get_value_by_int kvs 1 = Some (CInteger (protocol_as_int p))"
    "get_value_by_int kvs 2 = Some (CInteger 9)"
    by (simp_all add: kvs_def SUBCMD_GET_PIN_TOKEN_def)
  note send = answers_client_pin [OF X ok sub, folded cmd_def]
  let ?m2 = "?m1\<lparr>au_log := au_log m @ [key_agreement_command X p, cmd]\<rparr>"
  let ?finish = "\<lambda>response. rbind (split_client_pin_status response) (\<lambda>body.
    rbind (read_cbor X ''invalid getPinUvAuthToken CBOR: '' body) (\<lambda>v.
    rbind (crypto_err ''getPinUvAuthToken response is not a CBOR map'' (as_map v)) (\<lambda>kv.
    rbind (crypto_err ''getPinUvAuthToken response missing pinUvAuthToken (key 2)'' (get_bytes_by_int kv 2)) (\<lambda>enc.
    rbind (decrypt X p ak enc) (\<lambda>token. Inr \<lparr>ses_protocol = p, ses_token = token\<rparr>)))))"
  have run: "token_with_pin X (lift_env env) (authenticator_transport X env) p pin perm rp (m, w) =
      ebind (client_pin_command X env (protocol_as_int p) (CMap kvs) 9) (\<lambda>response. elift (?finish response)) (?m2, w3)"
    using lz a b h(1) ak(1)
    by (simp add: token_with_pin_def ebind_apply generate_secret_def etotal_apply lift_env_def
        key_agreement_answered [OF X ag b] ecdh_shared_x_def z_def [symmetric] params send_get_pin_token_def
        cmd_def [symmetric] send(1) cong: sum.case_cong)
      (auto split: sum.split simp: rbind_def)
  have keys: "shared_keys X (protocol_as_int p) (CMap kvs) (Some b) = Inr (ak, hk)"
    by (rule shared_keys_agree [OF ag ea eb z_def ak(1) hk]) (simp add: kvs_def)
  have subs: "subcommands X [key_agreement_command X p, cmd] = Inr [(0x06, Some 2), (0x06, Some 9)]"
    using send(2) key_agreement_subcommand [OF X] by simp
  show thesis
  proof (cases "au_stored_pin m")
    case None
    then show thesis
      using run subs
      by (intro that [of ?m2 w3 "[key_agreement_command X p, cmd]"])
        (simp_all add: client_pin_command_def ebind_apply token_outcome_def)
  next
    case (Some q)
    obtain enc where g: "grant_token X (protocol_as_int p) (CMap kvs) (Some b) q =
        Inr (if take 16 (sha256 X pin) = take 16 (sha256 X q)
             then ok_response X (Some (CMap [(CInteger 2, CBytes enc)])) else [0x31])"
      "decrypt X p ak enc = Inr MOCK_TOKEN" "length enc \<le> 48"
      by (rule token_granted [OF S ak(2) keys h(2)]) (simp add: kvs_def)
    let ?reply = "CMap [(CInteger 2, CBytes enc)]"
    have "cbor_ok ?reply" "nesting ?reply \<le> 8" using g(3) by simp_all
    then have r: "read_cbor X what (cbor_enc X ?reply) = Inr ?reply" for what
      by (rule codec_roundtripsD(2) [OF X])
    show thesis
      using Some run subs g(1,2) r
      by (intro that [of "?m2\<lparr>au_key_agreement_secret := None\<rparr>" w3 "[key_agreement_command X p, cmd]"])
        (auto simp: client_pin_command_def take_secret_def ebind_apply token_outcome_def)
  qed
qed

subsection \<open>The whole exchange\<close>

text \<open>
  What the exchange is for, without a command or a key: the outcome of a run for the user's input, the
  PIN the authenticator has afterwards, and the commands it was sent.
\<close>

definition asked_for :: "authenticator \<Rightarrow> pin_request_kind" where
  "asked_for m = (if au_client_pin m = Some False then SetNewPin (required_length m) else EnterPin)"

definition status_error :: "byte \<Rightarrow> wscd_error option" where
  "status_error status = (case split_client_pin_status [status] of Inl e \<Rightarrow> Some e | Inr _ \<Rightarrow> None)"

definition pin_exchange ::
  "externals \<Rightarrow> authenticator \<Rightarrow> bytes \<Rightarrow>
   pin_uv_auth_session wres \<times> bytes option \<times> (byte \<times> int option) list" where
  "pin_exchange X m raw =
     (let p = offered_protocol m; stored = au_stored_pin m;
          looked = (0x04, None); agreed = (0x06, Some 2); changed = (0x06, Some 3); traded = (0x06, Some 9) in
      if au_client_pin m = Some False then
        case validate_new_pin X raw (required_length m) of
          Inl e \<Rightarrow> (Inl e, stored, [looked])
        | Inr text \<Rightarrow>
            (case status_error (au_set_pin_status m) of
               Some e \<Rightarrow> (Inl e, stored, [looked, agreed, changed])
             | None \<Rightarrow> (Inr \<lparr>ses_protocol = p, ses_token = MOCK_TOKEN\<rparr>, Some (utf8_encode text),
                        [looked, agreed, changed, agreed, traded]))
      else
        let pin = normalize_pin X raw in
        if 0 \<in> set pin then (Inl (Pin InvalidEncoding), stored, [looked])
        else (token_outcome X p stored pin, stored, [looked, agreed, traded]))"

lemma status_error_cases:
  "status_error s = None \<longleftrightarrow> s = 0" "status_error s = Some e \<Longrightarrow> split_client_pin_status [s] = Inl e"
  by (auto simp: status_error_def split_client_pin_status_def split_status_def list_head_def slice_or_panic_def
      slice_from_def split: sum.splits if_splits)

lemma subcommands_append:
  "subcommands X cs = Inr ks \<Longrightarrow> subcommands X ds = Inr ls \<Longrightarrow> subcommands X (cs @ ds) = Inr (ks @ ls)"
  by (induction cs arbitrary: ks) (auto simp: rbind_eq_Inr)

text \<open>A run that started with the authenticator \<open>m\<close> ended as \<open>out\<close> says.\<close>

definition ends_as ::
  "externals \<Rightarrow> authenticator \<Rightarrow> 'r \<times> bytes option \<times> (byte \<times> int option) list \<Rightarrow> 'r \<times> (authenticator \<times> 'w) \<Rightarrow> bool" where
  "ends_as X m out r \<longleftrightarrow>
     (\<exists>cs. fst r = fst out \<and> au_stored_pin (fst (snd r)) = fst (snd out) \<and>
        au_log (fst (snd r)) = au_log m @ cs \<and> subcommands X cs = Inr (snd (snd out)))"

lemma ends_asI:
  "\<lbrakk>r = (x, (m', w')); au_stored_pin m' = q; au_log m' = au_log m @ cs; subcommands X cs = Inr ks\<rbrakk>
     \<Longrightarrow> ends_as X m (x, q, ks) r"
  by (auto simp: ends_as_def)

text \<open>The authenticator after \<open>getInfo\<close>.\<close>

abbreviation looked_at :: "authenticator \<Rightarrow> authenticator" where
  "looked_at m \<equiv> m\<lparr>au_log := au_log m @ [[CTAP2_GET_INFO]]\<rparr>"

lemma looked: "subcommands X [[CTAP2_GET_INFO]] = Inr [(0x04, None)]"
  by (simp add: subcommand_get_info)

lemma exchange_begins:
  assumes "codec_roundtrips X" and "authenticator_ok m"
    and ask: "request_pin_for auth plugin_id (asked_for m) w = (Inr raw, w1)"
  shows "acquire_pin_uv_auth_token X env' (authenticator_transport X env) (lift_auth auth) plugin_id perm rp (m, w) =
    (if au_client_pin m = Some False then
       ebind (elift (validate_new_pin X raw (required_length m))) (\<lambda>text.
         ebind (set_pin X env' (authenticator_transport X env) (offered_protocol m) (utf8_encode text)) (\<lambda>_.
           token_with_pin X env' (authenticator_transport X env) (offered_protocol m) (utf8_encode text) perm rp))
     else if 0 \<in> set (normalize_pin X raw) then ethrow (Pin InvalidEncoding)
     else token_with_pin X env' (authenticator_transport X env) (offered_protocol m) (normalize_pin X raw) perm rp)
    (looked_at m, w1)"
proof -
  have state: "(pin_state_of (au_client_pin m) = PinNotSet) = (au_client_pin m = Some False)"
    by (simp add: pin_state_of_def split: option.split bool.split)
  have raw: "request_pin_for (lift_auth auth) plugin_id (asked_for m) (looked_at m, w) =
      (Inr raw, (looked_at m, w1))"
    using ask by (simp add: on_snd_apply)
  show ?thesis
    unfolding acquire_pin_uv_auth_token_def
    using raw state
    by (cases "au_client_pin m = Some False")
      (simp_all add: ebind_Inr [where m = "read_pin_info X (authenticator_transport X env)",
          OF read_pin_info_answered [OF assms(1,2)]] asked_for_def ebind_Inr Let_def)
qed

lemma first_pin:
  assumes laws: "symmetric_ok X" "nfc_scalars X" "codec_roundtrips X" "agreement_ok X env" "env_fills env"
    and rp: "\<And>r. rp = Some r \<Longrightarrow> length r < 2 ^ 64" and m: "au_client_pin m = Some False"
    and p: "p = offered_protocol m"
  shows "ends_as X m (pin_exchange X m raw)
    (ebind (elift (validate_new_pin X raw (required_length m))) (\<lambda>text.
       ebind (set_pin X (lift_env env) (authenticator_transport X env) p (utf8_encode text)) (\<lambda>_.
         token_with_pin X (lift_env env) (authenticator_transport X env) p (utf8_encode text) perm rp))
     (looked_at m, w))"
proof (cases "validate_new_pin X raw (required_length m)")
  case (Inl e)
  then show ?thesis using m looked by (auto simp: pin_exchange_def ends_as_def)
next
  case (Inr u)
  let ?pin = "utf8_encode u"
  have pin: "length ?pin \<le> 64" "0 \<notin> set ?pin" using validated_pin_bytes [OF laws(2) Inr] by simp_all
  obtain m2 w2 cs where set: "set_pin X (lift_env env) (authenticator_transport X env) p ?pin (looked_at m, w) =
      (rbind (split_client_pin_status [au_set_pin_status m]) (\<lambda>_. Inr ()), (m2, w2))"
    "au_stored_pin m2 = (if au_set_pin_status m = 0 then Some ?pin else au_stored_pin m)"
    "au_log m2 = au_log (looked_at m) @ cs" "subcommands X cs = Inr [(0x06, Some 2), (0x06, Some 3)]"
    by (rule set_pin_answered [OF laws(1,3,4,5) pin, of p "looked_at m" w]) simp
  show ?thesis
  proof (cases "status_error (au_set_pin_status m)")
    case (Some e)
    then show ?thesis
      using Inr m set status_error_cases [of "au_set_pin_status m"] subcommands_append [OF looked set(4)]
      by (auto simp: pin_exchange_def ebind_apply Let_def intro: ends_asI)
  next
    case None
    then have z: "au_set_pin_status m = 0" by (simp add: status_error_cases)
    then have none: "split_client_pin_status [au_set_pin_status m] = Inr []"
      using split_ok_response [of X None] by (simp add: ok_response_def)
    obtain m3 w3 ds where tok: "token_with_pin X (lift_env env) (authenticator_transport X env) p ?pin perm rp (m2, w2) =
        (token_outcome X p (au_stored_pin m2) ?pin, (m3, w3))"
      "au_stored_pin m3 = au_stored_pin m2" "au_log m3 = au_log m2 @ ds"
      "subcommands X ds = Inr [(0x06, Some 2), (0x06, Some 9)]"
      by (rule token_answered [OF laws(1,3,4,5) rp])
    show ?thesis
      using p Inr m z None none set tok subcommands_append [OF looked subcommands_append [OF set(4) tok(4)]]
      by (auto simp: pin_exchange_def ebind_apply token_outcome_def Let_def intro: ends_asI)
  qed
qed

lemma entered_pin:
  assumes laws: "symmetric_ok X" "codec_roundtrips X" "agreement_ok X env" "env_fills env"
    and rp: "\<And>r. rp = Some r \<Longrightarrow> length r < 2 ^ 64" and m: "au_client_pin m \<noteq> Some False"
  shows "ends_as X m (pin_exchange X m raw)
    ((if 0 \<in> set (normalize_pin X raw) then ethrow (Pin InvalidEncoding)
      else token_with_pin X (lift_env env) (authenticator_transport X env) (offered_protocol m)
        (normalize_pin X raw) perm rp) (looked_at m, w))"
proof (cases "0 \<in> set (normalize_pin X raw)")
  case True
  then show ?thesis using m looked by (auto simp: pin_exchange_def Let_def ends_as_def)
next
  case False
  obtain m3 w3 ds where tok: "token_with_pin X (lift_env env) (authenticator_transport X env) (offered_protocol m)
      (normalize_pin X raw) perm rp (looked_at m, w) =
      (token_outcome X (offered_protocol m) (au_stored_pin (looked_at m)) (normalize_pin X raw), (m3, w3))"
    "au_stored_pin m3 = au_stored_pin (looked_at m)" "au_log m3 = au_log (looked_at m) @ ds"
    "subcommands X ds = Inr [(0x06, Some 2), (0x06, Some 9)]"
    by (rule token_answered [OF laws rp])
  then show ?thesis
    using False m subcommands_append [OF looked tok(4)]
    by (auto simp: pin_exchange_def Let_def intro: ends_asI)
qed

text \<open>C20: the PIN exchange does what it is for. Against an authenticator that computes its side on its own,
  for any PIN, any offered protocols and any state: a key without a PIN gets exactly the normalised PIN
  the user chose, if it is acceptable, and the run ends with the authenticator's token; a key with a PIN
  grants its token if the entered PIN has the stored one's hash, and is otherwise left as it was; the
  commands are the expected ones in the expected order, and every failure is the typed one.\<close>

theorem pin_exchange_is_correct:
  assumes "symmetric_ok X" and "nfc_scalars X" and "codec_roundtrips X" and "agreement_ok X env"
    and "env_fills env" and "authenticator_ok m" and "\<And>r. rp = Some r \<Longrightarrow> length r < 2 ^ 64"
    and "request_pin_for auth plugin_id (asked_for m) w = (Inr raw, w1)"
  shows "\<exists>m' w' cs.
    acquire_pin_uv_auth_token X (lift_env env) (authenticator_transport X env) (lift_auth auth) plugin_id perm rp
      (m, w) = (fst (pin_exchange X m raw), (m', w')) \<and>
    au_stored_pin m' = fst (snd (pin_exchange X m raw)) \<and>
    au_log m' = au_log m @ cs \<and> subcommands X cs = Inr (snd (snd (pin_exchange X m raw)))"
proof -
  have "ends_as X m (pin_exchange X m raw) (acquire_pin_uv_auth_token X (lift_env env)
      (authenticator_transport X env) (lift_auth auth) plugin_id perm rp (m, w))"
    using first_pin [OF assms(1-5,7)] entered_pin [OF assms(1,3,4,5,7)]
    by (simp add: exchange_begins [OF assms(3,6,8)])
  then show ?thesis unfolding ends_as_def by (metis prod.collapse)
qed

lemma ref_codec_roundtrips: "codec_roundtrips ref_externals"
  by (simp add: codec_roundtrips_def ref_cbor_roundtrips)

lemma ref_agreement_ok: "agreement_ok ref_externals ref_env"
  by (simp add: agreement_ok_def ref_externals_def ec2_sec1_def Let_def unbe_be mod_mult_right_eq ac_simps)

text \<open>The user of the tests acts on a log of what was asked; the process environment acts beside it.\<close>

lemma lifted_laws:
  "agreement_ok X env \<Longrightarrow> agreement_ok X (lift_env env)" "env_fills env \<Longrightarrow> env_fills (lift_env env)"
  by (simp_all add: agreement_ok_def env_fills_def lift_env_def case_prod_unfold Let_def)

theorem pin_exchange_is_correct_witness:
  "\<exists>m' w'. acquire_pin_uv_auth_token ref_externals (lift_env (lift_env ref_env))
       (authenticator_transport ref_externals (lift_env ref_env))
       (lift_auth (pin_source (utf8_encode [49, 50, 51, 52])))
       ''fido2'' 1 (Some ''rp.test'') (authenticator_new 2 (Some False), ([], 0)) =
       (Inr \<lparr>ses_protocol = ProtoTwo, ses_token = MOCK_TOKEN\<rparr>, (m', w')) \<and>
     au_stored_pin m' = Some (utf8_encode [49, 50, 51, 52])"
proof -
  let ?m = "authenticator_new 2 (Some False)" and ?raw = "utf8_encode [49, 50, 51, 52]"
  have m: "authenticator_ok ?m" by (simp add: authenticator_ok_def authenticator_new_def is_i64_def)
  have ask: "request_pin_for (pin_source ?raw) ''fido2'' (asked_for ?m) ([], 0 :: nat) =
      (Inr ?raw, ([asked_for ?m], 0))" by (simp add: pin_source_def Let_def)
  have "status_error 0 = None" by (simp add: status_error_cases)
  then have "pin_exchange ref_externals ?m ?raw =
      (Inr \<lparr>ses_protocol = ProtoTwo, ses_token = MOCK_TOKEN\<rparr>, Some ?raw,
       [(0x04, None), (0x06, Some 2), (0x06, Some 3), (0x06, Some 2), (0x06, Some 9)])"
    using example_pin_validates
    by (simp add: pin_exchange_def authenticator_new_def offered_protocol_def required_length_def
        DEFAULT_MIN_PIN_LENGTH_def protocol_from_int_def Let_def)
  then show ?thesis
    using pin_exchange_is_correct [OF ref_symmetric_ok ref_nfc_scalars ref_codec_roundtrips
        lifted_laws(1) [OF ref_agreement_ok] lifted_laws(2) [OF ref_env_fills] m _ ask, of "Some ''rp.test''" 1]
    by auto
qed

end
