(* ===== verification/Described_Authenticator.thy ===== *)
theory Described_Authenticator
  imports Pin_Authenticator Authenticator_Info
begin

section \<open>Describing a known authenticator\<close>

text \<open>
  The tests of src/authenticator\_info.rs describe a \<open>Fake\<close> authenticator whose facts are known. Here that
  authenticator is a transport over the log of its commands, and the description is proved to be exactly
  its facts, for all of them.
\<close>

record described =
  ds_extensions :: "string list"
  ds_client_pin :: "bool option"
  ds_force_pin_change :: "bool option"
  ds_min_pin_length :: "nat option"
  ds_protocols :: "int list option"
  ds_retries :: nat
  ds_performs_uv :: bool

definition yubikey :: "bool option \<Rightarrow> described" where
  "yubikey client_pin =
     \<lparr>ds_extensions = [''previewSign'', ''hmac-secret''], ds_client_pin = client_pin, ds_force_pin_change = None,
      ds_min_pin_length = None, ds_protocols = Some [2, 1], ds_retries = 8, ds_performs_uv = False\<rparr>"

definition described_aaguid :: bytes where
  "described_aaguid = map of_nat [0..<16]"

definition described_info :: "described \<Rightarrow> cbor" where
  "described_info d =
     CMap ([(CInteger 1, CArray [CText ''FIDO_2_1'', CText ''FIDO_2_0'']),
            (CInteger 2, CArray (map CText (ds_extensions d))),
            (CInteger 3, CBytes described_aaguid),
            (CInteger 4, CMap ((CText ''rk'', CBool True) # (case ds_client_pin d of
                 Some cp \<Rightarrow> [(CText ''clientPin'', CBool cp)] | None \<Rightarrow> [])))]
       @ (case ds_protocols d of Some ps \<Rightarrow> [(CInteger 6, CArray (map CInteger ps))] | None \<Rightarrow> [])
       @ (case ds_force_pin_change d of Some f \<Rightarrow> [(CInteger 12, CBool f)] | None \<Rightarrow> [])
       @ (case ds_min_pin_length d of Some n \<Rightarrow> [(CInteger 13, CInteger (int n))] | None \<Rightarrow> []))"

definition described_command :: "externals \<Rightarrow> described \<Rightarrow> bytes \<Rightarrow> (bytes list \<times> 'w, bytes) weff" where
  "described_command X d command =
     ebind (emodify (\<lambda>(log, w). (log @ [command], w))) (\<lambda>_.
     ebind (elift (unwrap ''index out of bounds'' (list_head command))) (\<lambda>b.
       if b = 0x04 then ereturn (ok_response X (Some (described_info d)))
       else if b = 0x06 then
         ebind (elift (map_err RustPanic (from_reader X (drop 1 command)))) (\<lambda>v.
         ebind (elift (int_field v 2)) (\<lambda>sub.
         ebind (elift (assert_that ''only getPinRetries is allowed'' (sub = 1))) (\<lambda>_.
           ereturn (ok_response X (Some (CMap [(CInteger 3, CInteger (int (ds_retries d)))]))))))
       else ethrow (RustPanic ''describe must not send this command'')))"

definition described_transport :: "externals \<Rightarrow> described \<Rightarrow> (bytes list \<times> 'w) ctap2_transport" where
  "described_transport X d =
     \<lparr>ctap2_send_command = described_command X d, performs_user_verification = ds_performs_uv d\<rparr>"

text \<open>The types of the fields, and sizes the codec can write.\<close>

definition described_ok :: "described \<Rightarrow> bool" where
  "described_ok d \<longleftrightarrow>
     length (ds_extensions d) < 2 ^ 64 \<and> list_all (\<lambda>e. length e < 2 ^ 64) (ds_extensions d) \<and>
     (\<forall>n. ds_min_pin_length d = Some n \<longrightarrow> n < 2 ^ 32) \<and> ds_retries d < 2 ^ 32 \<and>
     (\<forall>ps. ds_protocols d = Some ps \<longrightarrow> list_all is_i64 ps \<and> length ps < 2 ^ 64)"

text \<open>
  The verdict these facts entail, on the facts themselves: without previewSign nothing can be enrolled; a transport
  that verifies the user needs nothing else; any other needs a PIN that exists or can be set, need not be changed
  first and has a try left, and a PIN protocol of the two, unless none is listed.
\<close>

definition expected_verdict :: "described \<Rightarrow> enrolment_suitability" where
  "expected_verdict d =
     (if \<not> (\<exists>e \<in> set (ds_extensions d). e = ''previewSign'')
      then Unsuitable ''the authenticator does not advertise the previewSign extension''
      else if ds_performs_uv d then Suitable
      else case ds_client_pin d of
        None \<Rightarrow> Unsuitable (''the authenticator has no PIN support (clientPin option absent), ''
          @ ''but enrolment needs PIN user verification'')
      | Some pin_set \<Rightarrow>
          if ds_force_pin_change d = Some True
          then Unsuitable ''the authenticator requires its PIN to be changed before it can be used''
          else if pin_set \<and> ds_retries d = 0
          then Unsuitable (''the authenticator's PIN is blocked (no attempts left), ''
            @ ''so the PIN token exchange enrolment needs cannot succeed'')
          else case ds_protocols d of
            None \<Rightarrow> Suitable
          | Some ps \<Rightarrow>
              if (\<exists>p \<in> set ps. 0 \<le> p \<and> p < 2 ^ 32) \<and> 1 \<notin> set ps \<and> 2 \<notin> set ps
              then Unsuitable (''the authenticator supports no PinUvAuthProtocol this library ''
                @ ''implements (1 or 2)'')
              else Suitable)"

text \<open>What a host should be shown.\<close>

definition facts :: "described \<Rightarrow> authenticator_info" where
  "facts d =
     \<lparr>ai_versions = [''FIDO_2_1'', ''FIDO_2_0''], ai_aaguid = described_aaguid,
      ai_client_pin = pin_state_of (ds_client_pin d),
      ai_min_pin_length = (case ds_min_pin_length d of Some n \<Rightarrow> n | None \<Rightarrow> 4),
      ai_force_pin_change = (ds_force_pin_change d = Some True),
      ai_pin_retries = (if ds_client_pin d = Some True then Some (ds_retries d) else None),
      ai_pin_uv_auth_protocols =
        (case ds_protocols d of Some ps \<Rightarrow> filter_map try_u32 ps | None \<Rightarrow> []),
      ai_extensions = ds_extensions d,
      ai_options = (case ds_client_pin d of
          Some b \<Rightarrow> hm_insert ''clientPin'' b [(''rk'', True)] | None \<Rightarrow> [(''rk'', True)]),
      ai_suitability = expected_verdict d\<rparr>"

lemma nesting_texts: "foldr max (map nesting (map CText es)) 0 = 0"
  by (induction es) simp_all

lemma texts_ok: "list_all (\<lambda>e. length e < 2 ^ 64) es \<Longrightarrow> list_all cbor_ok (map CText es)"
  by (induction es) auto

lemma filter_map_texts: "filter_map as_text (map CText es) = es"
  by (induction es) simp_all

lemma filter_map_integers:
  "filter_map (\<lambda>v. Option.bind (as_integer v) f) (map CInteger ps) = filter_map f ps"
  by (induction ps) (simp_all split: option.split)

lemma described_info_ok:
  assumes "described_ok d"
  shows "cbor_ok (described_info d)" and "nesting (described_info d) \<le> 8"
proof -
  have n: "n < 2 ^ 32" if "ds_min_pin_length d = Some n" for n
    using assms that by (simp add: described_ok_def)
  have ps: "list_all cbor_ok (map CInteger ps)" "length ps < 2 ^ 64" if "ds_protocols d = Some ps" for ps
    using assms that integers_ok [of ps] by (simp_all add: described_ok_def)
  show "cbor_ok (described_info d)"
    using assms n ps texts_ok [of "ds_extensions d"]
    by (auto simp: described_info_def described_ok_def described_aaguid_def split: option.split)
  show "nesting (described_info d) \<le> 8"
    using nesting_texts [of "ds_extensions d"] nesting_integers
    by (auto simp: described_info_def split: option.split)
qed

lemma get_info_parsed:
  assumes X: "codec_roundtrips X" and d: "described_ok d"
  shows "parse_get_info X (cbor_enc X (described_info d)) =
    Inr ((facts d)\<lparr>ai_pin_retries := None, ai_suitability := Suitable\<rparr>)"
proof -
  have r: "read_cbor X what (cbor_enc X (described_info d)) = Inr (described_info d)" for what
    by (rule codec_roundtripsD(2) [OF X described_info_ok [OF d]])
  have n: "try_u32 (int n) = Some n" if "ds_min_pin_length d = Some n" for n
    using d that by (simp add: described_ok_def try_u32_def)
  have options: "fold (\<lambda>(n, b). hm_insert n b) (bool_options ((CText ''rk'', CBool True) # (case ds_client_pin d of
        Some cp \<Rightarrow> [(CText ''clientPin'', CBool cp)] | None \<Rightarrow> []))) [] = ai_options (facts d)"
    by (simp add: bool_options_def facts_def Let_def hm_insert_def split: option.split)
  have pin: "pin_state_of (hm_get (ai_options (facts d)) ''clientPin'') = pin_state_of (ds_client_pin d)"
    by (cases "ds_client_pin d") (simp_all add: facts_def Let_def, simp add: hm_get_def)
  have parts: "\<exists>m. described_info d = CMap m \<and>
      get_value_by_int m 1 = Some (CArray [CText ''FIDO_2_1'', CText ''FIDO_2_0'']) \<and>
      get_value_by_int m 2 = Some (CArray (map CText (ds_extensions d))) \<and>
      get_value_by_int m 3 = Some (CBytes described_aaguid) \<and>
      get_value_by_int m 4 = Some (CMap ((CText ''rk'', CBool True) # (case ds_client_pin d of
        Some cp \<Rightarrow> [(CText ''clientPin'', CBool cp)] | None \<Rightarrow> []))) \<and>
      get_value_by_int m 6 = map_option (\<lambda>ps. CArray (map CInteger ps)) (ds_protocols d) \<and>
      get_value_by_int m 12 = map_option CBool (ds_force_pin_change d) \<and>
      get_value_by_int m 13 = map_option (\<lambda>n. CInteger (int n)) (ds_min_pin_length d)"
    unfolding described_info_def
    by (cases "ds_protocols d"; cases "ds_force_pin_change d"; cases "ds_min_pin_length d") simp_all
  then obtain m where m: "described_info d = CMap m"
    "get_value_by_int m 1 = Some (CArray [CText ''FIDO_2_1'', CText ''FIDO_2_0''])"
    "get_value_by_int m 2 = Some (CArray (map CText (ds_extensions d)))"
    "get_value_by_int m 3 = Some (CBytes described_aaguid)"
    "get_value_by_int m 4 = Some (CMap ((CText ''rk'', CBool True) # (case ds_client_pin d of
        Some cp \<Rightarrow> [(CText ''clientPin'', CBool cp)] | None \<Rightarrow> [])))"
    "get_value_by_int m 6 = map_option (\<lambda>ps. CArray (map CInteger ps)) (ds_protocols d)"
    "get_value_by_int m 12 = map_option CBool (ds_force_pin_change d)"
    "get_value_by_int m 13 = map_option (\<lambda>n. CInteger (int n)) (ds_min_pin_length d)"
    by blast
  have a: "length described_aaguid = 16" by (simp add: described_aaguid_def)
  have protocols: "(case Option.bind (map_option (\<lambda>ps. CArray (map CInteger ps)) (ds_protocols d)) as_array of
      Some a \<Rightarrow> filter_map (\<lambda>p. Option.bind (as_integer p) try_u32) a | None \<Rightarrow> []) =
      ai_pin_uv_auth_protocols (facts d)"
    by (simp add: facts_def Let_def filter_map_integers split: option.split)
  have least: "(case Option.bind (Option.bind (map_option (\<lambda>n. CInteger (int n)) (ds_min_pin_length d)) as_integer)
      try_u32 of Some n \<Rightarrow> n | None \<Rightarrow> DEFAULT_MIN_PIN_LENGTH) = ai_min_pin_length (facts d)"
    using n by (auto simp: facts_def Let_def DEFAULT_MIN_PIN_LENGTH_def split: option.split)
  have force: "(case Option.bind (map_option CBool (ds_force_pin_change d)) as_bool of Some b \<Rightarrow> b | None \<Rightarrow> False) =
      ai_force_pin_change (facts d)"
    by (cases "ds_force_pin_change d") (simp_all add: facts_def Let_def)
  have rest: "ai_versions (facts d) = [''FIDO_2_1'', ''FIDO_2_0'']" "ai_aaguid (facts d) = described_aaguid"
    "ai_client_pin (facts d) = pin_state_of (ds_client_pin d)" "ai_extensions (facts d) = ds_extensions d"
    by (simp_all add: facts_def Let_def)
  show ?thesis
    unfolding parse_get_info_def m r [unfolded m(1)] rbind_simps as_map.simps crypto_err_simps Let_def text_list_def
      Option.bind.simps as_cbytes.simps as_array.simps option.case filter_map_texts
      protocols least force options pin
    by (simp add: a rest)
qed

text \<open>The authenticator's answers to the two commands of a description.\<close>

lemma described_answers:
  assumes "codec_roundtrips X"
  shows "ctap2_send_command (described_transport X d) [0x04] (log, w) =
      (Inr (ok_response X (Some (described_info d))), (log @ [[0x04]], w))"
    and "ctap2_send_command (described_transport X d) (pin_retries_command X p) (log, w) =
      (Inr (ok_response X (Some (CMap [(CInteger 3, CInteger (int (ds_retries d)))]))),
       (log @ [pin_retries_command X p], w))"
proof -
  show "ctap2_send_command (described_transport X d) [0x04] (log, w) =
      (Inr (ok_response X (Some (described_info d))), (log @ [[0x04]], w))"
    by (simp add: described_transport_def described_command_def list_head_def ebind_apply)
  let ?params = "CMap [(CInteger 1, CInteger (protocol_as_int p)), (CInteger 2, CInteger 1)]"
  have "from_reader X (cbor_enc X ?params) = Inr ?params"
    by (rule codec_roundtripsD(1) [OF assms]) simp_all
  then show "ctap2_send_command (described_transport X d) (pin_retries_command X p) (log, w) =
      (Inr (ok_response X (Some (CMap [(CInteger 3, CInteger (int (ds_retries d)))]))),
       (log @ [pin_retries_command X p], w))"
    by (simp add: described_transport_def described_command_def list_head_def ebind_apply pin_retries_command_def
        encode_command_def CTAP2_CLIENT_PIN_def SUBCMD_GET_PIN_RETRIES_def int_field_def)
qed

lemma retries_read:
  assumes X: "codec_roundtrips X" and d: "described_ok d"
  shows "get_pin_retries X (described_transport X d) p (log, w) =
    (Inr (ds_retries d), (log @ [pin_retries_command X p], w))"
proof -
  let ?reply = "CMap [(CInteger 3, CInteger (int (ds_retries d)))]"
  have n: "ds_retries d < 2 ^ 32" using d by (simp add: described_ok_def)
  have "read_cbor X what (cbor_enc X ?reply) = Inr ?reply" for what
    by (rule codec_roundtripsD(2) [OF X]) (use n in simp_all)
  then show ?thesis
    using n described_answers(2) [OF X, of d p log w]
    by (simp add: get_pin_retries_def pin_retries_command_def ebind_apply try_u32_def)
qed

text \<open>The code's verdict is the expected one.\<close>

lemma protocols_listed:
  "filter_map try_u32 ps \<noteq> [] \<longleftrightarrow> (\<exists>p \<in> set ps. 0 \<le> p \<and> p < 2 ^ 32)"
  "list_ex (\<lambda>p. \<exists>y. protocol_from_int (int p) = Some y) (filter_map try_u32 ps) \<longleftrightarrow> 1 \<in> set ps \<or> 2 \<in> set ps"
  by (induction ps) (auto simp: try_u32_def protocol_from_int_def)

lemma verdict_expected: "suitability (facts d) (ds_performs_uv d) = expected_verdict d"
  unfolding suitability_def expected_verdict_def
  by (cases "ds_client_pin d"; cases "ds_protocols d")
    (auto simp: facts_def PREVIEW_SIGN_EXTENSION_def pin_state_of_def protocols_listed simp del: filter_map.simps
      split: bool.splits)

lemma verdict_of_facts:
  "suitability (info\<lparr>ai_suitability := s\<rparr>) uv = suitability info uv"
  "suitability (info\<lparr>ai_suitability := s, ai_pin_retries := n\<rparr>) uv = suitability (info\<lparr>ai_pin_retries := n\<rparr>) uv"
  "(facts d)\<lparr>ai_suitability := expected_verdict d\<rparr> = facts d"
  by (simp_all add: suitability_def facts_def)

text \<open>C38: the description is what the authenticator says. For any facts an authenticator reports - extensions,
  PIN state, minimum length, protocols, retry counter - the description shows exactly these, with the
  documented defaults for what is absent and the verdict they entail; the counter is read when a PIN is
  set and only then, and no other command is sent.\<close>

theorem description_is_the_facts:
  assumes "codec_roundtrips X" and "described_ok d"
  shows "describe_authenticator X (described_transport X d) (log, w) =
    (Inr (facts d),
     (log @ [[0x04]] @ (if ds_client_pin d = Some True
        then [pin_retries_command X (chosen_protocol (ai_pin_uv_auth_protocols (facts d)))] else []), w))"
proof -
  have status: "split_status (ok_response X (Some v)) = Inr (cbor_enc X v)" for v
    by (simp add: ok_response_def split_status_def list_head_def slice_or_panic_def slice_from_def)
  have pin: "(ai_client_pin (facts d) = PinSet) = (ds_client_pin d = Some True)"
    by (simp add: facts_def Let_def pin_state_of_def split: option.split bool.split)
  have uv: "performs_user_verification (described_transport X d) = ds_performs_uv d"
    by (simp add: described_transport_def)
  have retries: "(facts d)\<lparr>ai_pin_retries := if ds_client_pin d = Some True then Some (ds_retries d) else None\<rparr>
      = facts d" by (simp add: facts_def)
  show ?thesis
    by (simp add: describe_authenticator_def ebind_apply described_answers [OF assms(1)] status
        get_info_parsed [OF assms] pin uv retries_read [OF assms])
      (use retries in \<open>auto simp: verdict_of_facts verdict_expected\<close>)
qed

theorem description_is_the_facts_witness:
  "fst (describe_authenticator ref_externals (described_transport ref_externals (yubikey (Some True))) ([], 0 :: nat)) =
     Inr (facts (yubikey (Some True))) \<and>
   ai_pin_retries (facts (yubikey (Some True))) = Some 8 \<and>
   ai_suitability (facts (yubikey (Some True))) = Suitable"
proof -
  have ok: "described_ok (yubikey (Some True))" by (simp add: described_ok_def yubikey_def is_i64_def)
  have "ai_pin_retries (facts (yubikey (Some True))) = Some 8"
    "ai_suitability (facts (yubikey (Some True))) = Suitable"
    by (simp_all add: facts_def yubikey_def expected_verdict_def)
  then show ?thesis using description_is_the_facts [OF ref_codec_roundtrips ok, of "[]" "0 :: nat"] by simp
qed

end
