(* ===== verification/Device_Models.thy ===== *)
theory Device_Models
  imports Android_Keystore Apple_Secure_Enclave
begin

section \<open>The devices of the plugin tests\<close>

text \<open>
  The tests of src/plugins/android\_keystore.rs and src/plugins/apple\_secure\_enclave.rs run the plugins
  over in-memory devices, \<open>FakeCallback\<close> and \<open>FakeSecureEnclave\<close>, whose failures can be chosen. Here
  these devices are states with their callbacks, so that what the tests check for a few settings is
  proved for every device state, and what the plugins' theorems assume of a device has a device that
  keeps it.
\<close>

subsection \<open>The Keystore\<close>

record fake_key =
  fk_level :: android_level
  fk_jwk :: json
  fk_attestation_challenge :: "bytes option"

record android_device =
  ad_strongbox_available :: bool
  ad_strongbox_attempts :: "64 word"
  ad_keys :: "(string, fake_key) hashmap"
  ad_delete_fails :: bool
  ad_delete_fails_after_call :: "64 word"
  ad_delete_calls :: "64 word"
  ad_public_key_jwk_fails :: bool
  ad_tee_generate_fails :: bool

definition android_device_new :: "bool \<Rightarrow> android_device" where
  "android_device_new strongbox =
     \<lparr>ad_strongbox_available = strongbox, ad_strongbox_attempts = 0, ad_keys = [], ad_delete_fails = False,
      ad_delete_fails_after_call = 18446744073709551615, ad_delete_calls = 0, ad_public_key_jwk_fails = False,
      ad_tee_generate_fails = False\<rparr>"

text \<open>The challenge that reached the device for an alias.\<close>

definition received_challenge :: "android_device \<Rightarrow> string \<Rightarrow> bytes option" where
  "received_challenge d alias = Option.bind (hm_get (ad_keys d) alias) fk_attestation_challenge"

definition device_generate ::
  "externals \<Rightarrow> string \<Rightarrow> bytes option \<Rightarrow> bool \<Rightarrow> (android_device \<times> 'w, android_level) weff" where
  "device_generate X alias challenge strong_box = (\<lambda>(d, w).
     let d1 = (if strong_box then d\<lparr>ad_strongbox_attempts := ad_strongbox_attempts d + 1\<rparr> else d) in
     if strong_box \<and> \<not> ad_strongbox_available d then (Inl StrongBoxUnavailable, (d1, w))
     else if \<not> strong_box \<and> ad_tee_generate_fails d
     then (Inl (Plugin ''TEE generate failed (fake)''), (d1, w))
     else
       let level = (if strong_box then LvStrongBox else LvTrustedExecution);
           jwk = jwk_ec X ''P-256'' (as_bytes alias) (replicate 32 7)
       in (Inr level,
           (d1\<lparr>ad_keys := hm_insert alias
             \<lparr>fk_level = level, fk_jwk = jwk, fk_attestation_challenge = challenge\<rparr> (ad_keys d1)\<rparr>, w)))"

definition device_key :: "string \<Rightarrow> (fake_key \<Rightarrow> 'a wres) \<Rightarrow> (android_device \<times> 'w, 'a) weff" where
  "device_key alias f = (\<lambda>(d, w).
     (rbind (ok_or (RustPanic ''called `Option::unwrap()` on a `None` value'') (hm_get (ad_keys d) alias)) f, (d, w)))"

definition device_jwk :: "string \<Rightarrow> (android_device \<times> 'w, json) weff" where
  "device_jwk alias = (\<lambda>(d, w).
     if ad_public_key_jwk_fails d then (Inl (Plugin ''public_key_jwk failed (fake)''), (d, w))
     else device_key alias (\<lambda>k. Inr (fk_jwk k)) (d, w))"

definition device_delete :: "string \<Rightarrow> (android_device \<times> 'w, unit) weff" where
  "device_delete alias = (\<lambda>(d, w).
     let call_index = ad_delete_calls d; d1 = d\<lparr>ad_delete_calls := call_index + 1\<rparr> in
     if ad_delete_fails d \<or> ad_delete_fails_after_call d \<le> call_index
     then (Inl (Plugin ''delete failed (fake)''), (d1, w))
     else (Inr (), (d1\<lparr>ad_keys := hm_remove alias (ad_keys d1)\<rparr>, w)))"

definition device_callback :: "externals \<Rightarrow> (android_device \<times> 'w) android_callback" where
  "device_callback X =
     \<lparr>ak_generate = (\<lambda>alias challenge strong_box _ _. device_generate X alias challenge strong_box),
      ak_certificate_chain = (\<lambda>_. ereturn [[1, 2, 3], [4, 5, 6]]),
      ak_public_key_jwk = device_jwk,
      ak_security_level = (\<lambda>alias. device_key alias (\<lambda>k. Inr (fk_level k))),
      ak_user_authentication_methods = (\<lambda>_. ereturn []),
      ak_sign = (\<lambda>_ data. ereturn data),
      ak_aliases = easks (hm_keys \<circ> ad_keys \<circ> fst),
      ak_delete = device_delete\<rparr>"

text \<open>The device keeps what the plugin's theorems assume of it.\<close>

definition device_aliases :: "android_device \<times> 'w \<Rightarrow> string set" where
  "device_aliases s = {a. hm_get (ad_keys (fst s)) a \<noteq> None}"

lemma device_keystore_ok: "keystore_ok (device_callback X) (lift_env env) device_aliases"
  by (auto simp: keystore_ok_def device_callback_def device_generate_def device_delete_def device_jwk_def
      device_key_def device_aliases_def lift_env_def Let_def case_prod_unfold split: if_splits)

text \<open>A device on which only StrongBox may be missing.\<close>

definition healthy :: "android_device \<Rightarrow> bool" where
  "healthy d \<longleftrightarrow> \<not> ad_delete_fails d \<and> ad_delete_calls d < ad_delete_fails_after_call d \<and>
     \<not> ad_public_key_jwk_fails d \<and> \<not> ad_tee_generate_fails d"

definition best_level :: "android_device \<Rightarrow> android_level" where
  "best_level d = (if ad_strongbox_available d then LvStrongBox else LvTrustedExecution)"

lemma new_alias_lifted:
  obtains al w' where "new_alias X (lift_env env) (d, w) = (Inr al, (d, w'))"
proof
  show "new_alias X (lift_env env) (d, w) =
      (Inr (''org.siros.wscd.android-keystore.'' @ b64url_enc X (fst (env_rand env 16 w))),
       (d, snd (env_rand env 16 w)))"
    by (simp add: new_alias_def ebind_apply rand_fill_def etotal_apply lift_env_def case_prod_unfold Let_def)
qed

text \<open>The key that an attempt leaves on the device.\<close>

definition generated :: "externals \<Rightarrow> android_device \<Rightarrow> string \<Rightarrow> bytes \<Rightarrow> fake_key" where
  "generated X d alias challenge =
     \<lparr>fk_level = best_level d, fk_jwk = jwk_ec X ''P-256'' (as_bytes alias) (replicate 32 7),
      fk_attestation_challenge = Some challenge\<rparr>"

text \<open>The alias drawn for the first attempt, and the device once a run has ended under the alias \<open>al\<close>.\<close>

definition first_alias :: "externals \<Rightarrow> 'w env \<Rightarrow> 'w \<Rightarrow> string" where
  "first_alias X env w = ''org.siros.wscd.android-keystore.'' @ b64url_enc X (fst (env_rand env 16 w))"

lemma new_alias_first:
  obtains w' where "new_alias X (lift_env env) (d, w) = (Inr (first_alias X env w), (d, w'))"
proof
  show "new_alias X (lift_env env) (d, w) = (Inr (first_alias X env w), (d, snd (env_rand env 16 w)))"
    by (simp add: new_alias_def first_alias_def ebind_apply rand_fill_def etotal_apply lift_env_def
        case_prod_unfold Let_def)
qed

lemma best_effort_on_device:
  assumes h: "healthy d"
  obtains al d' w' where
    "best_effort_generate X (lift_env env) (device_callback X) challenge (d, w) = (Inr (al, best_level d), (d', w'))"
    "\<not> ad_public_key_jwk_fails d'" "ad_strongbox_available d \<Longrightarrow> al = first_alias X env w"
    "\<And>b. hm_get (ad_keys d') b = (if b = al then Some (generated X d al challenge)
        else if b = first_alias X env w then None else hm_get (ad_keys d) b)"
proof -
  let ?a = "first_alias X env w"
  obtain w1 where a: "new_alias X (lift_env env) (d, w) = (Inr ?a, (d, w1))" by (rule new_alias_first)
  show thesis
  proof (cases "ad_strongbox_available d")
    case True
    let ?d1 = "d\<lparr>ad_strongbox_attempts := ad_strongbox_attempts d + 1\<rparr>"
    let ?d2 = "?d1\<lparr>ad_keys := hm_insert ?a (generated X d ?a challenge) (ad_keys d)\<rparr>"
    have "best_effort_generate X (lift_env env) (device_callback X) challenge (d, w) =
        (Inr (?a, best_level d), (?d2, w1))"
      using True a by (simp add: best_effort_generate_def ebind_Inr device_callback_def device_generate_def
          generated_def best_level_def Let_def)
    then show thesis by (rule that) (use h in \<open>simp_all add: healthy_def\<close>)
  next
    case False
    let ?d1 = "d\<lparr>ad_strongbox_attempts := ad_strongbox_attempts d + 1, ad_delete_calls := ad_delete_calls d + 1,
        ad_keys := hm_remove ?a (ad_keys d)\<rparr>"
    obtain t w2 where t: "new_alias X (lift_env env) (?d1, w1) = (Inr t, (?d1, w2))" by (rule new_alias_lifted)
    let ?d2 = "?d1\<lparr>ad_keys := hm_insert t (generated X d t challenge) (hm_remove ?a (ad_keys d))\<rparr>"
    have "best_effort_generate X (lift_env env) (device_callback X) challenge (d, w) =
        (Inr (t, best_level d), (?d2, w2))"
      using False h a t
      by (simp add: best_effort_generate_def ebind_Inr device_callback_def device_generate_def
          device_delete_def healthy_def not_le generated_def best_level_def Let_def)
    then show thesis by (rule that) (use h False in \<open>simp_all add: healthy_def\<close>)
  qed
qed

text \<open>C37: best-effort generation does not refuse for want of StrongBox. On a device whose deletions, public-key
  reads and TEE generations work, with or without StrongBox and whatever keys it holds, generation with a
  non-empty challenge ends with a key: the device holds it under the recorded alias, made for exactly
  the given challenge and at the recorded level, which is StrongBox where there is one and the TEE's
  otherwise. No other alias has changed, appeared or vanished, but for one that the first draw hit
  without StrongBox: it is deleted with the attempt.\<close>

theorem best_effort_never_refuses:
  assumes "healthy d" and "challenge \<noteq> []"
  shows "\<exists>g p' d' w' rec k.
    generate_key_with_challenge X (device_callback X) ES256 challenge (lift_env env) (p, (d, w)) =
      (Inr g, (p', (d', w'))) \<and>
    hm_get (an_keys p') (gk_kid g) = Some rec \<and> an_security_level rec = best_level d \<and>
    fk_level k = best_level d \<and> fk_attestation_challenge k = Some challenge \<and>
    (let first = first_alias X env (env_progress env (Started ''generate_key'') w) in
     (ad_strongbox_available d \<longrightarrow> an_alias rec = first) \<and>
     (\<forall>b. hm_get (ad_keys d') b = (if b = an_alias rec then Some k
        else if b = first then None else hm_get (ad_keys d) b)))"
proof -
  let ?w = "env_progress env (Started ''generate_key'') w"
  let ?jwk = "\<lambda>a. jwk_ec X ''P-256'' (as_bytes a) (replicate 32 7)"
  obtain a d' w' where b: "best_effort_generate X (lift_env env) (device_callback X) challenge (d, ?w) =
      (Inr (a, best_level d), (d', w'))" "\<not> ad_public_key_jwk_fails d'"
    and first: "ad_strongbox_available d \<Longrightarrow> a = first_alias X env ?w"
    and keys: "\<And>b. hm_get (ad_keys d') b = (if b = a then Some (generated X d a challenge)
        else if b = first_alias X env ?w then None else hm_get (ad_keys d) b)"
    by (rule best_effort_on_device [OF assms(1), where w = ?w]) (rule that)
  have held: "hm_get (ad_keys d') a = Some (generated X d a challenge)" by (simp add: keys)
  obtain kid where kid: "jwk_thumbprint X (?jwk a) = Inr kid" by (simp add: jwk_ec_thumbprint)
  define rec where "rec = \<lparr>an_kid = kid, an_alias = a, an_public_key_jwk = ?jwk a,
    an_certificates = [[1, 2, 3], [4, 5, 6]], an_client_data_hash = challenge,
    an_security_level = best_level d, an_user_authentication_methods = [], an_created_at = fst (env_now env w')\<rparr>"
  have f: "finish_generate_key X (lift_env env) (device_callback X) a (best_level d) challenge (p, (d', w')) =
      (Inr \<lparr>gk_kid = kid, gk_public_key_jwk = ?jwk a\<rparr>,
       (p\<lparr>an_keys := hm_insert kid rec (an_keys p)\<rparr>, (d', snd (env_now env w'))))"
    using b(2) held kid
    by (simp add: finish_generate_key_def device_callback_def device_jwk_def device_key_def ebind_apply on_snd_def
        generated_def now_unix_def etotal_apply lift_env_def case_prod_unfold Let_def modify_state_def rec_def)
  have run: "generate_key_with_challenge X (device_callback X) ES256 challenge (lift_env env) (p, (d, w)) =
      (Inr \<lparr>gk_kid = kid, gk_public_key_jwk = ?jwk a\<rparr>,
       (p\<lparr>an_keys := hm_insert kid rec (an_keys p)\<rparr>,
        (d', env_progress env Complete (snd (env_now env w')))))"
    using assms(2) b(1) f
    by (simp add: generate_key_with_challenge_def started_def completed_def ebind_apply on_snd_def lift_env_def
        on_progress_def ecatch_def)
  have r: "an_alias rec = a" "an_security_level rec = best_level d" by (simp_all add: rec_def)
  have k: "fk_level (generated X d a challenge) = best_level d"
    "fk_attestation_challenge (generated X d a challenge) = Some challenge" by (simp_all add: generated_def)
  show ?thesis
    unfolding Let_def
    by (intro exI conjI allI impI, rule run) (use r k in \<open>simp_all only: keys first, simp_all\<close>)
qed

lemma healthy_new: "healthy (android_device_new b)"
  by (simp add: healthy_def android_device_new_def)

theorem best_effort_never_refuses_witness:
  "\<exists>g p' d' w' rec.
    generate_key_with_challenge ref_externals (device_callback ref_externals) ES256 [1, 2] (lift_env ref_env)
      (android_new, (android_device_new False, 0)) = (Inr g, (p', (d', w'))) \<and>
    hm_get (an_keys p') (gk_kid g) = Some rec \<and> an_security_level rec = LvTrustedExecution \<and>
    received_challenge d' (an_alias rec) = Some [1, 2]"
  using best_effort_never_refuses [OF healthy_new, of "[1, 2]" ref_externals ref_env android_new False 0]
  by (fastforce simp: best_level_def android_device_new_def received_challenge_def Let_def)

subsection \<open>The Secure Enclave\<close>

record enclave =
  en_next :: "64 word"
  en_live_tags :: "string set"

definition enclave_new :: enclave where
  "enclave_new = \<lparr>en_next = 0, en_live_tags = {}\<rparr>"

definition enclave_generate :: "string \<Rightarrow> (enclave \<times> 'w, bytes \<times> bytes) weff" where
  "enclave_generate key_tag = (\<lambda>(e, w).
     let n = en_next e;
         e1 = e\<lparr>en_next := n + 1, en_live_tags := insert key_tag (en_live_tags e)\<rparr>
     in if n = - 1 then (Inl (RustPanic ''attempt to add with overflow''), (e1, w))
        else (Inr (replicate 32 (ucast n), replicate 32 (ucast (n + 1))), (e1, w)))"

definition enclave_sign :: "string \<Rightarrow> bytes \<Rightarrow> (enclave \<times> 'w, bytes) weff" where
  "enclave_sign key_tag data = (\<lambda>(e, w).
     (if key_tag \<notin> en_live_tags e then Inl (KeyNotFound key_tag)
      else Inr (take 64 data @ replicate (64 - length data) 0), (e, w)))"

definition enclave_delete :: "string \<Rightarrow> (enclave \<times> 'w, unit) weff" where
  "enclave_delete key_tag = (\<lambda>(e, w).
     if key_tag \<notin> en_live_tags e then (Inl (KeyNotFound key_tag), (e, w))
     else (Inr (), (e\<lparr>en_live_tags := en_live_tags e - {key_tag}\<rparr>, w)))"

definition enclave_callback :: "(enclave \<times> 'w) secure_enclave_callback" where
  "enclave_callback =
     \<lparr>se_generate_key = enclave_generate, se_sign = enclave_sign, se_delete_key = enclave_delete\<rparr>"

text \<open>
  A record can always be deleted, also one whose Keychain item is gone already; the tag and the record
  are both gone then.
\<close>

lemma stale_record_is_not_stuck:
  assumes "hm_get (es_keys p) kid = Some k"
  shows "apple_delete_key enclave_callback kid (p, (e, w)) =
    (Inr (), (p\<lparr>es_keys := hm_remove kid (es_keys p)\<rparr>,
      (e\<lparr>en_live_tags := en_live_tags e - {es_key_tag k}\<rparr>, w)))"
  using assms by (simp add: apple_delete_cases enclave_callback_def enclave_delete_def)

text \<open>A generated key signs with its tag, and the same data comes back in 64 bytes.\<close>

lemma generated_enclave_key_signs:
  assumes "apple_generate_key X enclave_callback alg env' auth (p, (e, w)) = (Inr g, (p', (e', w')))"
    and env: "env' = lift_env env"
  shows "\<exists>w''. apple_sign enclave_callback (gk_kid g) data ES256 env' auth (p', (e', w')) =
    (Inr (take 64 data @ replicate (64 - length data) 0), (p', (e', w'')))"
proof -
  obtain tag k where k: "hm_get (es_keys p') (gk_kid g) = Some k" "es_key_tag k = tag" "tag \<in> en_live_tags e'"
    using assms(1) unfolding apple_generate_key_def env
    by (auto simp: eff_elims enclave_callback_def enclave_generate_def lift_env_def random_key_tag_def
        Let_def case_prod_unfold split: if_splits prod.splits)
  then show ?thesis
    by (simp add: apple_sign_def env started_def completed_def ebind_apply on_snd_def get_state_def find_key_def
        enclave_callback_def enclave_sign_def lift_env_def on_progress_def)
qed

end
