(* ===== verification/Timeutil.thy ===== *)
theory Timeutil
  imports Wscd_Prelude
begin

section \<open>The clock: src/timeutil.rs\<close>

text \<open>
  Seconds since the Unix epoch, as a native build and as a browser build compute them. The system clock is
  the parameter: nanoseconds since the epoch, negative for a clock set before it, and for a browser the
  whole milliseconds of \<open>Date.now()\<close>. The quotient of the browser build is a floating-point one; for the
  milliseconds a \<open>Date\<close> can hold (at most 8.64e15 in size) it is never rounded up to the next integer, so
  that the cast that follows truncates the exact quotient.

  Everywhere else the clock is \<open>now_unix\<close> of \<open>Externals\<close>, of which no theorem assumes anything.
\<close>

text \<open>\<open>duration_since(UNIX_EPOCH)\<close> in whole seconds; an error for a clock before the epoch.\<close>

definition duration_since_epoch :: "int \<Rightarrow> unit + nat" where
  "duration_since_epoch nanos = (if nanos < 0 then Inl () else Inr (nat (nanos div 1000000000)))"

definition now_unix_native :: "int \<Rightarrow> int" where
  "now_unix_native nanos =
     sint (word_of_nat (case duration_since_epoch nanos of Inr secs \<Rightarrow> secs | Inl _ \<Rightarrow> 0) :: 64 word)"

text \<open>\<open>as i64\<close> of a float truncates and saturates.\<close>

definition saturating_i64 :: "int \<Rightarrow> int" where
  "saturating_i64 i = max (- (2 ^ 63)) (min (2 ^ 63 - 1) i)"

definition now_unix_browser :: "int \<Rightarrow> int" where
  "now_unix_browser millis =
     saturating_i64 (if millis < 0 then - ((- millis) div 1000) else millis div 1000)"

text \<open>Up to the year 292277026596 the native clock is the number of whole seconds.\<close>

lemma now_unix_native_seconds:
  assumes "0 \<le> nanos" and "nanos div 1000000000 < 2 ^ 63"
  shows "now_unix_native nanos = nanos div 1000000000"
proof -
  have "0 \<le> nanos div 1000000000" using assms(1) by (simp add: pos_imp_zdiv_nonneg_iff)
  then have "(word_of_nat (nat (nanos div 1000000000)) :: 64 word) = word_of_int (nanos div 1000000000)"
    by simp
  then show ?thesis
    using assms \<open>0 \<le> nanos div 1000000000\<close>
    by (simp add: now_unix_native_def duration_since_epoch_def sint_sbintrunc' signed_take_bit_int_eq_self_iff)
qed

lemma now_unix_native_early: "nanos < 0 \<Longrightarrow> now_unix_native nanos = 0"
  by (simp add: now_unix_native_def duration_since_epoch_def)

text \<open>The two builds read the same clock alike, from the epoch on.\<close>

lemma clocks_agree:
  assumes "0 \<le> millis" and "millis div 1000 < 2 ^ 63"
  shows "now_unix_browser millis = now_unix_native (millis * 1000000)"
proof -
  have e: "millis * 1000000 div 1000000000 = millis div 1000"
    using div_mult_mult2 [of 1000000 millis 1000] by simp
  have "now_unix_native (millis * 1000000) = millis div 1000"
    using now_unix_native_seconds [of "millis * 1000000"] assms by (simp add: e)
  moreover have "0 \<le> millis div 1000" using assms(1) by (simp add: pos_imp_zdiv_nonneg_iff)
  ultimately show ?thesis using assms by (simp add: now_unix_browser_def saturating_i64_def)
qed

end
