(* ===== verification/Spec2Isabelle.thy ===== *)
theory Spec2Isabelle
  imports Host_Threads Js_Session Interactions Described_Authenticator Device_Models Timeutil
begin

text \<open>
  A model of siros-wscd-manager, the crate that manages a wallet's secure cryptographic devices.

  \<^bold>\<open>The program.\<close> A \<open>WscdManager\<close> (src/manager.rs) routes every operation on a key to one of its
  registered plugins, each an implementation of the trait \<open>WscdPlugin\<close> (src/traits.rs): software keys,
  keys of the Apple Secure Enclave, of the Android Keystore, of a FIDO2 authenticator with the
  previewSign extension, and of a remote HSM (R2PS). A plugin reaches its device through a callback
  the host application implements (src/callbacks.rs) and answers a sign with the authentication
  factors that were established (src/factors.rs). The FIDO2 plugin speaks CTAP2: commands and
  responses in CBOR (src/preview\_sign\_protocol.rs), the PIN exchange (src/ctap2\_client\_pin.rs), and
  ARKG key derivation (src/arkg.rs).

  \<^bold>\<open>How the code is rendered.\<close> A struct is a record, an enum a datatype, \<open>Result\<close> a sum with the error
  on the left, a panic the error \<open>RustPanic\<close>, and \<open>HashMap\<close> an association list whose order no theorem
  depends on. An operation that talks to the host is a function from a state to a result and a state,
  the state being a plugin's own state beside an abstract outside world \<open>'w\<close>; the state is returned
  with an error too, since Rust keeps what was done before an early return. Strings are lists of
  UTF-8 bytes, and lists of scalars where the code counts characters. Bytes and lengths of the wire
  formats are words; counts and sizes that cannot overflow are numbers. Third-party packages and the
  host are parameters: the record \<open>externals\<close> of pure functions, the callback records, and
  \<open>r2ps_client\<close>; what a property needs of them is a named hypothesis (\<open>symmetric_ok\<close>,
  \<open>cbor_roundtrips\<close>, \<open>base64_ok\<close>, \<open>keystore_ok\<close>, ...), which states documented behaviour.
  \<open>Cbor_Ref\<close> builds concrete functions that satisfy them, for the witnesses.

  \<^bold>\<open>The theories.\<close>
  \<^item> \<open>Wscd_Prelude\<close>: results, effects, hash maps, bytes and the formatting of numbers.
  \<^item> \<open>Wscd_Types\<close>: src/error.rs, src/types.rs, src/config.rs. \<open>Externals\<close>: src/callbacks.rs and the
    packages. \<open>Utf8\<close>: the encoding and Rust's decoder. \<open>Cbor_Ref\<close>: a reference CBOR codec with its
    round trip (its decoder runs on fuel, three units per input byte, and the round trip is proved
    with that fuel), and reference callbacks.
  \<^item> \<open>Factors\<close>: src/factors.rs. A sign reports no shortfall exactly when two categories of the TS12
    vocabulary were established. \<open>Uvm\<close>: src/webauthn\_uvm.rs.
  \<^item> \<open>Ctap_Wire\<close>, \<open>Ctap_Response\<close>, \<open>Ceremonies\<close>: src/preview\_sign\_protocol.rs. What is encoded parses back,
    no parser panics on any bytes, and no ceremony does.
  \<^item> \<open>Client_Pin\<close>: src/ctap2\_client\_pin.rs. A chosen PIN arrives intact, an unusable one is never sent,
    a PIN that exists is never replaced. \<open>Authenticator_Info\<close>: src/authenticator\_info.rs, which reads the
    same \<open>getInfo\<close> to the same verdict and changes nothing.
  \<^item> \<open>Pin_Authenticator\<close>, \<open>Described_Authenticator\<close>: the authenticators the tests of these two files run
    against, as transports with a state. The whole PIN exchange and the whole description are proved
    exact against them, for every state they can be in; the verdict expected of a description is written on the
    authenticator's facts, apart from the code's.
  \<^item> \<open>Arkg\<close>: src/arkg.rs. Message expansion, the KEM and the derivation, which cannot panic. The authenticator's side
    is \<open>authenticator_private_key\<close>, translated from the module's test: the private key it derives from a key
    handle, with the labels and the expansion of the drafts written out again, belongs to the derived public key.
  \<^item> \<open>Plugin_Iface\<close>: src/traits.rs and src/plugins/mod.rs. \<open>plugin_ops\<close> is the method table of the trait.
    The locale \<open>key_store\<close> is the contract of a local key store: what generation, deletion, signing and
    the queries do to the set of keys it holds. \<open>managed_store\<close> extends it by import and the lifecycle operations;
    that any sequence of requests leaves exactly the keys of \<open>key_ledger\<close> is proved in it once.
  \<^item> \<open>Softkey\<close>, \<open>Apple_Secure_Enclave\<close>, \<open>Android_Keystore\<close>, \<open>Fido2_Sign\<close>: the four local plugins, one theory
    per file of src/plugins, each with its state record, its methods and its method table, and each an
    interpretation of \<open>key_store\<close> and \<open>managed_store\<close>. \<open>softkey_step\<close> is the software store as a transition
    system. A FIDO2 sign with factors is the sign without its recorder, plus the class of the PIN typed.
    \<open>Device_Models\<close>: the Keystore and the Secure Enclave of the plugin tests, with every failure they can
    be set to; the Keystore keeps what \<open>Android_Keystore\<close> assumes of a device.
  \<^item> \<open>R2ps\<close>: src/plugins/r2ps.rs. The client package calls back into the plugin; such a call is a
    \<open>dialogue\<close>, a tree over the plugin's answers. The store is remote, so \<open>key_store\<close> does not apply to it.
  \<^item> \<open>Manager\<close>: src/manager.rs over any plugins. The locale \<open>plugin_host\<close> assumes that the registered
    plugins keep \<open>key_store\<close> and proves what the manager promises about keys and bindings.
  \<^item> \<open>Wallet\<close>: the manager with the crate's plugins, whose states are the constructors of the datatype
    \<open>plugin_state\<close>. \<open>plugin_host\<close> is interpreted on the four local plugins; the remote one can be
    registered beside them, and selection with it is treated in \<open>R2ps\<close>.
  \<^item> \<open>Interactions\<close>: the FIDO2 operations over a world with a journal of commands and prompts, whose events are the
    phases of a ceremony in order. The locale \<open>conversing\<close> is what such a world promises; it is interpreted on the
    journal and on the world in which the recorder of a sign listens too.
  \<^item> \<open>Session\<close>: what holds in every sequence of calls on a manager. \<open>frame\<close> (in the prelude) is the locale of
    relations between the states before and after a step; it is interpreted on \<open>session_kept\<close> (the map of
    plugins stays typed, bindings name registered plugins), \<open>keys_untouched\<close>, \<open>wallet_kept\<close> and \<open>route_kept\<close>.
  \<^item> \<open>Restore\<close>: stores that leave the process as bytes and come back. The locale \<open>restorable\<close> is the
    contract of such a store, interpreted on the four local plugins and used by both interfaces.
  \<^item> \<open>Ffi_Types\<close>, \<open>Ffi\<close>: src/ffi.rs. The mirror types with their conversions, the host's callbacks as the
    crate's own, and every method of \<open>FfiWscdManager\<close>. \<open>Host_Session\<close>: any sequence of calls of a native host,
    as a transition system with an invariant. \<open>Host_Threads\<close>: calls of several threads over
    \<open>Mutex<InternalManager>\<close>, \<open>lock_inner\<close> and poisoning, and callbacks that call the manager again. The locale
    \<open>sequential_object\<close> is what the locked object owes the threads, interpreted on the calls of a host.
  \<^item> \<open>Timeutil\<close>: src/timeutil.rs, the clock of a native and of a browser build.
  \<^item> \<open>Wasm_Transport\<close>: src/wasm\_fido2.rs, the CTAP2 transport over \<open>navigator.credentials\<close>; the JavaScript
    engine and the page are the records \<open>js_engine\<close> and \<open>browser\<close>. \<open>Wasm_Ffi\<close>: src/wasm\_ffi.rs, the manager
    a page sees. \<open>Js_Session\<close>: the calls a page may have in flight at the same time, as a transition
    system over the \<open>RefCell\<close>'s borrow flag.

  \<^bold>\<open>The properties\<close> say, for the whole wallet: a key generated for a level reaches it, or is gone; keys
  appear and disappear only on request, lifecycle and import included; signing and deleting reach the holder of the key and nothing
  else; a binding never dangles, and only deletion, migration and a selection by level move one; stores
  come back with their keys and routes. For the factors: a second category is only claimed for what was
  observed in the same sign, and a host's own claim is checked before anything happens. For the devices:
  no orphaned keys on an Android device; a cancelled ceremony ends a selection as cancelled, from the
  host's dialog or the page's to the host's result; a FIDO2 operation sends and asks exactly what its
  ceremony needs, step by step; a derived key is the one the authenticator will sign with; a PIN exchange with a correct authenticator ends with its token or with the typed reason; without
  StrongBox a key is still generated; a description shows what the authenticator reports. For the data:
  round trips of stored state and of what a browser reports, and no panic on any input. For overlapping calls of a page: the cell refuses exactly the conflicting ones, and those it
  admits do not interfere. For the threads of a native host: their calls are as good as one after another
  and all return, poisoned mutex or not, unless a callback calls its own manager, which blocks every
  thread for good.

  \<^bold>\<open>Defects the model shows\<close>, each visible in a definition and some in a theorem: destroying one FIDO2
  context clears every key (\<open>fido_destroy_clears_every_key\<close>); one key of an odd coordinate width makes
  an exported FIDO2 store unloadable (\<open>fido_store_restores_iff_widths_ok\<close>); rotating an unknown context
  leaves an orphaned key; a destroyed context can be activated; a kid collision in \<open>generate_key_on\<close>
  leaves the new key in the plugin; \<open>migrate_key\<close> binds without the collision check; destroying a
  context leaves stale bindings; destroying a remote context rewrites its factor kind
  (\<open>remote_destroy_outcome\<close>); a remote candidate that falls short ends a selection
  (\<open>remote_shortfall_ends_selection\<close>); a software container imported by a native host is not bound, unlike
  every other restored store (\<open>imported_keys_follow_the_default\<close>); the Keystore and CTAP2 adapters lose a
  host's cancellation (\<open>cancelled_signing_prompt\<close>); a host callback that calls its own manager blocks every
  thread (\<open>reentry_blocks_the_manager\<close>).

  \<^bold>\<open>Not modelled.\<close> The mutexes inside the plugins, which only calls inside the manager's lock take. The
  executors that poll the futures. Zeroising of secrets, which has no observable effect. Serialisation
  of stored state (serde), the system clock and random numbers are parameters. The module list
  (src/lib.rs), the build script and the version string carry no logic. The tests are not part of the
  program; of those inside the modules only the authenticators and devices they run against are
  modelled, and the servers and plugins of the other tests are not.
\<close>

end
